theory Spec2Isabelle
  imports Complex_Main "HOL-Library.Log_Nat"
begin

chapter \<open>The embedding\<close>

section \<open>JavaScript values\<close>

text \<open>
  The engine works on untyped JavaScript data (\<^verbatim>\<open>data: unknown\<close>, \<^verbatim>\<open>scopes: unknown[]\<close>) and
  on cell values of the spreadsheet container. Both are embedded in one datatype.

  Numbers are IEEE 754 doubles in the source. The embedding keeps \<open>NaN\<close> and the two
  infinities apart and holds a finite double as the rational number it denotes; every
  arithmetic operation rounds its exact result to the nearest double (section
  \<open>Double arithmetic\<close>). The sign of zero is not modelled. An object is an association list
  of its own enumerable properties, read with \<open>map_of\<close>; properties inherited from a
  prototype are not modelled. A \<^verbatim>\<open>Date\<close> carries its time value.
\<close>

datatype jsnum = NaN | NegInf | Fin rat | PosInf

datatype jsval =
    JUndefined
  | JNull
  | JBool bool
  | JNum jsnum
  | JBigInt int
  | JStr string
  | JDate jsnum
  | JArr "jsval list"
  | JObj "(string \<times> jsval) list"

text \<open>Exceptions of the source are values of the model.\<close>

datatype error = TypeError string

definition isNil :: "jsval \<Rightarrow> bool" where
  "isNil v = (v = JUndefined \<or> v = JNull)"

definition isUndefined :: "jsval \<Rightarrow> bool" where
  "isUndefined v = (v = JUndefined)"

fun isString :: "jsval \<Rightarrow> bool" where
  "isString (JStr _) = True"
| "isString _ = False"

fun isNumber :: "jsval \<Rightarrow> bool" where
  "isNumber (JNum _) = True"
| "isNumber _ = False"

fun isArray :: "jsval \<Rightarrow> bool" where
  "isArray (JArr _) = True"
| "isArray _ = False"

text \<open>The operator \<^verbatim>\<open>a ?? b\<close>.\<close>

definition nullish :: "jsval \<Rightarrow> jsval \<Rightarrow> jsval" where
  "nullish a b = (if a = JUndefined \<or> a = JNull then b else a)"

section \<open>Double arithmetic\<close>

text \<open>
  \<open>floorLog2 x\<close> is the binary exponent of a positive rational: the \<open>e\<close> with
  \<open>2^e \<le> x < 2^(e + 1)\<close>. It is the difference of the bit lengths of numerator and
  denominator, or one less.
\<close>

definition floorLog2 :: "rat \<Rightarrow> int" where
  "floorLog2 x =
     (case quotient_of x of
        (p, q) \<Rightarrow> (let e = bitlen p - bitlen q in if 2 powi e \<le> x then e else e - 1))"

text \<open>Rounding to the nearest integer, a tie to the even one.\<close>

definition roundHalfEven :: "rat \<Rightarrow> int" where
  "roundHalfEven t =
     (let f = \<lfloor>t\<rfloor>; d = t - of_int f
      in if d < 1 / 2 then f
         else if 1 / 2 < d then f + 1
         else if even f then f else f + 1)"

text \<open>
  The double nearest to a rational number (round to nearest, ties to even): 53 significant
  bits, the unit in the last place is \<open>2^(e - 52)\<close> and never below \<open>2^(-1074)\<close>, and a result
  of magnitude \<open>2^1024\<close> is an infinity.
\<close>

definition toDouble :: "rat \<Rightarrow> jsnum" where
  "toDouble x =
     (if x = 0 then Fin 0
      else
        (let e = floorLog2 \<bar>x\<bar>;
             u = 2 powi (max e (- 1022) - 52);
             q = roundHalfEven (x / u)
         in if 1024 \<le> e \<or> (e = 1023 \<and> \<bar>q\<bar> = 2 ^ 53)
            then (if 0 < x then PosInf else NegInf)
            else Fin (of_int q * u)))"

text \<open>
  The operators \<^verbatim>\<open>-a\<close>, \<^verbatim>\<open>a + b\<close>, \<^verbatim>\<open>a - b\<close>, \<^verbatim>\<open>a * b\<close>, \<^verbatim>\<open>a / b\<close>, \<^verbatim>\<open>a % b\<close> and \<^verbatim>\<open>a < b\<close> on numbers,
  and \<^verbatim>\<open>Math.floor\<close>. The remainder has the sign of the dividend and is exact.
\<close>

fun negate :: "jsnum \<Rightarrow> jsnum" where
  "negate NaN = NaN"
| "negate NegInf = PosInf"
| "negate PosInf = NegInf"
| "negate (Fin r) = Fin (- r)"

fun js_add :: "jsnum \<Rightarrow> jsnum \<Rightarrow> jsnum" where
  "js_add NaN _ = NaN"
| "js_add _ NaN = NaN"
| "js_add PosInf NegInf = NaN"
| "js_add NegInf PosInf = NaN"
| "js_add PosInf _ = PosInf"
| "js_add _ PosInf = PosInf"
| "js_add NegInf _ = NegInf"
| "js_add _ NegInf = NegInf"
| "js_add (Fin a) (Fin b) = toDouble (a + b)"

definition js_sub :: "jsnum \<Rightarrow> jsnum \<Rightarrow> jsnum" where
  "js_sub a b = js_add a (negate b)"

fun js_mul :: "jsnum \<Rightarrow> jsnum \<Rightarrow> jsnum" where
  "js_mul NaN _ = NaN"
| "js_mul _ NaN = NaN"
| "js_mul (Fin a) (Fin b) = toDouble (a * b)"
| "js_mul (Fin a) PosInf = (if a = 0 then NaN else if 0 < a then PosInf else NegInf)"
| "js_mul (Fin a) NegInf = (if a = 0 then NaN else if 0 < a then NegInf else PosInf)"
| "js_mul PosInf (Fin b) = (if b = 0 then NaN else if 0 < b then PosInf else NegInf)"
| "js_mul NegInf (Fin b) = (if b = 0 then NaN else if 0 < b then NegInf else PosInf)"
| "js_mul PosInf PosInf = PosInf"
| "js_mul PosInf NegInf = NegInf"
| "js_mul NegInf PosInf = NegInf"
| "js_mul NegInf NegInf = PosInf"

fun js_div :: "jsnum \<Rightarrow> jsnum \<Rightarrow> jsnum" where
  "js_div NaN _ = NaN"
| "js_div _ NaN = NaN"
| "js_div (Fin a) (Fin b) =
     (if b = 0 then (if a = 0 then NaN else if 0 < a then PosInf else NegInf)
      else toDouble (a / b))"
| "js_div (Fin a) _ = Fin 0"
| "js_div PosInf (Fin b) = (if 0 \<le> b then PosInf else NegInf)"
| "js_div NegInf (Fin b) = (if 0 \<le> b then NegInf else PosInf)"
| "js_div _ _ = NaN"

definition trunc :: "rat \<Rightarrow> int" where
  "trunc x = (if 0 \<le> x then \<lfloor>x\<rfloor> else \<lceil>x\<rceil>)"

fun js_rem :: "jsnum \<Rightarrow> jsnum \<Rightarrow> jsnum" where
  "js_rem (Fin a) (Fin b) = (if b = 0 then NaN else Fin (a - b * of_int (trunc (a / b))))"
| "js_rem (Fin a) PosInf = Fin a"
| "js_rem (Fin a) NegInf = Fin a"
| "js_rem _ _ = NaN"

fun js_lt :: "jsnum \<Rightarrow> jsnum \<Rightarrow> bool" where
  "js_lt NaN _ = False"
| "js_lt _ NaN = False"
| "js_lt (Fin a) (Fin b) = (a < b)"
| "js_lt NegInf NegInf = False"
| "js_lt NegInf _ = True"
| "js_lt _ NegInf = False"
| "js_lt PosInf _ = False"
| "js_lt _ PosInf = True"

fun Math_floor :: "jsnum \<Rightarrow> jsnum" where
  "Math_floor (Fin x) = Fin (of_int \<lfloor>x\<rfloor>)"
| "Math_floor n = n"

text \<open>
  \<^verbatim>\<open>String.fromCharCode(n)\<close>: the code unit \<^verbatim>\<open>ToUint16(n)\<close>, which is 0 for \<open>NaN\<close> and the
  infinities. Characters of the model are the code units below 256; the one call of the
  engine, in \<^verbatim>\<open>columnNumberToLetter\<close>, passes 65 plus a remainder of a division by 26.
\<close>

definition String_fromCharCode :: "jsnum \<Rightarrow> char" where
  "String_fromCharCode n =
     (case n of Fin x \<Rightarrow> char_of (trunc x mod 65536) | _ \<Rightarrow> char_of (0::int))"

section \<open>Property access: lodash \<^verbatim>\<open>_.get\<close>\<close>

text \<open>
  \<^verbatim>\<open>_.get(object, path)\<close> is library code. It is modelled on dotted paths: a path that is
  already a property of the object is used as one key, any other path is split at its dots
  (bracket notation \<^verbatim>\<open>a[0]\<close> is not modelled). Walking stops with \<^verbatim>\<open>undefined\<close> as soon as an
  intermediate value is \<^verbatim>\<open>null\<close> or \<^verbatim>\<open>undefined\<close>.
\<close>

fun splitOn :: "char \<Rightarrow> string \<Rightarrow> string list" where
  "splitOn c [] = [[]]"
| "splitOn c (x # xs) =
     (if x = c then [] # splitOn c xs
      else (case splitOn c xs of
              [] \<Rightarrow> [[x]]
            | y # ys \<Rightarrow> (x # y) # ys))"

definition isDigit :: "char \<Rightarrow> bool" where
  "isDigit c = (48 \<le> (of_char c :: nat) \<and> (of_char c :: nat) \<le> 57)"

definition digitVal :: "char \<Rightarrow> nat" where
  "digitVal c = (of_char c :: nat) - 48"

definition digitsVal :: "string \<Rightarrow> nat" where
  "digitsVal s = foldl (\<lambda>n c. n * 10 + digitVal c) 0 s"

text \<open>An array index as a property key: decimal digits without a leading zero.\<close>

definition indexOfKey :: "string \<Rightarrow> nat option" where
  "indexOfKey k =
     (if k \<noteq> [] \<and> list_all isDigit k \<and> (k = ''0'' \<or> hd k \<noteq> CHR ''0'')
      then Some (digitsVal k) else None)"

text \<open>\<^verbatim>\<open>object[key]\<close> for a value that is neither \<^verbatim>\<open>null\<close> nor \<^verbatim>\<open>undefined\<close>.\<close>

fun getProp :: "jsval \<Rightarrow> string \<Rightarrow> jsval" where
  "getProp (JObj kvs) k = (case map_of kvs k of Some v \<Rightarrow> v | None \<Rightarrow> JUndefined)"
| "getProp (JArr xs) k =
     (if k = ''length'' then JNum (Fin (of_nat (length xs)))
      else (case indexOfKey k of
              Some i \<Rightarrow> (if i < length xs then xs ! i else JUndefined)
            | None \<Rightarrow> JUndefined))"
| "getProp (JStr s) k =
     (if k = ''length'' then JNum (Fin (of_nat (length s)))
      else (case indexOfKey k of
              Some i \<Rightarrow> (if i < length s then JStr [s ! i] else JUndefined)
            | None \<Rightarrow> JUndefined))"
| "getProp _ k = JUndefined"

text \<open>\<^verbatim>\<open>key in Object(object)\<close>.\<close>

fun hasProp :: "jsval \<Rightarrow> string \<Rightarrow> bool" where
  "hasProp (JObj kvs) k = (map_of kvs k \<noteq> None)"
| "hasProp (JArr xs) k =
     (k = ''length'' \<or> (case indexOfKey k of Some i \<Rightarrow> i < length xs | None \<Rightarrow> False))"
| "hasProp (JStr s) k =
     (k = ''length'' \<or> (case indexOfKey k of Some i \<Rightarrow> i < length s | None \<Rightarrow> False))"
| "hasProp _ k = False"

definition castPath :: "string \<Rightarrow> jsval \<Rightarrow> string list" where
  "castPath path object =
     (if CHR ''.'' \<notin> set path \<or> hasProp object path then [path]
      else splitOn (CHR ''.'') path)"

fun baseGet :: "jsval \<Rightarrow> string list \<Rightarrow> jsval" where
  "baseGet object [] = object"
| "baseGet object (k # ks) =
     (if object = JNull \<or> object = JUndefined then JUndefined
      else baseGet (getProp object k) ks)"

definition lodash_get :: "jsval \<Rightarrow> string \<Rightarrow> jsval" where
  "lodash_get object path =
     (if object = JNull \<or> object = JUndefined then JUndefined
      else baseGet object (castPath path object))"

section \<open>Path resolution\<close>

text \<open>
  \<^verbatim>\<open>resolve(path, scopes)\<close>: a left fold over the scope stack that keeps the first result
  that is not \<^verbatim>\<open>undefined\<close>, followed by \<^verbatim>\<open>?? ""\<close>.
\<close>

definition resolve :: "string \<Rightarrow> jsval list \<Rightarrow> jsval" where
  "resolve path scopes =
     nullish
       (foldl (\<lambda>result scope. if \<not> isUndefined result then result else lodash_get scope path)
          JUndefined scopes)
       (JStr [])"

text \<open>
  The specification's wording, for comparison: the value of the first scope in which the
  path resolves to a defined value.
\<close>

fun firstDefined :: "string \<Rightarrow> jsval list \<Rightarrow> jsval option" where
  "firstDefined path [] = None"
| "firstDefined path (scope # scopes) =
     (if lodash_get scope path \<noteq> JUndefined then Some (lodash_get scope path)
      else firstDefined path scopes)"

section \<open>Column addresses\<close>

text \<open>
  Strings are lists of 8-bit characters; \<^verbatim>\<open>toUpperCase\<close> is modelled on the ASCII letters.
  Column numbers are JavaScript numbers: the arithmetic of the two conversions is the
  arithmetic of doubles.
\<close>

definition toUpperChar :: "char \<Rightarrow> char" where
  "toUpperChar c =
     (if 97 \<le> (of_char c :: int) \<and> (of_char c :: int) \<le> 122
      then char_of ((of_char c :: int) - 32) else c)"

definition toUpperCase :: "string \<Rightarrow> string" where
  "toUpperCase s = map toUpperChar s"

definition columnLetterToNumber :: "string \<Rightarrow> jsnum" where
  "columnLetterToNumber letter =
     foldl (\<lambda>num c. js_add (js_mul num (Fin 26)) (js_sub (Fin (of_char c)) (Fin 64)))
       (Fin 0) (toUpperCase letter)"

text \<open>
  The loop of \<^verbatim>\<open>columnNumberToLetter\<close>. It ends for every number: a positive finite number
  gets smaller, and \<^verbatim>\<open>Infinity\<close> becomes \<open>NaN\<close> after one round (\<^verbatim>\<open>Infinity % 26\<close> is \<open>NaN\<close>).
\<close>

function columnNumberToLetter_loop :: "jsnum \<Rightarrow> string \<Rightarrow> string" where
  "columnNumberToLetter_loop num letter =
     (if js_lt (Fin 0) num then
        (let m = js_rem (js_sub num (Fin 1)) (Fin 26)
         in columnNumberToLetter_loop (Math_floor (js_div (js_sub num m) (Fin 26)))
              (String_fromCharCode (js_add (Fin 65) m) # letter))
      else letter)"
  by pat_completeness auto
termination
proof (relation "measure (\<lambda>(num, letter).
                   case num of Fin x \<Rightarrow> (if 0 < x then nat \<lceil>x\<rceil> + 2 else 0)
                   | PosInf \<Rightarrow> 1 | _ \<Rightarrow> 0)", goal_cases)
  case 1
  show ?case by simp
next
  case (2 num letter m)
  have half: "(0 \<le> t \<longrightarrow> 0 \<le> roundHalfEven t \<and> of_int (roundHalfEven t) \<le> 2 * t)
            \<and> (t \<le> 0 \<longrightarrow> roundHalfEven t \<le> 0 \<and> 2 * t \<le> of_int (roundHalfEven t))" for t
  proof -
    define f where "f = \<lfloor>t\<rfloor>"
    define d where "d = t - of_int f"
    have t: "t = of_int f + d" by (simp add: d_def)
    have d: "0 \<le> d" "d < 1" unfolding d_def f_def by linarith+
    have r: "roundHalfEven t = (if d < 1 / 2 then f else if 1 / 2 < d then f + 1
                                else if even f then f else f + 1)"
      by (simp add: roundHalfEven_def Let_def f_def d_def)
    have pos: "0 \<le> roundHalfEven t \<and> of_int (roundHalfEven t) \<le> 2 * t" if "0 \<le> t"
    proof -
      have "(- 1 :: rat) < of_int f" using that t d by linarith
      then have "- 1 < f" by (metis of_int_less_iff of_int_minus of_int_1)
      then have f0: "0 \<le> f" by simp
      show ?thesis
      proof (cases "f = 0")
        case True
        then show ?thesis unfolding r using t d by (simp split: if_splits)
      next
        case False
        with f0 have "1 \<le> f" by simp
        then have "(1::rat) \<le> of_int f" by (metis of_int_1_le_iff)
        then show ?thesis unfolding r using t d f0 by (simp split: if_splits)
      qed
    qed
    have neg: "roundHalfEven t \<le> 0 \<and> 2 * t \<le> of_int (roundHalfEven t)" if "t \<le> 0"
    proof -
      have "of_int f \<le> (0 :: rat)" using that t d by linarith
      then have f0: "f \<le> 0" by simp
      show ?thesis
      proof (cases "f = 0")
        case True
        with that t d have "d = 0" by simp
        with True show ?thesis unfolding r using t by simp
      next
        case False
        with f0 have f1: "f \<le> - 1" by simp
        show ?thesis
        proof (cases "f = - 1")
          case True
          then show ?thesis unfolding r using d that t by (auto split: if_splits)
        next
          case False
          with f1 have "f \<le> - 2" by simp
          then have "of_int f \<le> (- 2 :: rat)"
            by (metis of_int_le_iff of_int_minus of_int_numeral)
          then show ?thesis unfolding r using t d f1 by (simp split: if_splits)
        qed
      qed
    qed
    from pos neg show ?thesis by blast
  qed
  have rnd: "(0 \<le> z \<longrightarrow> 0 \<le> w \<and> w \<le> 2 * z) \<and> (z \<le> 0 \<longrightarrow> w \<le> 0 \<and> 2 * z \<le> w)"
    if "toDouble z = Fin w" for z w
  proof (cases "z = 0")
    case True
    with that show ?thesis by (simp add: toDouble_def)
  next
    case False
    define u :: rat where "u = 2 powi (max (floorLog2 \<bar>z\<bar>) (- 1022) - 52)"
    define q where "q = roundHalfEven (z / u)"
    have u: "0 < u" by (simp add: u_def)
    from that False have w: "w = of_int q * u"
      by (simp add: toDouble_def Let_def u_def q_def split: if_splits)
    have a: "0 \<le> w \<and> w \<le> 2 * z" if "0 \<le> z"
    proof -
      from that u have "0 \<le> z / u" by simp
      with half [of "z / u"] have "0 \<le> q" "of_int q \<le> 2 * (z / u)" by (simp_all add: q_def)
      then have "0 \<le> of_int q * u" "of_int q * u \<le> 2 * z"
        using u by (simp_all add: pos_le_divide_eq)
      then show ?thesis by (simp add: w)
    qed
    have b: "w \<le> 0 \<and> 2 * z \<le> w" if "z \<le> 0"
    proof -
      from that u have "z / u \<le> 0" by (simp add: divide_nonpos_pos)
      with half [of "z / u"] have "q \<le> 0" "2 * (z / u) \<le> of_int q" by (simp_all add: q_def)
      then have "of_int q * u \<le> 0" "2 * z \<le> of_int q * u"
        using u by (simp_all add: pos_divide_le_eq mult_nonpos_nonneg)
      then show ?thesis by (simp add: w)
    qed
    from a b show ?thesis by blast
  qed
  have rem: "(0 \<le> a \<longrightarrow> 0 \<le> r \<and> r \<le> a) \<and> (a \<le> 0 \<longrightarrow> a \<le> r \<and> r \<le> 0)"
    if "js_rem (Fin a) (Fin 26) = Fin r" for a r
  proof -
    from that have r: "r = a - 26 * of_int (trunc (a / 26))" by simp
    have p: "0 \<le> r \<and> r \<le> a" if "0 \<le> a"
    proof -
      from that have t: "trunc (a / 26) = \<lfloor>a / 26\<rfloor>" by (simp add: trunc_def)
      have "of_int \<lfloor>a / 26\<rfloor> \<le> a / 26" by (rule of_int_floor_le)
      moreover have "0 \<le> \<lfloor>a / 26\<rfloor>" using that by simp
      then have "(0::rat) \<le> of_int \<lfloor>a / 26\<rfloor>" by simp
      ultimately show ?thesis unfolding r t by linarith
    qed
    have n: "a \<le> r \<and> r \<le> 0" if "a \<le> 0"
    proof (cases "a = 0")
      case True
      then show ?thesis by (simp add: r trunc_def)
    next
      case False
      with that have t: "trunc (a / 26) = \<lceil>a / 26\<rceil>" by (simp add: trunc_def)
      have "a / 26 \<le> of_int \<lceil>a / 26\<rceil>" by (rule le_of_int_ceiling)
      moreover have "\<lceil>a / 26\<rceil> \<le> 0" using that by (simp add: ceiling_le_iff)
      then have "of_int \<lceil>a / 26\<rceil> \<le> (0::rat)" by simp
      ultimately show ?thesis unfolding r t by linarith
    qed
    from p n show ?thesis by blast
  qed
  show ?case
  proof (cases num)
    case NaN
    with 2 show ?thesis by simp
  next
    case NegInf
    with 2 show ?thesis by simp
  next
    case PosInf
    with 2 show ?thesis by (simp add: js_sub_def)
  next
    case (Fin x)
    note num = Fin
    with 2 have x: "0 < x" by simp
    let ?next = "Math_floor (js_div (js_sub num m) (Fin 26))"
    have lt: "\<lceil>y\<rceil> < \<lceil>x\<rceil>" if n: "?next = Fin y" and y: "0 < y" for y
    proof -
      from n obtain t where t: "js_div (js_sub num m) (Fin 26) = Fin t"
        and yt: "y = of_int \<lfloor>t\<rfloor>"
        by (cases "js_div (js_sub num m) (Fin 26)") simp_all
      from t obtain v where v: "js_sub num m = Fin v" and tv: "toDouble (v / 26) = Fin t"
        by (cases "js_sub num m") (simp_all split: if_splits)
      from v num obtain r where r: "m = Fin r" and vr: "toDouble (x + - r) = Fin v"
        by (cases m) (simp_all add: js_sub_def)
      from r 2 num obtain w where w: "js_sub (Fin x) (Fin 1) = Fin w"
        and rw: "js_rem (Fin w) (Fin 26) = Fin r"
        by (cases "js_sub (Fin x) (Fin 1)") simp_all
      from w have xw: "toDouble (x + - 1) = Fin w" by (simp add: js_sub_def)
      have tpos: "0 < t" using y yt by (simp add: floor_less_iff) 
      have vpos: "0 < v"
      proof (rule ccontr)
        assume "\<not> 0 < v"
        then have "v / 26 \<le> 0" by simp
        with rnd [OF tv] tpos show False by simp
      qed
      have t4: "t \<le> 2 * (v / 26)" using rnd [OF tv] vpos by simp
      have xr: "0 < x + - r"
      proof (rule ccontr)
        assume "\<not> 0 < x + - r"
        then have "x + - r \<le> 0" by simp
        with rnd [OF vr] vpos show False by simp
      qed
      have v2: "v \<le> 2 * (x + - r)" using rnd [OF vr] xr by simp
      have yle: "y \<le> t" unfolding yt by simp
      show ?thesis
      proof (cases "1 \<le> x")
        case True
        then have "0 \<le> w" using rnd [OF xw] by simp
        then have "0 \<le> r" using rem [OF rw] by simp
        with v2 t4 yle x have "y < x" by simp
        then show ?thesis by (simp add: yt less_ceiling_iff)
      next
        case False
        then have "x + - 1 \<le> 0" by simp
        then have "2 * (x + - 1) \<le> w" "w \<le> 0" using rnd [OF xw] by simp_all
        then have "2 * (x + - 1) \<le> r" using rem [OF rw] by simp
        with v2 t4 yle x False have "y < 1" by simp
        with yt have "\<lfloor>t\<rfloor> < 1" by (metis of_int_less_iff of_int_1)
        with y yt show ?thesis by simp
      qed
    qed
    show ?thesis
    proof (cases ?next)
      case NaN
      then show ?thesis using num x by simp
    next
      case NegInf
      then show ?thesis using num x by simp
    next
      case PosInf
      then show ?thesis using num x by simp
    next
      case (Fin y)
      show ?thesis
      proof (cases "0 < y")
        case True
        from lt [OF Fin True] have "nat \<lceil>y\<rceil> < nat \<lceil>x\<rceil>" using x by simp
        with Fin True show ?thesis using num x by simp
      next
        case False
        with Fin show ?thesis using num x by simp
      qed
    qed
  qed
qed

definition columnNumberToLetter :: "jsnum \<Rightarrow> string" where
  "columnNumberToLetter num = columnNumberToLetter_loop num []"

declare columnNumberToLetter_loop.simps [simp del]

text \<open>
  Row and column numbers of a worksheet are natural numbers in the model (the container
  allows 1048576 rows and 16384 columns, which doubles hold exactly). A column number that
  the engine computes from the letters of a range is read as one: the integer part of a
  positive finite number. \<^verbatim>\<open>Infinity\<close>, which a column text of several hundred letters gives,
  has no counterpart and is read as 0.
\<close>

definition toIndex :: "jsnum \<Rightarrow> nat" where
  "toIndex n = (case n of Fin r \<Rightarrow> nat \<lfloor>r\<rfloor> | _ \<Rightarrow> 0)"

section \<open>Hide offsets\<close>

text \<open>
  One entry per processed table anchor, in processing order: the rows to hide as
  \<^verbatim>\<open>renderTable\<close> reported them, the anchor's row number and the number of rows inserted
  (the fields \<^verbatim>\<open>rows\<close>, \<^verbatim>\<open>insertedAt\<close> and \<^verbatim>\<open>rowsInserted\<close>, with the prefix \<open>he_\<close>).
\<close>

record hideEntry =
  he_rows :: "int list"
  he_insertedAt :: int
  he_rowsInserted :: int

function calculateHideOffset_loop :: "nat \<Rightarrow> hideEntry list \<Rightarrow> nat \<Rightarrow> int \<Rightarrow> int" where
  "calculateHideOffset_loop entryIndex hideEntries j offset =
     (if j < length hideEntries then
        (let laterEntry = hideEntries ! j;
             currentEntry = hideEntries ! entryIndex
         in calculateHideOffset_loop entryIndex hideEntries (j + 1)
              (if he_insertedAt laterEntry < he_insertedAt currentEntry
                  \<and> he_rowsInserted laterEntry > 0
               then offset + he_rowsInserted laterEntry else offset))
      else offset)"
  by pat_completeness auto
termination
  by (relation "measure (\<lambda>(entryIndex, hideEntries, j, offset). length hideEntries - j)") auto

definition calculateHideOffset :: "nat \<Rightarrow> hideEntry list \<Rightarrow> int" where
  "calculateHideOffset entryIndex hideEntries =
     calculateHideOffset_loop entryIndex hideEntries (entryIndex + 1) 0"

declare calculateHideOffset_loop.simps [simp del]

text \<open>The specification's wording: every other entry above it and strictly before it.\<close>

definition specHideOffset :: "nat \<Rightarrow> hideEntry list \<Rightarrow> int" where
  "specHideOffset i es =
     sum_list (map he_rowsInserted
       (filter (\<lambda>e. he_insertedAt e < he_insertedAt (es ! i)) (take i es)))"

text \<open>What the code sums: entries strictly after it.\<close>

definition laterAbove :: "nat \<Rightarrow> hideEntry list \<Rightarrow> hideEntry list" where
  "laterAbove i es =
     filter (\<lambda>e. he_insertedAt e < he_insertedAt (es ! i) \<and> he_rowsInserted e > 0)
       (drop (i + 1) es)"

text \<open>
  Where a row ends up when \<open>k\<close> rows are inserted at position \<open>p\<close>: the rows from \<open>p\<close> on move
  down by \<open>k\<close>, as the properties of table expansion show for \<^verbatim>\<open>renderTable\<close>. \<open>finalRow\<close>
  follows a row through the insertions of the entries processed later.
\<close>

definition shiftRow :: "int \<Rightarrow> int \<Rightarrow> int \<Rightarrow> int" where
  "shiftRow p k r = (if p \<le> r then r + k else r)"

definition finalRow :: "hideEntry list \<Rightarrow> int \<Rightarrow> int" where
  "finalRow later r = foldl (\<lambda>r e. shiftRow (he_insertedAt e) (he_rowsInserted e) r) r later"

section \<open>Strings and numbers of the host\<close>

text \<open>
  Characters are code units below 256. White space (\<^verbatim>\<open>\s\<close>, \<^verbatim>\<open>String.prototype.trim\<close>, lodash
  \<^verbatim>\<open>_.trim\<close>) is tab, line feed, vertical tab, form feed, carriage return, space and the
  no-break space; the line terminators excluded by \<^verbatim>\<open>.\<close> are line feed and carriage return.
\<close>

definition isSpace :: "char \<Rightarrow> bool" where
  "isSpace c = ((of_char c :: nat) \<in> {9, 10, 11, 12, 13, 32, 160})"

definition isLineTerminator :: "char \<Rightarrow> bool" where
  "isLineTerminator c = ((of_char c :: nat) \<in> {10, 13})"

definition trim :: "string \<Rightarrow> string" where
  "trim s = rev (dropWhile isSpace (rev (dropWhile isSpace s)))"

text \<open>Decimal representation of an integer.\<close>

function showNat :: "nat \<Rightarrow> string" where
  "showNat n =
     (if n < 10 then [char_of (48 + n)]
      else showNat (n div 10) @ [char_of (48 + n mod 10)])"
  by pat_completeness auto
termination
  by (relation "measure id") auto

declare showNat.simps [simp del]

definition showInt :: "int \<Rightarrow> string" where
  "showInt i = (if i < 0 then CHR ''-'' # showNat (nat (- i)) else showNat (nat i))"

text \<open>
  \<^verbatim>\<open>Number(string)\<close>: the grammar of string numeric literals. \<open>stringMV\<close> is the mathematical
  value of a literal, the exact rational it denotes (\<open>NaN\<close> for a string that is no literal);
  \<open>Number_of_string\<close> is the number: the double nearest to the mathematical value.
\<close>

definition isHexDigit :: "char \<Rightarrow> bool" where
  "isHexDigit c = (isDigit c \<or> (of_char c :: nat) \<in> {65..70} \<or> (of_char c :: nat) \<in> {97..102})"

definition hexDigitVal :: "char \<Rightarrow> nat" where
  "hexDigitVal c =
     (if isDigit c then digitVal c
      else if (of_char c :: nat) \<in> {65..70} then (of_char c :: nat) - 55
      else (of_char c :: nat) - 87)"

definition radixVal :: "nat \<Rightarrow> string \<Rightarrow> nat" where
  "radixVal b s = foldl (\<lambda>n c. n * b + hexDigitVal c) 0 s"

definition nonDecimalIntegerLiteral :: "string \<Rightarrow> nat option" where
  "nonDecimalIntegerLiteral s =
     (case s of
        z # x # ds \<Rightarrow>
          (if z = CHR ''0'' \<and> ds \<noteq> [] then
             (if (x = CHR ''x'' \<or> x = CHR ''X'') \<and> list_all isHexDigit ds
                then Some (radixVal 16 ds)
              else if (x = CHR ''o'' \<or> x = CHR ''O'')
                      \<and> list_all (\<lambda>c. isDigit c \<and> digitVal c < 8) ds
                then Some (radixVal 8 ds)
              else if (x = CHR ''b'' \<or> x = CHR ''B'')
                      \<and> list_all (\<lambda>c. isDigit c \<and> digitVal c < 2) ds
                then Some (radixVal 2 ds)
              else None)
           else None)
      | _ \<Rightarrow> None)"

definition signedInteger :: "string \<Rightarrow> int option" where
  "signedInteger s =
     (case s of
        [] \<Rightarrow> None
      | c # ds \<Rightarrow>
          (if c = CHR ''+'' then
             (if ds \<noteq> [] \<and> list_all isDigit ds then Some (int (digitsVal ds)) else None)
           else if c = CHR ''-'' then
             (if ds \<noteq> [] \<and> list_all isDigit ds then Some (- int (digitsVal ds)) else None)
           else if list_all isDigit s then Some (int (digitsVal s))
           else None))"

definition exponentPart :: "string \<Rightarrow> int option" where
  "exponentPart s =
     (case s of
        [] \<Rightarrow> Some 0
      | c # r \<Rightarrow> (if c = CHR ''e'' \<or> c = CHR ''E'' then signedInteger r else None))"

definition scale10 :: "nat \<Rightarrow> int \<Rightarrow> rat" where
  "scale10 m e = (if 0 \<le> e then of_nat m * 10 ^ nat e else of_nat m / 10 ^ nat (- e))"

definition strUnsignedDecimalLiteral :: "string \<Rightarrow> jsnum" where
  "strUnsignedDecimalLiteral s =
     (if s = ''Infinity'' then PosInf
      else
        (let ip = takeWhile isDigit s;
             r1 = dropWhile isDigit s;
             hasDot = (r1 \<noteq> [] \<and> hd r1 = CHR ''.'');
             fp = (if hasDot then takeWhile isDigit (tl r1) else []);
             r2 = (if hasDot then dropWhile isDigit (tl r1) else r1)
         in if ip = [] \<and> fp = [] then NaN
            else (case exponentPart r2 of
                    None \<Rightarrow> NaN
                  | Some e \<Rightarrow> Fin (scale10 (digitsVal (ip @ fp)) (e - int (length fp))))))"

definition strDecimalLiteral :: "string \<Rightarrow> jsnum" where
  "strDecimalLiteral s =
     (case s of
        [] \<Rightarrow> NaN
      | c # r \<Rightarrow>
          (if c = CHR ''+'' then strUnsignedDecimalLiteral r
           else if c = CHR ''-'' then negate (strUnsignedDecimalLiteral r)
           else strUnsignedDecimalLiteral s))"

definition stringMV :: "string \<Rightarrow> jsnum" where
  "stringMV s =
     (let t = trim s
      in if t = [] then Fin 0
         else (case nonDecimalIntegerLiteral t of
                 Some n \<Rightarrow> Fin (of_nat n)
               | None \<Rightarrow> strDecimalLiteral t))"

definition Number_of_string :: "string \<Rightarrow> jsnum" where
  "Number_of_string s = (case stringMV s of Fin r \<Rightarrow> toDouble r | n \<Rightarrow> n)"

definition isNaN :: "jsnum \<Rightarrow> bool" where
  "isNaN n = (n = NaN)"

text \<open>
  lodash \<^verbatim>\<open>_.sum\<close>, \<^verbatim>\<open>_.mean\<close>, \<^verbatim>\<open>_.min\<close> and \<^verbatim>\<open>_.max\<close> on an array of numbers. The sum adds
  from the left, starting with the first element; the mean divides the sum by the length.
\<close>

definition lodash_sum :: "jsnum list \<Rightarrow> jsnum" where
  "lodash_sum xs = (case xs of [] \<Rightarrow> Fin 0 | y # ys \<Rightarrow> foldl js_add y ys)"

definition lodash_mean :: "jsnum list \<Rightarrow> jsnum" where
  "lodash_mean xs =
     (if xs = [] then NaN else js_div (lodash_sum xs) (Fin (of_nat (length xs))))"

definition baseExtremum :: "(jsnum \<Rightarrow> jsnum \<Rightarrow> bool) \<Rightarrow> jsnum list \<Rightarrow> jsnum option" where
  "baseExtremum comparator xs =
     foldl (\<lambda>computed current.
              (case computed of
                 None \<Rightarrow> (if current \<noteq> NaN then Some current else None)
               | Some c \<Rightarrow> (if comparator current c then Some current else computed)))
       None xs"

definition lodash_min :: "jsnum list \<Rightarrow> jsnum option" where
  "lodash_min xs = baseExtremum js_lt xs"

definition lodash_max :: "jsnum list \<Rightarrow> jsnum option" where
  "lodash_max xs = baseExtremum (\<lambda>a b. js_lt b a) xs"

section \<open>Formula rendering\<close>

text \<open>The constants \<^verbatim>\<open>ERROR_MESSAGES\<close>.\<close>

definition FIELD_NOT_FOUND :: "string \<Rightarrow> string" where
  "FIELD_NOT_FOUND field = ''Field '' @ [CHR 0x27] @ field @ [CHR 0x27] @ '' not found in table''"

definition NO_COLUMN_SPECIFIED :: string where
  "NO_COLUMN_SPECIFIED = ''No column specified for formula''"

definition NO_TABLE_OR_PATH :: string where
  "NO_TABLE_OR_PATH = ''No table or array path found for formula''"

definition UNKNOWN_FORMULA_TYPE :: "string \<Rightarrow> string" where
  "UNKNOWN_FORMULA_TYPE type = ''Unknown formula type: '' @ type"

text \<open>
  \<^verbatim>\<open>TableRenderInfo\<close> (its fields carry the prefix \<open>ti_\<close>). The \<^verbatim>\<open>Map\<close> from field names
  to column letters is an association list: \<^verbatim>\<open>set\<close> puts a binding in front, \<^verbatim>\<open>get\<close> reads
  the first binding of a key.
\<close>

record tableRenderInfo =
  ti_startRow :: int
  ti_endRow :: int
  ti_path :: string
  ti_fieldColumnMap :: "(string \<times> string) list"

text \<open>Truthiness of an optional string: neither \<^verbatim>\<open>undefined\<close> nor empty.\<close>

fun truthyStr :: "string option \<Rightarrow> bool" where
  "truthyStr None = False"
| "truthyStr (Some s) = (s \<noteq> [])"

text \<open>The number a data field contributes to a fallback computation; \<open>NaN\<close> is dropped.\<close>

definition coerceField :: "string \<Rightarrow> jsval \<Rightarrow> jsnum" where
  "coerceField fieldName item =
     (case lodash_get item fieldName of
        JNum n \<Rightarrow> n
      | JStr s \<Rightarrow> (if trim s \<noteq> [] \<and> \<not> isNaN (Number_of_string s) then Number_of_string s else NaN)
      | _ \<Rightarrow> NaN)"

definition formulaObject :: "string \<Rightarrow> jsval" where
  "formulaObject f = JObj [(''formula'', JStr f)]"

text \<open>\<^verbatim>\<open>tableInfo && tableInfo.startRow > 0 && tableInfo.endRow > 0\<close>\<close>

fun validTableInfo :: "tableRenderInfo option \<Rightarrow> bool" where
  "validTableInfo None = False"
| "validTableInfo (Some ti) = (ti_startRow ti > 0 \<and> ti_endRow ti > 0)"

definition renderFormula ::
  "string \<Rightarrow> string option \<Rightarrow> string option \<Rightarrow> string option \<Rightarrow>
   tableRenderInfo option \<Rightarrow> jsval \<Rightarrow> jsval" where
  "renderFormula formulaType columnOrField fieldName arrayPath tableInfo data =
     (if validTableInfo tableInfo then
        (let ti = the tableInfo;
             lookedUp = \<not> truthyStr columnOrField \<and> truthyStr fieldName;
             column = (if lookedUp then map_of (ti_fieldColumnMap ti) (the fieldName)
                       else columnOrField)
         in if lookedUp \<and> \<not> truthyStr column then
              JStr (''#ERROR: '' @ FIELD_NOT_FOUND (the fieldName))
            else if \<not> truthyStr column then
              JStr (''#ERROR: '' @ NO_COLUMN_SPECIFIED)
            else
              formulaObject (formulaType @ ''('' @ the column @ showInt (ti_startRow ti) @ '':''
                               @ the column @ showInt (ti_endRow ti) @ '')''))
      else if \<not> truthyStr arrayPath \<or> \<not> truthyStr fieldName then
        JStr (''#ERROR: '' @ NO_TABLE_OR_PATH)
      else
        (case lodash_get data (the arrayPath) of
           JArr arr \<Rightarrow>
             (if arr = [] then JNum (Fin 0)
              else
                (let values = filter (\<lambda>v. \<not> isNaN v) (map (coerceField (the fieldName)) arr)
                 in if length values = 0 then JNum (Fin 0)
                    else if formulaType = ''SUM'' then JNum (lodash_sum values)
                    else if formulaType = ''AVERAGE'' then JNum (lodash_mean values)
                    else if formulaType = ''COUNT'' then JNum (Fin (of_nat (length values)))
                    else if formulaType = ''MIN'' then
                      JNum (case lodash_min values of Some m \<Rightarrow> m | None \<Rightarrow> Fin 0)
                    else if formulaType = ''MAX'' then
                      JNum (case lodash_max values of Some m \<Rightarrow> m | None \<Rightarrow> Fin 0)
                    else JStr (''#ERROR: '' @ UNKNOWN_FORMULA_TYPE formulaType)))
         | _ \<Rightarrow> JNum (Fin 0)))"

text \<open>The data of the specification's scenario: \<^verbatim>\<open>{items: [{price: 10}, {price: 20}, {price: 30}]}\<close>.\<close>

definition threeItems :: jsval where
  "threeItems = JObj [(''items'', JArr [JObj [(''price'', JNum (Fin 10))],
                                         JObj [(''price'', JNum (Fin 20))],
                                         JObj [(''price'', JNum (Fin 30))]])]"

section \<open>Conversions to strings\<close>

text \<open>
  What the engine takes from its host and the model cannot compute: \<^verbatim>\<open>Date.parse\<close> (it depends
  on the engine and on the time zone), the two string forms of a \<^verbatim>\<open>Date\<close>, and the decimal
  form of a double that is not an integer of magnitude at most \<open>2^53\<close> (such an integer is
  printed with all its digits). They are parameters of the model.
\<close>

record host =
  Date_parse :: "string \<Rightarrow> jsnum"
  Date_toString :: "jsnum \<Rightarrow> string"
  Date_toISOString :: "jsnum \<Rightarrow> string"
  Number_toString :: "rat \<Rightarrow> string"

text \<open>
  A host for closed examples, none of which depends on it: no string parses as a date and
  the string forms are fixed texts.
\<close>

definition sampleHost :: host where
  "sampleHost =
     \<lparr>Date_parse = (\<lambda>s. NaN), Date_toString = (\<lambda>t. ''Invalid Date''),
      Date_toISOString = (\<lambda>t. []), Number_toString = (\<lambda>r. [])\<rparr>"

definition numToString :: "host \<Rightarrow> jsnum \<Rightarrow> string" where
  "numToString h n =
     (case n of
        NaN \<Rightarrow> ''NaN''
      | PosInf \<Rightarrow> ''Infinity''
      | NegInf \<Rightarrow> ''-Infinity''
      | Fin r \<Rightarrow>
          (if r = of_int \<lfloor>r\<rfloor> \<and> \<bar>r\<bar> \<le> 2 ^ 53 then showInt \<lfloor>r\<rfloor> else Number_toString h r))"

text \<open>\<^verbatim>\<open>Array.prototype.join\<close> on an array of strings.\<close>

fun joinWith :: "string \<Rightarrow> string list \<Rightarrow> string" where
  "joinWith sep [] = []"
| "joinWith sep [x] = x"
| "joinWith sep (x # y # ys) = x @ sep @ joinWith sep (y # ys)"

text \<open>\<^verbatim>\<open>String(value)\<close>. An array is joined with commas, a plain object is \<^verbatim>\<open>[object Object]\<close>.\<close>

fun toString :: "host \<Rightarrow> jsval \<Rightarrow> string"
  and toStringElems :: "host \<Rightarrow> jsval list \<Rightarrow> string list" where
  "toString h JUndefined = ''undefined''"
| "toString h JNull = ''null''"
| "toString h (JBool b) = (if b then ''true'' else ''false'')"
| "toString h (JNum n) = numToString h n"
| "toString h (JBigInt i) = showInt i"
| "toString h (JStr s) = s"
| "toString h (JDate t) = Date_toString h t"
| "toString h (JArr xs) = joinWith '','' (toStringElems h xs)"
| "toString h (JObj kvs) = ''[object Object]''"
| "toStringElems h [] = []"
| "toStringElems h (x # xs) =
     (if x = JUndefined \<or> x = JNull then [] else toString h x) # toStringElems h xs"

text \<open>
  \<^verbatim>\<open>JSON.stringify(value)\<close>: a string, \<^verbatim>\<open>undefined\<close> (\<open>None\<close>), or a \<^verbatim>\<open>TypeError\<close> when a
  \<^verbatim>\<open>BigInt\<close> is reached.
\<close>

definition hexDigit :: "nat \<Rightarrow> char" where
  "hexDigit n = (if n < 10 then char_of (48 + n) else char_of (87 + n))"

definition quoteJSONChar :: "char \<Rightarrow> string" where
  "quoteJSONChar c =
     (let n = (of_char c :: nat)
      in if n = 8 then [CHR 0x5C, CHR ''b'']
         else if n = 9 then [CHR 0x5C, CHR ''t'']
         else if n = 10 then [CHR 0x5C, CHR ''n'']
         else if n = 12 then [CHR 0x5C, CHR ''f'']
         else if n = 13 then [CHR 0x5C, CHR ''r'']
         else if n = 34 then [CHR 0x5C, CHR 0x22]
         else if n = 92 then [CHR 0x5C, CHR 0x5C]
         else if n < 32 then
           [CHR 0x5C, CHR ''u'', CHR ''0'', CHR ''0'', hexDigit (n div 16), hexDigit (n mod 16)]
         else [c])"

definition quoteJSONString :: "string \<Rightarrow> string" where
  "quoteJSONString s = [CHR 0x22] @ concat (map quoteJSONChar s) @ [CHR 0x22]"

fun JSON_serialize :: "host \<Rightarrow> jsval \<Rightarrow> error + string option"
  and JSON_serializeElems :: "host \<Rightarrow> jsval list \<Rightarrow> error + string list"
  and JSON_serializeProps :: "host \<Rightarrow> (string \<times> jsval) list \<Rightarrow> error + string list" where
  "JSON_serialize h JUndefined = Inr None"
| "JSON_serialize h JNull = Inr (Some ''null'')"
| "JSON_serialize h (JBool b) = Inr (Some (if b then ''true'' else ''false''))"
| "JSON_serialize h (JNum n) =
     Inr (Some (case n of Fin r \<Rightarrow> numToString h n | _ \<Rightarrow> ''null''))"
| "JSON_serialize h (JBigInt i) = Inl (TypeError ''Do not know how to serialize a BigInt'')"
| "JSON_serialize h (JStr s) = Inr (Some (quoteJSONString s))"
| "JSON_serialize h (JDate t) =
     Inr (Some (case t of Fin r \<Rightarrow> quoteJSONString (Date_toISOString h t) | _ \<Rightarrow> ''null''))"
| "JSON_serialize h (JArr xs) =
     (case JSON_serializeElems h xs of
        Inl e \<Rightarrow> Inl e
      | Inr parts \<Rightarrow> Inr (Some (''['' @ joinWith '','' parts @ '']'')))"
| "JSON_serialize h (JObj kvs) =
     (case JSON_serializeProps h kvs of
        Inl e \<Rightarrow> Inl e
      | Inr parts \<Rightarrow> Inr (Some (''{'' @ joinWith '','' parts @ ''}'')))"
| "JSON_serializeElems h [] = Inr []"
| "JSON_serializeElems h (x # xs) =
     (case JSON_serialize h x of
        Inl e \<Rightarrow> Inl e
      | Inr p \<Rightarrow>
          (case JSON_serializeElems h xs of
             Inl e \<Rightarrow> Inl e
           | Inr ps \<Rightarrow> Inr ((case p of None \<Rightarrow> ''null'' | Some t \<Rightarrow> t) # ps)))"
| "JSON_serializeProps h [] = Inr []"
| "JSON_serializeProps h ((k, v) # kvs) =
     (case JSON_serialize h v of
        Inl e \<Rightarrow> Inl e
      | Inr p \<Rightarrow>
          (case JSON_serializeProps h kvs of
             Inl e \<Rightarrow> Inl e
           | Inr ps \<Rightarrow>
               Inr (case p of None \<Rightarrow> ps | Some t \<Rightarrow> (quoteJSONString k @ '':'' @ t) # ps)))"

definition JSON_stringify :: "host \<Rightarrow> jsval \<Rightarrow> error + jsval" where
  "JSON_stringify h v =
     (case JSON_serialize h v of
        Inl e \<Rightarrow> Inl e
      | Inr None \<Rightarrow> Inr JUndefined
      | Inr (Some s) \<Rightarrow> Inr (JStr s))"

section \<open>Value rendering\<close>

text \<open>
  The strict ISO-8601 pattern of \<^verbatim>\<open>renderValue\<close>:
  \<^verbatim>\<open>/^\d{4}-\d{2}-\d{2}(T\d{2}:\d{2}(:\d{2})?(\.\d+)?(Z|[+-]\d{2}:?\d{2})?)?$/\<close>.
  Each matcher consumes a prefix and returns the rest.
\<close>

fun isoDatePart :: "string \<Rightarrow> string option" where
  "isoDatePart (y1 # y2 # y3 # y4 # h1 # m1 # m2 # h2 # d1 # d2 # r) =
     (if isDigit y1 \<and> isDigit y2 \<and> isDigit y3 \<and> isDigit y4 \<and> h1 = CHR ''-''
         \<and> isDigit m1 \<and> isDigit m2 \<and> h2 = CHR ''-'' \<and> isDigit d1 \<and> isDigit d2
      then Some r else None)"
| "isoDatePart _ = None"

fun isoHourMinute :: "string \<Rightarrow> string option" where
  "isoHourMinute (t # h1 # h2 # c # m1 # m2 # r) =
     (if t = CHR ''T'' \<and> isDigit h1 \<and> isDigit h2 \<and> c = CHR '':'' \<and> isDigit m1 \<and> isDigit m2
      then Some r else None)"
| "isoHourMinute _ = None"

fun isoSeconds :: "string \<Rightarrow> string" where
  "isoSeconds (c # s1 # s2 # r) =
     (if c = CHR '':'' \<and> isDigit s1 \<and> isDigit s2 then r else c # s1 # s2 # r)"
| "isoSeconds r = r"

fun isoFraction :: "string \<Rightarrow> string" where
  "isoFraction (c # d # r) =
     (if c = CHR ''.'' \<and> isDigit d then dropWhile isDigit r else c # d # r)"
| "isoFraction r = r"

fun isoZone :: "string \<Rightarrow> string" where
  "isoZone [] = []"
| "isoZone (c # r) =
     (if c = CHR ''Z'' then r
      else if c = CHR ''+'' \<or> c = CHR ''-'' then
        (case r of
           h1 # h2 # r1 \<Rightarrow>
             (if isDigit h1 \<and> isDigit h2 then
                (case (case r1 of [] \<Rightarrow> [] | k # r2 \<Rightarrow> if k = CHR '':'' then r2 else r1) of
                   m1 # m2 # r3 \<Rightarrow> (if isDigit m1 \<and> isDigit m2 then r3 else c # r)
                 | _ \<Rightarrow> c # r)
              else c # r)
         | _ \<Rightarrow> c # r)
      else c # r)"

definition isoDateMatch :: "string \<Rightarrow> bool" where
  "isoDateMatch s =
     (case isoDatePart s of
        None \<Rightarrow> False
      | Some r \<Rightarrow>
          (r = [] \<or>
           (case isoHourMinute r of
              None \<Rightarrow> False
            | Some r1 \<Rightarrow> isoZone (isoFraction (isoSeconds r1)) = [])))"

text \<open>\<^verbatim>\<open>RenderOptions\<close>; an absent \<^verbatim>\<open>autoParseNumbers\<close> is \<open>False\<close>.\<close>

record renderOptions =
  autoParseNumbers :: bool

definition renderValue :: "host \<Rightarrow> string \<Rightarrow> jsval list \<Rightarrow> renderOptions \<Rightarrow> error + jsval" where
  "renderValue h path scopes options =
     (let val = resolve path scopes
      in case val of
           JUndefined \<Rightarrow> Inr (JStr [])
         | JNull \<Rightarrow> Inr (JStr [])
         | JDate t \<Rightarrow> Inr val
         | JNum n \<Rightarrow> Inr val
         | JStr s \<Rightarrow>
             (let trimmed = trim s
              in if trimmed = [] then Inr val
                 else if autoParseNumbers options \<and> trimmed \<noteq> []
                         \<and> \<not> isNaN (Number_of_string trimmed)
                   then Inr (JNum (Number_of_string trimmed))
                 else if isoDateMatch trimmed \<and> \<not> isNaN (Date_parse h trimmed)
                   then Inr (JDate (Date_parse h trimmed))
                 else Inr val)
         | JBool b \<Rightarrow> Inr val
         | _ \<Rightarrow> JSON_stringify h val)"

section \<open>Placeholder detection\<close>

text \<open>
  The regular expressions of \<^verbatim>\<open>PLACEHOLDER_REGEX\<close> are written out as matchers. Each returns
  the captured groups of the first match the backtracking engine finds, or \<open>None\<close>.
\<close>

fun stripPrefix :: "string \<Rightarrow> string \<Rightarrow> string option" where
  "stripPrefix [] s = Some s"
| "stripPrefix (p # ps) [] = None"
| "stripPrefix (p # ps) (c # cs) = (if p = c then stripPrefix ps cs else None)"

text \<open>The same, ignoring the case of ASCII letters (the flag \<^verbatim>\<open>i\<close>).\<close>

fun stripPrefixCI :: "string \<Rightarrow> string \<Rightarrow> string option" where
  "stripPrefixCI [] s = Some s"
| "stripPrefixCI (p # ps) [] = None"
| "stripPrefixCI (p # ps) (c # cs) =
     (if toUpperChar p = toUpperChar c then stripPrefixCI ps cs else None)"

definition stripSuffix :: "string \<Rightarrow> string \<Rightarrow> string option" where
  "stripSuffix suf s =
     (if length suf \<le> length s \<and> drop (length s - length suf) s = suf
      then Some (take (length s - length suf) s) else None)"

definition isLetter :: "char \<Rightarrow> bool" where
  "isLetter c = ((of_char c :: nat) \<in> {65..90} \<or> (of_char c :: nat) \<in> {97..122})"

text \<open>\<^verbatim>\<open>\w\<close>\<close>

definition isWordChar :: "char \<Rightarrow> bool" where
  "isWordChar c = (isLetter c \<or> isDigit c \<or> c = CHR ''_'')"

text \<open>
  \<^verbatim>\<open>TABLE: /^\{\{#table\s+(.+?)\}\}$/\<close>. The group is what lies between the white space after
  \<^verbatim>\<open>#table\<close> and the closing braces at the end; when only white space lies there, the engine
  backtracks and the group is its last character.
\<close>

definition matchTable :: "string \<Rightarrow> string option" where
  "matchTable t =
     (case stripPrefix ''{{#table'' t of
        None \<Rightarrow> None
      | Some r \<Rightarrow>
          (case stripSuffix ''}}'' r of
             None \<Rightarrow> None
           | Some m \<Rightarrow>
               (if m = [] \<or> \<not> isSpace (hd m) then None
                else
                  (let g = dropWhile isSpace m
                   in if g \<noteq> [] then (if list_ex isLineTerminator g then None else Some g)
                      else if 2 \<le> length m \<and> \<not> isLineTerminator (last m) then Some [last m]
                      else None))))"

text \<open>
  The body of a formula placeholder,
  \<^verbatim>\<open>#formula\s+(SUM|AVERAGE|COUNT|MIN|MAX)\s+([A-Za-z_][\w.]*)\<close> with the flag \<^verbatim>\<open>i\<close>, anchored at
  both ends: the groups are the type as written and the target.
\<close>

fun matchFormulaType :: "string list \<Rightarrow> string \<Rightarrow> (string \<times> string) option" where
  "matchFormulaType [] s = None"
| "matchFormulaType (ty # tys) s =
     (case stripPrefixCI ty s of
        Some r \<Rightarrow> Some (take (length ty) s, r)
      | None \<Rightarrow> matchFormulaType tys s)"

definition matchFormulaBody :: "string \<Rightarrow> (string \<times> string) option" where
  "matchFormulaBody e =
     (case stripPrefixCI ''#formula'' e of
        None \<Rightarrow> None
      | Some r1 \<Rightarrow>
          (if r1 = [] \<or> \<not> isSpace (hd r1) then None
           else
             (case matchFormulaType [''SUM'', ''AVERAGE'', ''COUNT'', ''MIN'', ''MAX'']
                     (dropWhile isSpace r1) of
                None \<Rightarrow> None
              | Some (ty, r3) \<Rightarrow>
                  (if r3 = [] \<or> \<not> isSpace (hd r3) then None
                   else
                     (let target = dropWhile isSpace r3
                      in if target \<noteq> [] \<and> (isLetter (hd target) \<or> hd target = CHR ''_'')
                            \<and> list_all (\<lambda>c. isWordChar c \<or> c = CHR ''.'') (tl target)
                         then Some (ty, target) else None)))))"

text \<open>\<^verbatim>\<open>FORMULA\<close>: the body between \<^verbatim>\<open>{{\<close> and \<^verbatim>\<open>}}\<close>.\<close>

definition matchFormula :: "string \<Rightarrow> (string \<times> string) option" where
  "matchFormula t =
     (case stripPrefix ''{{'' t of
        None \<Rightarrow> None
      | Some r \<Rightarrow> (case stripSuffix ''}}'' r of None \<Rightarrow> None | Some e \<Rightarrow> matchFormulaBody e))"

text \<open>
  The tail of a join expression, \<^verbatim>\<open>\s*\|\s*join\(["'](.+?)["']\)\<close> up to the end: the group is
  the separator.
\<close>

definition isQuote :: "char \<Rightarrow> bool" where
  "isQuote c = (c = CHR 0x22 \<or> c = CHR 0x27)"

definition matchJoinTail :: "string \<Rightarrow> string option" where
  "matchJoinTail s =
     (case stripPrefix ''|'' (dropWhile isSpace s) of
        None \<Rightarrow> None
      | Some r1 \<Rightarrow>
          (case stripPrefix ''join('' (dropWhile isSpace r1) of
             None \<Rightarrow> None
           | Some r2 \<Rightarrow>
               (case r2 of
                  [] \<Rightarrow> None
                | q # r3 \<Rightarrow>
                    (if isQuote q \<and> 3 \<le> length r3 \<and> last r3 = CHR '')''
                        \<and> isQuote (last (butlast r3))
                        \<and> \<not> list_ex isLineTerminator (butlast (butlast r3))
                     then Some (butlast (butlast r3)) else None))))"

text \<open>
  The inline join pattern \<^verbatim>\<open>/^(.+?)\s*\|\s*join\(["'](.+?)["']\)$/\<close>: the lazy first group is
  the shortest non-empty prefix after which the tail matches.
\<close>

fun matchJoinLoop :: "string \<Rightarrow> string \<Rightarrow> (string \<times> string) option" where
  "matchJoinLoop g [] = None"
| "matchJoinLoop g (c # r) =
     (if g \<noteq> [] \<and> matchJoinTail (c # r) \<noteq> None then Some (g, the (matchJoinTail (c # r)))
      else if isLineTerminator c then None
      else matchJoinLoop (g @ [c]) r)"

definition matchJoinBody :: "string \<Rightarrow> (string \<times> string) option" where
  "matchJoinBody e = matchJoinLoop [] e"

text \<open>\<^verbatim>\<open>JOIN\<close>: the inline pattern between \<^verbatim>\<open>{{\<close> and \<^verbatim>\<open>}}\<close>.\<close>

definition matchJoin :: "string \<Rightarrow> (string \<times> string) option" where
  "matchJoin t =
     (case stripPrefix ''{{'' t of
        None \<Rightarrow> None
      | Some r \<Rightarrow> (case stripSuffix ''}}'' r of None \<Rightarrow> None | Some e \<Rightarrow> matchJoinBody e))"

text \<open>\<^verbatim>\<open>VALUE: /^\{\{([^}]+)\}\}$/\<close>\<close>

definition matchValue :: "string \<Rightarrow> string option" where
  "matchValue t =
     (case stripPrefix ''{{'' t of
        None \<Rightarrow> None
      | Some r \<Rightarrow>
          (case stripSuffix ''}}'' r of
             None \<Rightarrow> None
           | Some g \<Rightarrow> (if g \<noteq> [] \<and> CHR ''}'' \<notin> set g then Some g else None)))"

text \<open>\<^verbatim>\<open>COLUMN_LETTER: /^[A-Z]+$/i\<close>\<close>

definition matchColumnLetter :: "string \<Rightarrow> bool" where
  "matchColumnLetter s = (s \<noteq> [] \<and> list_all isLetter s)"

text \<open>\<^verbatim>\<open>target.lastIndexOf('.')\<close>: the index of the last dot, or \<open>-1\<close>.\<close>

definition lastIndexOf :: "char \<Rightarrow> string \<Rightarrow> int" where
  "lastIndexOf c s =
     (if c \<in> set s then int (length s) - 1 - int (length (takeWhile (\<lambda>x. x \<noteq> c) (rev s)))
      else - 1)"

text \<open>
  \<^verbatim>\<open>Placeholder\<close>. The fields of the interface carry the prefix \<open>ph_\<close>; an absent optional
  field is \<open>None\<close>.
\<close>

datatype placeholderType = PValue | PTable | PJoin | PFormula

record placeholder =
  ph_type :: placeholderType
  ph_path :: string
  ph_separator :: "string option"
  ph_formulaType :: "string option"
  ph_column :: "string option"
  ph_arrayPath :: "string option"
  ph_fieldName :: "string option"

definition detectPlaceholder :: "jsval \<Rightarrow> placeholder option" where
  "detectPlaceholder cellValue =
     (case cellValue of
        JStr s \<Rightarrow>
          (let trimmed = trim s
           in case matchTable trimmed of
                Some g \<Rightarrow>
                  Some \<lparr>ph_type = PTable, ph_path = trim g, ph_separator = None,
                        ph_formulaType = None, ph_column = None, ph_arrayPath = None,
                        ph_fieldName = None\<rparr>
              | None \<Rightarrow>
                  (case matchFormula trimmed of
                     Some (ty, target) \<Rightarrow>
                       (if matchColumnLetter target \<and> length target \<le> 3 then
                          Some \<lparr>ph_type = PFormula, ph_path = [], ph_separator = None,
                                ph_formulaType = Some (toUpperCase ty),
                                ph_column = Some (toUpperCase target),
                                ph_arrayPath = None, ph_fieldName = None\<rparr>
                        else
                          (let lastDotIndex = lastIndexOf (CHR ''.'') target;
                               arrayPath = (if lastDotIndex > 0 then take (nat lastDotIndex) target
                                            else []);
                               fieldName = (if lastDotIndex > 0
                                            then drop (nat (lastDotIndex + 1)) target
                                            else target)
                           in Some \<lparr>ph_type = PFormula, ph_path = target, ph_separator = None,
                                    ph_formulaType = Some (toUpperCase ty), ph_column = None,
                                    ph_arrayPath = Some arrayPath,
                                    ph_fieldName = Some fieldName\<rparr>))
                   | None \<Rightarrow>
                       (case matchJoin trimmed of
                          Some (g, sep) \<Rightarrow>
                            Some \<lparr>ph_type = PJoin, ph_path = trim g, ph_separator = Some sep,
                                  ph_formulaType = None, ph_column = None,
                                  ph_arrayPath = None, ph_fieldName = None\<rparr>
                        | None \<Rightarrow>
                            (case matchValue trimmed of
                               Some g \<Rightarrow>
                                 Some \<lparr>ph_type = PValue, ph_path = trim g,
                                       ph_separator = None, ph_formulaType = None,
                                       ph_column = None, ph_arrayPath = None,
                                       ph_fieldName = None\<rparr>
                             | None \<Rightarrow> None))))
      | _ \<Rightarrow> None)"

section \<open>Cell rendering\<close>

definition isEmptyArr :: "jsval \<Rightarrow> bool" where
  "isEmptyArr v = (v = JArr [])"

text \<open>\<^verbatim>\<open>renderJoin(path, separator, scopes)\<close>\<close>

definition renderJoin :: "host \<Rightarrow> string \<Rightarrow> string \<Rightarrow> jsval list \<Rightarrow> string" where
  "renderJoin h path separator scopes =
     (let lastDotIndex = lastIndexOf (CHR ''.'') path;
          arrayPath = take (nat lastDotIndex) path;
          propertyName = drop (nat (lastDotIndex + 1)) path
      in case (if lastDotIndex > 0 then resolve arrayPath scopes else JUndefined) of
           JArr (x # xs) \<Rightarrow>
             joinWith separator
               (filter (\<lambda>v. v \<noteq> [])
                  (map (\<lambda>item. let val = lodash_get item propertyName
                                in if isNil val then [] else toString h val)
                     (x # xs)))
         | _ \<Rightarrow>
             (case resolve path scopes of
                JArr (y # ys) \<Rightarrow>
                  joinWith separator
                    (filter (\<lambda>v. v \<noteq> [] \<and> v \<noteq> ''[object Object]'')
                       (map (\<lambda>item. if isNil item then [] else toString h item) (y # ys)))
              | _ \<Rightarrow> []))"

text \<open>\<^verbatim>\<open>calculateFormulaValue(formulaType, arrayPath, fieldName, scopes)\<close>\<close>

definition calculateFormulaValue ::
  "host \<Rightarrow> string \<Rightarrow> string \<Rightarrow> string \<Rightarrow> jsval list \<Rightarrow> string" where
  "calculateFormulaValue h formulaType arrayPath fieldName scopes =
     (case resolve arrayPath scopes of
        JArr (x # xs) \<Rightarrow>
          (let values = filter (\<lambda>v. \<not> isNaN v) (map (coerceField fieldName) (x # xs));
               ty = toUpperCase formulaType
           in if length values = 0 then ''0''
              else if ty = ''SUM'' then numToString h (lodash_sum values)
              else if ty = ''AVERAGE'' then numToString h (lodash_mean values)
              else if ty = ''COUNT'' then numToString h (Fin (of_nat (length values)))
              else if ty = ''MIN'' then
                numToString h (case lodash_min values of Some m \<Rightarrow> m | None \<Rightarrow> Fin 0)
              else if ty = ''MAX'' then
                numToString h (case lodash_max values of Some m \<Rightarrow> m | None \<Rightarrow> Fin 0)
              else ''#ERROR: Unknown formula type: '' @ formulaType)
      | _ \<Rightarrow> ''0'')"

text \<open>The callback of \<^verbatim>\<open>renderInterpolatedString\<close>, applied to the content of one \<^verbatim>\<open>{{...}}\<close>.\<close>

definition renderInlineExpr :: "host \<Rightarrow> jsval list \<Rightarrow> string \<Rightarrow> string" where
  "renderInlineExpr h scopes exprContent =
     (let expr = trim exprContent
      in case matchFormulaBody expr of
           Some (formulaType, target) \<Rightarrow>
             (let lastDotIndex = lastIndexOf (CHR ''.'') target
              in if lastDotIndex > 0 then
                   calculateFormulaValue h formulaType (take (nat lastDotIndex) target)
                     (drop (nat (lastDotIndex + 1)) target) scopes
                 else ''#ERROR: Invalid formula path: '' @ target)
         | None \<Rightarrow>
             (case matchJoinBody expr of
                Some (g, separator) \<Rightarrow> renderJoin h (trim g) separator scopes
              | None \<Rightarrow>
                  (let val = resolve expr scopes
                   in if isNil val then [] else toString h val)))"

text \<open>
  \<^verbatim>\<open>template.replace(INLINE, callback)\<close> with \<^verbatim>\<open>INLINE: /\{\{\s*([^}]+?)\s*\}\}/g\<close>. A match starts
  at \<^verbatim>\<open>{{\<close>, runs over at least one character other than \<^verbatim>\<open>}\<close> and ends with \<^verbatim>\<open>}}\<close>; the
  group is that run without the white space around it (a run of white space only leaves
  its last character). The scan resumes after a match, and one character further where
  none starts.
\<close>

definition inlineGroup :: "string \<Rightarrow> string" where
  "inlineGroup c =
     (let g = rev (dropWhile isSpace (rev (dropWhile isSpace c)))
      in if g = [] then [last c] else g)"

function replaceInline :: "(string \<Rightarrow> string) \<Rightarrow> string \<Rightarrow> string" where
  "replaceInline f [] = []"
| "replaceInline f (x # xs) =
     (case stripPrefix ''{{'' (x # xs) of
        None \<Rightarrow> x # replaceInline f xs
      | Some r \<Rightarrow>
          (let c = takeWhile (\<lambda>k. k \<noteq> CHR ''}'') r;
               rest = dropWhile (\<lambda>k. k \<noteq> CHR ''}'') r
           in if c \<noteq> [] \<and> stripPrefix ''}}'' rest \<noteq> None
              then f (inlineGroup c) @ replaceInline f (drop 2 rest)
              else x # replaceInline f xs))"
  by pat_completeness auto
termination
proof (relation "measure (\<lambda>(f, s). length s)")
  show "wf (measure (\<lambda>(f, s). length s))" by simp
next
  fix f :: "string \<Rightarrow> string" and x :: char and xs :: string
  show "((f, xs), f, x # xs) \<in> measure (\<lambda>(f, s). length s)" by simp
next
  fix f :: "string \<Rightarrow> string" and x :: char and xs r c rest :: string
  assume r: "stripPrefix ''{{'' (x # xs) = Some r"
    and "rest = dropWhile (\<lambda>k. k \<noteq> CHR ''}'') r"
  then have "length rest \<le> length r" by (simp add: length_dropWhile_le)
  moreover from r have "length r < length (x # xs)"
    by (cases xs) (auto split: if_splits)
  ultimately show "((f, drop 2 rest), f, x # xs) \<in> measure (\<lambda>(f, s). length s)" by simp
next
  fix f :: "string \<Rightarrow> string" and x :: char and xs :: string
  show "((f, xs), f, x # xs) \<in> measure (\<lambda>(f, s). length s)" by simp
qed

definition renderInterpolatedString :: "host \<Rightarrow> string \<Rightarrow> jsval list \<Rightarrow> string" where
  "renderInterpolatedString h template scopes = replaceInline (renderInlineExpr h scopes) template"

text \<open>\<^verbatim>\<open>String.prototype.includes\<close>\<close>

fun includesStr :: "string \<Rightarrow> string \<Rightarrow> bool" where
  "includesStr sub [] = (sub = [])"
| "includesStr sub (c # cs) = (stripPrefix sub (c # cs) \<noteq> None \<or> includesStr sub cs)"

text \<open>
  \<^verbatim>\<open>text.includes(sub)\<close> on the \<^verbatim>\<open>text\<close> of a rich-text fragment: a string or an array has
  the method, on anything else the call is a \<^verbatim>\<open>TypeError\<close>.
\<close>

definition textIncludes :: "jsval \<Rightarrow> string \<Rightarrow> error + bool" where
  "textIncludes text sub =
     (case text of
        JStr s \<Rightarrow> Inr (includesStr sub s)
      | JArr xs \<Rightarrow> Inr (JStr sub \<in> set xs)
      | _ \<Rightarrow> Inl (TypeError ''text.includes is not a function''))"

text \<open>
  The loop of \<^verbatim>\<open>handleRichText\<close> over the fragments, with its variables \<^verbatim>\<open>result\<close>,
  \<^verbatim>\<open>buffer\<close> and \<^verbatim>\<open>inPlaceholder\<close>.
\<close>

fun handleRichText_loop ::
  "host \<Rightarrow> jsval list \<Rightarrow> jsval list \<Rightarrow> jsval list \<Rightarrow> jsval list \<Rightarrow> bool \<Rightarrow>
   error + (jsval list \<times> jsval list)" where
  "handleRichText_loop h scopes [] result buffer inPlaceholder = Inr (result, buffer)"
| "handleRichText_loop h scopes (fragment # rest) result buffer inPlaceholder =
     (if isNil fragment then Inl (TypeError ''Cannot destructure property text'')
      else
        (let text = getProp fragment ''text''
         in case textIncludes text ''{{'' of
              Inl e \<Rightarrow> Inl e
            | Inr opens \<Rightarrow>
                (if opens \<or> inPlaceholder then
                   (let buffer' = buffer @ [fragment]
                    in case textIncludes text ''}}'' of
                         Inl e \<Rightarrow> Inl e
                       | Inr closes \<Rightarrow>
                           (if closes then
                              (let combinedText =
                                     joinWith []
                                       (map (\<lambda>f. let t = getProp f ''text''
                                                  in if isNil t then [] else toString h t)
                                          buffer');
                                   rendered = renderInterpolatedString h combinedText scopes
                               in handleRichText_loop h scopes rest
                                    (result @ [JObj [(''text'', JStr rendered),
                                                     (''font'', getProp (hd buffer') ''font'')]])
                                    [] False)
                            else handleRichText_loop h scopes rest result buffer' True))
                 else handleRichText_loop h scopes rest (result @ [fragment]) buffer
                        inPlaceholder)))"

text \<open>Truthiness of a value (\<^verbatim>\<open>!cellValue\<close> is its negation).\<close>

fun truthy :: "jsval \<Rightarrow> bool" where
  "truthy JUndefined = False"
| "truthy JNull = False"
| "truthy (JBool b) = b"
| "truthy (JNum n) = (n \<noteq> NaN \<and> n \<noteq> Fin 0)"
| "truthy (JBigInt i) = (i \<noteq> 0)"
| "truthy (JStr s) = (s \<noteq> [])"
| "truthy _ = True"

definition handleRichText :: "host \<Rightarrow> jsval \<Rightarrow> jsval list \<Rightarrow> error + jsval" where
  "handleRichText h cellValue scopes =
     (if \<not> truthy cellValue then Inr cellValue
      else
        (case getProp cellValue ''richText'' of
           JArr fragments \<Rightarrow>
             (case handleRichText_loop h scopes fragments [] [] False of
                Inl e \<Rightarrow> Inl e
              | Inr (result, buffer) \<Rightarrow> Inr (JObj [(''richText'', JArr (result @ buffer))]))
         | _ \<Rightarrow> Inr cellValue))"

text \<open>\<^verbatim>\<open>_.isObject\<close>\<close>

fun isObject :: "jsval \<Rightarrow> bool" where
  "isObject (JObj _) = True"
| "isObject (JArr _) = True"
| "isObject (JDate _) = True"
| "isObject _ = False"

text \<open>
  \<^verbatim>\<open>renderCell(cellValue, scopes, options)\<close>. The \<^verbatim>\<open>switch\<close> has no case for a formula
  placeholder, which falls through to the checks below it like a cell without placeholder.
\<close>

definition renderCellRest :: "host \<Rightarrow> jsval \<Rightarrow> jsval list \<Rightarrow> error + jsval" where
  "renderCellRest h cellValue scopes =
     (case cellValue of
        JStr s \<Rightarrow>
          (if includesStr ''{{'' s then Inr (JStr (renderInterpolatedString h s scopes))
           else Inr cellValue)
      | _ \<Rightarrow>
          (if isObject cellValue \<and> hasProp cellValue ''richText''
           then handleRichText h cellValue scopes
           else Inr cellValue))"

definition renderCell :: "host \<Rightarrow> jsval \<Rightarrow> jsval list \<Rightarrow> renderOptions \<Rightarrow> error + jsval" where
  "renderCell h cellValue scopes options =
     (case detectPlaceholder cellValue of
        None \<Rightarrow> renderCellRest h cellValue scopes
      | Some placeholder \<Rightarrow>
          (case ph_type placeholder of
             PValue \<Rightarrow> renderValue h (ph_path placeholder) scopes options
           | PJoin \<Rightarrow>
               Inr (JStr (renderJoin h (ph_path placeholder)
                            (case ph_separator placeholder of Some sep \<Rightarrow> sep | None \<Rightarrow> '','')
                            scopes))
           | PTable \<Rightarrow> Inr cellValue
           | PFormula \<Rightarrow> renderCellRest h cellValue scopes))"

section \<open>The worksheet\<close>

text \<open>
  The spreadsheet container is a library. The model keeps what the engine reads and writes
  through it: per row a dense list of cells (column \<open>c\<close> is element \<open>c - 1\<close>, an empty cell
  has the value \<^verbatim>\<open>null\<close>) with the row's hidden flag and height, the list of rows (row \<open>n\<close> is
  element \<open>n - 1\<close>), the merge ranges and the image anchors. A row or cell that is asked for
  and does not exist yet is blank. The fields of the records carry a prefix. A merged cell
  is a cell of its own here: the container's sharing of a merge's value is not modelled.
\<close>

record cell =
  c_value :: jsval
  c_style :: jsval
  c_numFmt :: "string option"

definition blankCell :: cell where
  "blankCell = \<lparr>c_value = JNull, c_style = JObj [], c_numFmt = None\<rparr>"

record row =
  r_cells :: "cell list"
  r_hidden :: bool
  r_height :: "jsnum option"

definition blankRow :: row where
  "blankRow = \<lparr>r_cells = [], r_hidden = False, r_height = None\<rparr>"

text \<open>An entry of \<^verbatim>\<open>model.merges\<close>: a range text such as \<^verbatim>\<open>A5:C5\<close> or a box.\<close>

datatype mergeRange = MergeText string | MergeBox (m_top: nat) (m_left: nat) (m_bottom: nat) (m_right: nat)

text \<open>An image: the rows of its range's corners, or the row of its position.\<close>

record image =
  img_range :: "(int option \<times> int option) option"
  img_position :: "int option"

record worksheet =
  ws_rows :: "row list"
  ws_merges :: "mergeRange list"
  ws_images :: "image list"
  ws_media :: "image list"

definition padTo :: "nat \<Rightarrow> 'a \<Rightarrow> 'a list \<Rightarrow> 'a list" where
  "padTo n x xs = xs @ replicate (n - length xs) x"

definition getCell :: "row \<Rightarrow> nat \<Rightarrow> cell" where
  "getCell r col = (if 1 \<le> col \<and> col \<le> length (r_cells r) then r_cells r ! (col - 1) else blankCell)"

definition setCell :: "row \<Rightarrow> nat \<Rightarrow> cell \<Rightarrow> row" where
  "setCell r col c = r\<lparr>r_cells := (padTo col blankCell (r_cells r))[col - 1 := c]\<rparr>"

definition cellCount :: "row \<Rightarrow> nat" where
  "cellCount r = length (r_cells r)"

definition getRow :: "worksheet \<Rightarrow> nat \<Rightarrow> row" where
  "getRow ws n = (if 1 \<le> n \<and> n \<le> length (ws_rows ws) then ws_rows ws ! (n - 1) else blankRow)"

definition setRow :: "worksheet \<Rightarrow> nat \<Rightarrow> row \<Rightarrow> worksheet" where
  "setRow ws n r = ws\<lparr>ws_rows := (padTo n blankRow (ws_rows ws))[n - 1 := r]\<rparr>"

text \<open>
  \<^verbatim>\<open>worksheet.insertRow(pos, [])\<close>: a blank row at the 1-based position \<open>pos\<close>, the rows from
  there on move down by one.
\<close>

definition insertRow :: "worksheet \<Rightarrow> nat \<Rightarrow> worksheet" where
  "insertRow ws pos =
     ws\<lparr>ws_rows := take (pos - 1) (padTo (pos - 1) blankRow (ws_rows ws)) @ [blankRow]
                     @ drop (pos - 1) (ws_rows ws)\<rparr>"

section \<open>Merge ranges\<close>

definition isUpper :: "char \<Rightarrow> bool" where
  "isUpper c = ((of_char c :: nat) \<in> {65..90})"

text \<open>\<^verbatim>\<open>s.match(/([A-Z]+)(\d+)/)\<close>: the first run of capitals followed by digits.\<close>

fun matchCellRef :: "string \<Rightarrow> (string \<times> string) option" where
  "matchCellRef [] = None"
| "matchCellRef (c # cs) =
     (let letters = takeWhile isUpper (c # cs);
          rest = dropWhile isUpper (c # cs)
      in if letters \<noteq> [] \<and> rest \<noteq> [] \<and> isDigit (hd rest)
         then Some (letters, takeWhile isDigit rest)
         else matchCellRef cs)"

text \<open>\<^verbatim>\<open>s.match(/[A-Z]+/i)\<close>: the first run of letters.\<close>

definition matchLetters :: "string \<Rightarrow> string option" where
  "matchLetters s =
     (let r = dropWhile (\<lambda>c. \<not> isLetter c) s
      in if r = [] then None else Some (takeWhile isLetter r))"

text \<open>
  The bounds \<open>(top, left, bottom, right)\<close> of a merge as \<^verbatim>\<open>getMergeInfo\<close> reads them: \<open>Inr None\<close>
  for a text whose halves do not match (the entry is skipped), a \<^verbatim>\<open>TypeError\<close> for a text
  without colon, whose second half is \<^verbatim>\<open>undefined\<close>.
\<close>

definition mergeBounds :: "mergeRange \<Rightarrow> error + (nat \<times> nat \<times> nat \<times> nat) option" where
  "mergeBounds merge =
     (case merge of
        MergeBox t l b r \<Rightarrow> Inr (Some (t, l, b, r))
      | MergeText s \<Rightarrow>
          (case splitOn (CHR '':'') s of
             start # end' # _ \<Rightarrow>
               (case (matchCellRef start, matchCellRef end') of
                  (Some (sl, sd), Some (el, ed)) \<Rightarrow>
                    Inr (Some (digitsVal sd, toIndex (columnLetterToNumber sl),
                               digitsVal ed, toIndex (columnLetterToNumber el)))
                | _ \<Rightarrow> Inr None)
           | _ \<Rightarrow> Inl (TypeError ''Cannot read properties of undefined (reading match)'')))"

text \<open>\<^verbatim>\<open>getMergeInfo\<close>: the master cell and the range text of the first merge holding the cell.\<close>

record mergeInfo =
  mi_masterRow :: nat
  mi_masterCol :: nat
  mi_range :: string

fun getMergeInfo_loop :: "mergeRange list \<Rightarrow> nat \<Rightarrow> nat \<Rightarrow> error + mergeInfo option" where
  "getMergeInfo_loop [] rowNumber colNumber = Inr None"
| "getMergeInfo_loop (merge # merges) rowNumber colNumber =
     (case mergeBounds merge of
        Inl e \<Rightarrow> Inl e
      | Inr None \<Rightarrow> getMergeInfo_loop merges rowNumber colNumber
      | Inr (Some (mtop, mleft, mbottom, mright)) \<Rightarrow>
          (if rowNumber \<ge> mtop \<and> rowNumber \<le> mbottom \<and> colNumber \<ge> mleft
              \<and> colNumber \<le> mright
           then Inr (Some \<lparr>mi_masterRow = mtop, mi_masterCol = mleft,
                            mi_range = columnNumberToLetter (Fin (of_nat mleft)) @ showNat mtop
                                       @ '':'' @ columnNumberToLetter (Fin (of_nat mright))
                                       @ showNat mbottom\<rparr>)
           else getMergeInfo_loop merges rowNumber colNumber))"

definition getMergeInfo :: "worksheet \<Rightarrow> nat \<Rightarrow> nat \<Rightarrow> error + mergeInfo option" where
  "getMergeInfo ws rowNumber colNumber = getMergeInfo_loop (ws_merges ws) rowNumber colNumber"

text \<open>\<^verbatim>\<open>MergePattern\<close>\<close>

record mergePattern =
  mp_startCol :: nat
  mp_endCol :: nat
  mp_spanCols :: int

text \<open>
  The loop of \<^verbatim>\<open>extractMergePatternsFromRow\<close> over the columns \<open>col, \<dots>, maxCol\<close>, with the
  patterns found and the columns already covered.
\<close>

function extractMergePatterns_loop ::
  "worksheet \<Rightarrow> nat \<Rightarrow> nat \<Rightarrow> nat \<Rightarrow> mergePattern list \<Rightarrow> nat set \<Rightarrow> error + mergePattern list"
  where
  "extractMergePatterns_loop ws rowNumber maxCol col patterns processedCols =
     (if col \<le> maxCol then
        (if col \<in> processedCols
         then extractMergePatterns_loop ws rowNumber maxCol (col + 1) patterns processedCols
         else
           (case getMergeInfo ws rowNumber col of
              Inl e \<Rightarrow> Inl e
            | Inr None \<Rightarrow>
                extractMergePatterns_loop ws rowNumber maxCol (col + 1) patterns processedCols
            | Inr (Some mergeInfo) \<Rightarrow>
                (if mi_masterRow mergeInfo = rowNumber then
                   (case splitOn (CHR '':'') (mi_range mergeInfo) of
                      start # end' # _ \<Rightarrow>
                        (case (matchLetters start, matchLetters end') of
                           (Some sl, Some el) \<Rightarrow>
                             (let startCol = toIndex (columnLetterToNumber sl);
                                  endCol = toIndex (columnLetterToNumber el)
                              in extractMergePatterns_loop ws rowNumber maxCol (col + 1)
                                   (patterns @ [\<lparr>mp_startCol = startCol, mp_endCol = endCol,
                                                  mp_spanCols = int endCol - int startCol + 1\<rparr>])
                                   (processedCols \<union> {startCol..endCol}))
                         | _ \<Rightarrow>
                             extractMergePatterns_loop ws rowNumber maxCol (col + 1) patterns
                               processedCols)
                    | _ \<Rightarrow> Inl (TypeError ''Cannot read properties of undefined (reading match)''))
                 else extractMergePatterns_loop ws rowNumber maxCol (col + 1) patterns
                        processedCols)))
      else Inr patterns)"
  by pat_completeness auto
termination
  by (relation "measure (\<lambda>(ws, rowNumber, maxCol, col, patterns, processedCols). maxCol + 1 - col)")
     auto

declare extractMergePatterns_loop.simps [simp del]

definition extractMergePatternsFromRow :: "worksheet \<Rightarrow> nat \<Rightarrow> error + mergePattern list" where
  "extractMergePatternsFromRow ws rowNumber =
     (let maxCol = (if cellCount (getRow ws rowNumber) = 0 then 20
                    else cellCount (getRow ws rowNumber))
      in extractMergePatterns_loop ws rowNumber maxCol 1 [] {})"

section \<open>Row templates\<close>

text \<open>
  \<^verbatim>\<open>CellTemplate\<close> (its field \<^verbatim>\<open>type\<close>, which nothing reads, is left out); \<open>t_mergeInfo\<close> holds
  \<open>(startCol, endCol)\<close>.
\<close>

record cellTemplate =
  t_value :: jsval
  t_style :: jsval
  t_numFmt :: "string option"
  t_isMerged :: bool
  t_mergeInfo :: "(nat \<times> nat) option"

text \<open>
  One match of \<^verbatim>\<open>/\{\{(\w+(?:\.\w+)*)\}\}/\<close> at the start of a string: the field path. The
  dotted tail \<^verbatim>\<open>(?:\.\w+)*\<close> is consumed greedily.
\<close>

function dottedTail :: "string \<Rightarrow> string" where
  "dottedTail [] = []"
| "dottedTail [d] = []"
| "dottedTail (d # c # r) =
     (if d = CHR ''.'' \<and> isWordChar c
      then d # takeWhile isWordChar (c # r) @ dottedTail (dropWhile isWordChar r)
      else [])"
  by pat_completeness auto
termination
proof (relation "measure length")
  show "wf (measure length)" by simp
next
  fix d c :: char and r :: string
  have "length (dropWhile isWordChar r) \<le> length r" by (rule length_dropWhile_le)
  then show "(dropWhile isWordChar r, d # c # r) \<in> measure length" by simp
qed

definition matchFieldPath :: "string \<Rightarrow> string option" where
  "matchFieldPath s =
     (case stripPrefix ''{{'' s of
        None \<Rightarrow> None
      | Some r \<Rightarrow>
          (let w = takeWhile isWordChar r;
               p = w @ dottedTail (dropWhile isWordChar r)
           in if w \<noteq> [] \<and> stripPrefix ''}}'' (drop (length p) r) \<noteq> None then Some p
              else None))"

text \<open>All matches of the pattern with the flag \<^verbatim>\<open>g\<close>, left to right.\<close>

function fieldPaths :: "string \<Rightarrow> string list" where
  "fieldPaths [] = []"
| "fieldPaths (c # cs) =
     (case matchFieldPath (c # cs) of
        Some p \<Rightarrow> p # fieldPaths (drop (length p + 4) (c # cs))
      | None \<Rightarrow> fieldPaths cs)"
  by pat_completeness auto
termination
  by (relation "measure length") auto

text \<open>The two \<^verbatim>\<open>fieldColumnMap.set\<close> calls for one field path found in a column.\<close>

definition addField :: "string \<Rightarrow> (string \<times> string) list \<Rightarrow> string \<Rightarrow> (string \<times> string) list" where
  "addField columnLetter fieldColumnMap fieldPath =
     (let m1 = (fieldPath, columnLetter) # fieldColumnMap;
          lastSegment = last (splitOn (CHR ''.'') fieldPath)
      in if lastSegment \<noteq> [] \<and> map_of m1 lastSegment = None
         then (lastSegment, columnLetter) # m1 else m1)"

text \<open>
  The callback of \<^verbatim>\<open>row.eachCell\<close> in \<^verbatim>\<open>extractRowTemplate\<close>, for the columns
  \<open>colNumber, colNumber + 1, \<dots>\<close> holding the given cells.
\<close>

fun extractRowTemplate_loop ::
  "worksheet \<Rightarrow> nat \<Rightarrow> nat \<Rightarrow> cell list \<Rightarrow> cellTemplate list \<Rightarrow> (string \<times> string) list \<Rightarrow>
   error + (cellTemplate list \<times> (string \<times> string) list)" where
  "extractRowTemplate_loop ws rowNumber colNumber [] templates fieldColumnMap =
     Inr (templates, fieldColumnMap)"
| "extractRowTemplate_loop ws rowNumber colNumber (c # cs) templates fieldColumnMap =
     (case getMergeInfo ws rowNumber colNumber of
        Inl e \<Rightarrow> Inl e
      | Inr mergeInfo \<Rightarrow>
          (case (case mergeInfo of
                   None \<Rightarrow> Inr None
                 | Some mi \<Rightarrow>
                     (case splitOn (CHR '':'') (mi_range mi) of
                        _ # end' # _ \<Rightarrow>
                          Inr (Some (mi_masterCol mi,
                                     (case matchLetters end' of
                                        Some el \<Rightarrow> toIndex (columnLetterToNumber el)
                                      | None \<Rightarrow> mi_masterCol mi)))
                      | _ \<Rightarrow>
                          Inl (TypeError ''Cannot read properties of undefined (reading match)''))) of
             Inl e \<Rightarrow> Inl e
           | Inr info \<Rightarrow>
               extractRowTemplate_loop ws rowNumber (colNumber + 1) cs
                 (templates @ [\<lparr>t_value = c_value c, t_style = c_style c, t_numFmt = c_numFmt c,
                                t_isMerged = (mergeInfo \<noteq> None), t_mergeInfo = info\<rparr>])
                 (foldl (addField (columnNumberToLetter (Fin (of_nat colNumber)))) fieldColumnMap
                    (case c_value c of JStr s \<Rightarrow> fieldPaths s | _ \<Rightarrow> []))))"

text \<open>
  \<^verbatim>\<open>extractRowTemplate(row, worksheet)\<close>, for the row with the given number. Element \<open>c - 1\<close>
  of the templates is the template of column \<open>c\<close>.
\<close>

definition extractRowTemplate ::
  "worksheet \<Rightarrow> nat \<Rightarrow>
   error + (cellTemplate list \<times> mergePattern list \<times> (string \<times> string) list)" where
  "extractRowTemplate ws rowNumber =
     (case extractRowTemplate_loop ws rowNumber 1 (r_cells (getRow ws rowNumber)) [] [] of
        Inl e \<Rightarrow> Inl e
      | Inr (templates, fieldColumnMap) \<Rightarrow>
          (case extractMergePatternsFromRow ws rowNumber of
             Inl e \<Rightarrow> Inl e
           | Inr mergePatterns \<Rightarrow> Inr (templates, mergePatterns, fieldColumnMap)))"

text \<open>
  \<^verbatim>\<open>applyMergePatternsToRow\<close>: each pattern's range on the row is unmerged and merged again;
  what the container throws is swallowed. In the model unmerging removes the merges that
  meet the range and merging adds the range text, and neither throws.
\<close>

definition meetsRange :: "nat \<Rightarrow> nat \<Rightarrow> nat \<Rightarrow> mergeRange \<Rightarrow> bool" where
  "meetsRange rowNumber startCol endCol merge =
     (case mergeBounds merge of
        Inr (Some (mtop, mleft, mbottom, mright)) \<Rightarrow>
          mtop \<le> rowNumber \<and> rowNumber \<le> mbottom \<and> mleft \<le> endCol \<and> startCol \<le> mright
      | _ \<Rightarrow> False)"

definition applyMergePattern :: "nat \<Rightarrow> worksheet \<Rightarrow> mergePattern \<Rightarrow> worksheet" where
  "applyMergePattern rowNumber ws pattern =
     (let range = columnNumberToLetter (Fin (of_nat (mp_startCol pattern))) @ showNat rowNumber
                  @ '':'' @ columnNumberToLetter (Fin (of_nat (mp_endCol pattern)))
                  @ showNat rowNumber
      in ws\<lparr>ws_merges :=
              filter (\<lambda>m. \<not> meetsRange rowNumber (mp_startCol pattern) (mp_endCol pattern) m)
                (ws_merges ws)
              @ [MergeText range]\<rparr>)"

definition applyMergePatternsToRow :: "worksheet \<Rightarrow> nat \<Rightarrow> mergePattern list \<Rightarrow> worksheet" where
  "applyMergePatternsToRow ws rowNumber patterns = foldl (applyMergePattern rowNumber) ws patterns"

text \<open>
  \<^verbatim>\<open>applyRowTemplate\<close>: the callback of \<^verbatim>\<open>_.forEach(templates, \<dots>)\<close> for the columns
  \<open>colNumber, colNumber + 1, \<dots>\<close>, on the row built so far and the columns already covered.
  An exception of \<open>renderCell\<close> ends the loop.
\<close>

definition writeCell :: "row \<Rightarrow> nat \<Rightarrow> cellTemplate \<Rightarrow> jsval \<Rightarrow> row" where
  "writeCell newRow colNumber cellTemplate renderedValue =
     setCell newRow colNumber
       \<lparr>c_value = renderedValue, c_style = t_style cellTemplate,
        c_numFmt = (if truthyStr (t_numFmt cellTemplate) then t_numFmt cellTemplate
                    else c_numFmt (getCell newRow colNumber))\<rparr>"

fun applyRowTemplate_loop ::
  "host \<Rightarrow> jsval list \<Rightarrow> renderOptions \<Rightarrow> nat \<Rightarrow> cellTemplate list \<Rightarrow> row \<Rightarrow> nat set \<Rightarrow>
   error + row" where
  "applyRowTemplate_loop h scopes options colNumber [] newRow processedCols = Inr newRow"
| "applyRowTemplate_loop h scopes options colNumber (cellTemplate # rest) newRow processedCols =
     (if colNumber \<in> processedCols
      then applyRowTemplate_loop h scopes options (colNumber + 1) rest newRow processedCols
      else
        (let touched = newRow\<lparr>r_cells := padTo colNumber blankCell (r_cells newRow)\<rparr>
         in case (if t_isMerged cellTemplate then t_mergeInfo cellTemplate else None) of
              Some (startCol, endCol) \<Rightarrow>
                (if colNumber = startCol then
                   (case renderCell h (t_value cellTemplate) scopes options of
                      Inl e \<Rightarrow> Inl e
                    | Inr renderedValue \<Rightarrow>
                        applyRowTemplate_loop h scopes options (colNumber + 1) rest
                          (writeCell touched colNumber cellTemplate renderedValue)
                          (processedCols \<union> {startCol..endCol}))
                 else applyRowTemplate_loop h scopes options (colNumber + 1) rest touched
                        processedCols)
            | None \<Rightarrow>
                (case renderCell h (t_value cellTemplate) scopes options of
                   Inl e \<Rightarrow> Inl e
                 | Inr renderedValue \<Rightarrow>
                     applyRowTemplate_loop h scopes options (colNumber + 1) rest
                       (writeCell touched colNumber cellTemplate renderedValue) processedCols)))"

definition applyRowTemplate ::
  "host \<Rightarrow> row \<Rightarrow> cellTemplate list \<Rightarrow> jsval list \<Rightarrow> renderOptions \<Rightarrow> error + row" where
  "applyRowTemplate h newRow templates scopes options =
     applyRowTemplate_loop h scopes options 1 templates newRow {}"

text \<open>\<^verbatim>\<open>adjustImageAnchors(worksheet, insertPosition, rowsAdded)\<close>\<close>

definition shiftAnchor :: "int \<Rightarrow> int \<Rightarrow> int option \<Rightarrow> int option" where
  "shiftAnchor insertPosition rowsAdded anchor =
     (case anchor of
        None \<Rightarrow> None
      | Some r \<Rightarrow> Some (if r \<ge> insertPosition - 1 then r + rowsAdded else r))"

definition adjustImage :: "int \<Rightarrow> int \<Rightarrow> image \<Rightarrow> image" where
  "adjustImage insertPosition rowsAdded img =
     (case img_range img of
        Some (topLeft, bottomRight) \<Rightarrow>
          img\<lparr>img_range := Some (shiftAnchor insertPosition rowsAdded topLeft,
                                  shiftAnchor insertPosition rowsAdded bottomRight)\<rparr>
      | None \<Rightarrow> img\<lparr>img_position := shiftAnchor insertPosition rowsAdded (img_position img)\<rparr>)"

definition adjustMedia :: "int \<Rightarrow> int \<Rightarrow> image \<Rightarrow> image" where
  "adjustMedia insertPosition rowsAdded img =
     (case img_range img of
        Some (topLeft, bottomRight) \<Rightarrow>
          img\<lparr>img_range := Some (shiftAnchor insertPosition rowsAdded topLeft,
                                  shiftAnchor insertPosition rowsAdded bottomRight)\<rparr>
      | None \<Rightarrow> img)"

definition adjustImageAnchors :: "worksheet \<Rightarrow> nat \<Rightarrow> nat \<Rightarrow> worksheet" where
  "adjustImageAnchors ws insertPosition rowsAdded =
     (if ws_images ws = []
      then ws\<lparr>ws_media := map (adjustMedia (int insertPosition) (int rowsAdded)) (ws_media ws)\<rparr>
      else ws\<lparr>ws_images := map (adjustImage (int insertPosition) (int rowsAdded)) (ws_images ws)\<rparr>)"

section \<open>Table expansion\<close>

text \<open>\<^verbatim>\<open>TableRenderResult\<close>\<close>

record tableRenderResult =
  tr_tableInfo :: "tableRenderInfo option"
  tr_rowsToHide :: "nat list"

text \<open>
  The callback of \<^verbatim>\<open>_.forEach(arr, \<dots>)\<close> in \<^verbatim>\<open>renderTable\<close>, for the elements with the indices
  \<open>index, index + 1, \<dots>\<close>.
\<close>

fun renderTable_loop ::
  "host \<Rightarrow> renderOptions \<Rightarrow> nat \<Rightarrow> cellTemplate list \<Rightarrow> mergePattern list \<Rightarrow> jsval list \<Rightarrow>
   nat \<Rightarrow> jsval list \<Rightarrow> worksheet \<Rightarrow> error + worksheet" where
  "renderTable_loop h options anchorRowIndex templates mergePatterns allScopes index [] ws = Inr ws"
| "renderTable_loop h options anchorRowIndex templates mergePatterns allScopes index (item # rest) ws =
     (let insertPosition = anchorRowIndex + index;
          ws1 = insertRow ws insertPosition;
          localScopes = item # allScopes
      in case applyRowTemplate h (getRow ws1 insertPosition) templates localScopes options of
           Inl e \<Rightarrow> Inl e
         | Inr newRow \<Rightarrow>
             renderTable_loop h options anchorRowIndex templates mergePatterns allScopes
               (index + 1) rest
               (applyMergePatternsToRow (setRow ws1 insertPosition newRow) insertPosition
                  mergePatterns))"

definition renderTable ::
  "host \<Rightarrow> worksheet \<Rightarrow> nat \<Rightarrow> string \<Rightarrow> jsval list \<Rightarrow> jsval \<Rightarrow> renderOptions \<Rightarrow>
   error + (worksheet \<times> tableRenderResult)" where
  "renderTable h ws anchorRowIndex arrayPath scopes rootData options =
     (let allScopes = scopes @ [rootData]
      in case resolve arrayPath allScopes of
           JArr arr \<Rightarrow>
             (case extractRowTemplate ws (anchorRowIndex + 1) of
                Inl e \<Rightarrow> Inl e
              | Inr (templates, mergePatterns, fieldColumnMap) \<Rightarrow>
                  (if arr = [] then
                     Inr (ws, \<lparr>tr_tableInfo = None,
                               tr_rowsToHide = [anchorRowIndex, anchorRowIndex + 1]\<rparr>)
                   else
                     (let rowsToAdd = length arr
                      in case renderTable_loop h options anchorRowIndex templates mergePatterns
                                allScopes 0 arr ws of
                           Inl e \<Rightarrow> Inl e
                         | Inr ws' \<Rightarrow>
                             Inr (adjustImageAnchors ws' anchorRowIndex rowsToAdd,
                                  \<lparr>tr_tableInfo =
                                     Some \<lparr>ti_startRow = int anchorRowIndex,
                                           ti_endRow = int anchorRowIndex + int rowsToAdd - 1,
                                           ti_path = arrayPath,
                                           ti_fieldColumnMap = fieldColumnMap\<rparr>,
                                   tr_rowsToHide = [anchorRowIndex + rowsToAdd,
                                                    anchorRowIndex + rowsToAdd + 1]\<rparr>))))
         | _ \<Rightarrow>
             Inr (ws, \<lparr>tr_tableInfo = None,
                       tr_rowsToHide = [anchorRowIndex, anchorRowIndex + 1]\<rparr>))"

section \<open>The sheet orchestrator\<close>

text \<open>\<^verbatim>\<open>TableMetadata\<close>\<close>

record tableMetadata =
  tm_rowNumber :: nat
  tm_path :: string

text \<open>
  \<^verbatim>\<open>scanTables\<close>: the cells with a value, row by row and column by column, give the table
  anchors, one per row and path; the result is ordered by row number, descending
  (\<^verbatim>\<open>_.orderBy\<close> is a stable sort).
\<close>

definition scanCell :: "nat \<Rightarrow> tableMetadata list \<Rightarrow> cell \<Rightarrow> tableMetadata list" where
  "scanCell rowNumber tables c =
     (if c_value c = JNull then tables
      else
        (case detectPlaceholder (c_value c) of
           None \<Rightarrow> tables
         | Some placeholder \<Rightarrow>
             (if ph_type placeholder = PTable
                 \<and> \<lparr>tm_rowNumber = rowNumber, tm_path = ph_path placeholder\<rparr> \<notin> set tables
              then tables @ [\<lparr>tm_rowNumber = rowNumber, tm_path = ph_path placeholder\<rparr>]
              else tables)))"

fun scanRows :: "nat \<Rightarrow> row list \<Rightarrow> tableMetadata list \<Rightarrow> tableMetadata list" where
  "scanRows rowNumber [] tables = tables"
| "scanRows rowNumber (r # rs) tables =
     scanRows (rowNumber + 1) rs (foldl (scanCell rowNumber) tables (r_cells r))"

definition scanTables :: "worksheet \<Rightarrow> tableMetadata list" where
  "scanTables ws = sort_key (\<lambda>t. - int (tm_rowNumber t)) (scanRows 1 (ws_rows ws) [])"

text \<open>
  The variables of \<^verbatim>\<open>processWorkbook\<close> that the loop over the tables updates: the worksheet,
  \<^verbatim>\<open>tableInfoMap\<close>, \<^verbatim>\<open>lastTableInfo\<close> and \<^verbatim>\<open>hideEntries\<close>.
\<close>

record tableLoop =
  tl_ws :: worksheet
  tl_tableInfoMap :: "(string \<times> tableRenderInfo) list"
  tl_lastTableInfo :: "tableRenderInfo option"
  tl_hideEntries :: "hideEntry list"

definition expandTable ::
  "host \<Rightarrow> jsval \<Rightarrow> renderOptions \<Rightarrow> tableLoop \<Rightarrow> tableMetadata \<Rightarrow> error + tableLoop" where
  "expandTable h data options st t =
     (case renderTable h (tl_ws st) (tm_rowNumber t) (tm_path t) [] data options of
        Inl e \<Rightarrow> Inl e
      | Inr (ws', result) \<Rightarrow>
          (let rowsInserted = (case tr_tableInfo result of
                                 Some ti \<Rightarrow> ti_endRow ti - ti_startRow ti + 1
                               | None \<Rightarrow> 0)
           in Inr \<lparr>tl_ws = ws',
                   tl_tableInfoMap = (case tr_tableInfo result of
                                        Some ti \<Rightarrow> (tm_path t, ti) # tl_tableInfoMap st
                                      | None \<Rightarrow> tl_tableInfoMap st),
                   tl_lastTableInfo = (case tr_tableInfo result of
                                         Some ti \<Rightarrow> Some ti
                                       | None \<Rightarrow> tl_lastTableInfo st),
                   tl_hideEntries = tl_hideEntries st
                     @ [\<lparr>he_rows = map int (tr_rowsToHide result),
                         he_insertedAt = int (tm_rowNumber t),
                         he_rowsInserted = rowsInserted\<rparr>]\<rparr>))"

fun expandTables ::
  "host \<Rightarrow> jsval \<Rightarrow> renderOptions \<Rightarrow> tableMetadata list \<Rightarrow> tableLoop \<Rightarrow> error + tableLoop" where
  "expandTables h data options [] st = Inr st"
| "expandTables h data options (t # ts) st =
     (case expandTable h data options st t of
        Inl e \<Rightarrow> Inl e
      | Inr st' \<Rightarrow> expandTables h data options ts st')"

text \<open>\<^verbatim>\<open>clearAndHideRow\<close> and the loop that applies it at the offset-corrected rows.\<close>

definition clearAndHideRow :: "row \<Rightarrow> row" where
  "clearAndHideRow r =
     r\<lparr>r_cells := map (\<lambda>c. c\<lparr>c_value := JNull\<rparr>) (r_cells r),
       r_hidden := True, r_height := Some (Fin 0)\<rparr>"

definition hideRowsOf :: "hideEntry list \<Rightarrow> worksheet \<Rightarrow> nat \<Rightarrow> worksheet" where
  "hideRowsOf hideEntries ws i =
     (let entry = hideEntries ! i;
          offset = calculateHideOffset i hideEntries
      in foldl (\<lambda>w rowIndex. setRow w (nat (rowIndex + offset))
                                (clearAndHideRow (getRow w (nat (rowIndex + offset)))))
           ws (he_rows entry))"

definition hideRows :: "hideEntry list \<Rightarrow> worksheet \<Rightarrow> worksheet" where
  "hideRows hideEntries ws = foldl (hideRowsOf hideEntries) ws [0..<length hideEntries]"

text \<open>
  The callback of the final pass for one cell: the new value of the cell, or the exception
  that leaves the callback. A table anchor keeps its value.
\<close>

definition finalPassCell ::
  "host \<Rightarrow> jsval \<Rightarrow> renderOptions \<Rightarrow> (string \<times> tableRenderInfo) list \<Rightarrow>
   tableRenderInfo option \<Rightarrow> jsval \<Rightarrow> error + jsval" where
  "finalPassCell h data options tableInfoMap lastTableInfo cellValue =
     (case detectPlaceholder cellValue of
        None \<Rightarrow> renderCell h cellValue [data] options
      | Some placeholder \<Rightarrow>
          (if ph_type placeholder = PTable then Inr cellValue
           else if ph_type placeholder = PFormula \<and> truthyStr (ph_formulaType placeholder) then
             (let tableInfo =
                    (if truthyStr (ph_column placeholder) then lastTableInfo
                     else if truthyStr (ph_arrayPath placeholder)
                       then map_of tableInfoMap (the (ph_arrayPath placeholder))
                     else if truthyStr (ph_fieldName placeholder) then lastTableInfo
                     else None)
              in Inr (renderFormula (the (ph_formulaType placeholder)) (ph_column placeholder)
                        (ph_fieldName placeholder) (ph_arrayPath placeholder) tableInfo data))
           else renderCell h cellValue [data] options))"

text \<open>
  The final pass over the cells of a row and over the rows: cells without a value are not
  visited, and an exception in one cell ends the pass. Every cell is visited with its own
  value, which is what the container does on a sheet without merges; there it visits the
  other cells of a merge with the value of the merge's master, and that is not modelled.
\<close>

fun finalPassCells ::
  "host \<Rightarrow> jsval \<Rightarrow> renderOptions \<Rightarrow> (string \<times> tableRenderInfo) list \<Rightarrow>
   tableRenderInfo option \<Rightarrow> cell list \<Rightarrow> error + cell list" where
  "finalPassCells h data options tableInfoMap lastTableInfo [] = Inr []"
| "finalPassCells h data options tableInfoMap lastTableInfo (c # cs) =
     (case (if c_value c = JNull then Inr c
            else (case finalPassCell h data options tableInfoMap lastTableInfo (c_value c) of
                    Inl e \<Rightarrow> Inl e
                  | Inr v \<Rightarrow> Inr (c\<lparr>c_value := v\<rparr>))) of
        Inl e \<Rightarrow> Inl e
      | Inr c' \<Rightarrow>
          (case finalPassCells h data options tableInfoMap lastTableInfo cs of
             Inl e \<Rightarrow> Inl e
           | Inr cs' \<Rightarrow> Inr (c' # cs')))"

fun finalPassRows ::
  "host \<Rightarrow> jsval \<Rightarrow> renderOptions \<Rightarrow> (string \<times> tableRenderInfo) list \<Rightarrow>
   tableRenderInfo option \<Rightarrow> row list \<Rightarrow> error + row list" where
  "finalPassRows h data options tableInfoMap lastTableInfo [] = Inr []"
| "finalPassRows h data options tableInfoMap lastTableInfo (r # rs) =
     (case finalPassCells h data options tableInfoMap lastTableInfo (r_cells r) of
        Inl e \<Rightarrow> Inl e
      | Inr cs' \<Rightarrow>
          (case finalPassRows h data options tableInfoMap lastTableInfo rs of
             Inl e \<Rightarrow> Inl e
           | Inr rs' \<Rightarrow> Inr (r\<lparr>r_cells := cs'\<rparr> # rs')))"

definition finalPass ::
  "host \<Rightarrow> jsval \<Rightarrow> renderOptions \<Rightarrow> (string \<times> tableRenderInfo) list \<Rightarrow>
   tableRenderInfo option \<Rightarrow> worksheet \<Rightarrow> error + worksheet" where
  "finalPass h data options tableInfoMap lastTableInfo ws =
     (case finalPassRows h data options tableInfoMap lastTableInfo (ws_rows ws) of
        Inl e \<Rightarrow> Inl e
      | Inr rs' \<Rightarrow> Inr (ws\<lparr>ws_rows := rs'\<rparr>))"

text \<open>
  The callback of \<^verbatim>\<open>processWorkbook\<close> for one worksheet, in the phases that write cell values:
  the scan for anchors, the expansion of the tables, the clearing and hiding of the anchor
  and template rows, and the final pass. The phases between and after them (restoring
  hidden flags, print area, column widths) write no cell value and are not modelled.
\<close>

definition processWorksheet :: "host \<Rightarrow> jsval \<Rightarrow> renderOptions \<Rightarrow> worksheet \<Rightarrow> error + worksheet" where
  "processWorksheet h data options ws =
     (case expandTables h data options (scanTables ws)
             \<lparr>tl_ws = ws, tl_tableInfoMap = [], tl_lastTableInfo = None, tl_hideEntries = []\<rparr> of
        Inl e \<Rightarrow> Inl e
      | Inr st \<Rightarrow>
          finalPass h data options (tl_tableInfoMap st) (tl_lastTableInfo st)
            (hideRows (tl_hideEntries st) (tl_ws st)))"

fun processWorkbook :: "host \<Rightarrow> worksheet list \<Rightarrow> jsval \<Rightarrow> renderOptions \<Rightarrow> error + worksheet list" where
  "processWorkbook h [] data options = Inr []"
| "processWorkbook h (ws # wss) data options =
     (case processWorksheet h data options ws of
        Inl e \<Rightarrow> Inl e
      | Inr ws' \<Rightarrow>
          (case processWorkbook h wss data options of
             Inl e \<Rightarrow> Inl e
           | Inr wss' \<Rightarrow> Inr (ws' # wss')))"

text \<open>A row of cells with the given values and no style, and a sheet of such rows.\<close>

definition plainRow :: "jsval list \<Rightarrow> row" where
  "plainRow vs =
     \<lparr>r_cells = map (\<lambda>v. \<lparr>c_value = v, c_style = JObj [], c_numFmt = None\<rparr>) vs,
      r_hidden = False, r_height = None\<rparr>"

definition plainSheet :: "jsval list list \<Rightarrow> worksheet" where
  "plainSheet vss = \<lparr>ws_rows = map plainRow vss, ws_merges = [], ws_images = [], ws_media = []\<rparr>"

text \<open>
  The sheet and data of the specification's scenario: a title, a table anchor over
  \<^verbatim>\<open>items\<close>, its template row, and a total two rows below the anchor.
\<close>

definition exampleSheet :: worksheet where
  "exampleSheet =
     plainSheet [[JStr ''Order {{id}}''],
                 [JStr ''{{#table items}}''],
                 [JStr ''{{name}}'', JStr ''{{amount}}''],
                 [JStr ''Total'', JStr ''{{#formula SUM amount}}'']]"

definition exampleData :: jsval where
  "exampleData =
     JObj [(''id'', JStr ''ORD-001''),
           (''items'', JArr [JObj [(''name'', JStr ''A''), (''amount'', JNum (Fin 1))],
                             JObj [(''name'', JStr ''B''), (''amount'', JNum (Fin 2))]])]"







chapter \<open>Properties\<close>

section \<open>Properties of double arithmetic\<close>

lemma roundHalfEven_of_int: "roundHalfEven (of_int k) = k"
  by (simp add: roundHalfEven_def)

lemma roundHalfEven_cases:
  obtains f d where "t = of_int f + d" and "0 \<le> d" and "d < 1"
    and "roundHalfEven t = (if d < 1 / 2 then f else if 1 / 2 < d then f + 1
                              else if even f then f else f + 1)"
proof -
  define f where "f = \<lfloor>t\<rfloor>"
  define d where "d = t - of_int f"
  have "t = of_int f + d" by (simp add: d_def)
  moreover have "0 \<le> d" "d < 1" unfolding d_def f_def by linarith+
  moreover have "roundHalfEven t = (if d < 1 / 2 then f else if 1 / 2 < d then f + 1
                              else if even f then f else f + 1)"
    by (simp add: roundHalfEven_def Let_def f_def d_def)
  ultimately show ?thesis using that by blast
qed

lemma roundHalfEven_bounds:
  "of_int (roundHalfEven t) \<le> t + 1 / 2" "t - 1 / 2 \<le> of_int (roundHalfEven t)"
proof -
  obtain f d where t: "t = of_int f + d" and d: "0 \<le> d" "d < 1"
    and r: "roundHalfEven t = (if d < 1 / 2 then f else if 1 / 2 < d then f + 1
                              else if even f then f else f + 1)"
    by (rule roundHalfEven_cases)
  show "of_int (roundHalfEven t) \<le> t + 1 / 2"
    unfolding r using t d by (simp split: if_splits)
  show "t - 1 / 2 \<le> of_int (roundHalfEven t)"
    unfolding r using t d by (simp split: if_splits)
qed

lemma roundHalfEven_floor: "\<lfloor>t\<rfloor> \<le> roundHalfEven t"
  by (simp add: roundHalfEven_def Let_def)

lemma floorLog2_le:
  assumes "0 < x"
  shows "2 powi (floorLog2 x) \<le> x"
proof -
  obtain p q where pq: "quotient_of x = (p, q)" by (cases "quotient_of x")
  then have q: "0 < q" and x: "x = of_int p / of_int q"
    using quotient_of_denom_pos [OF pq] quotient_of_div [OF pq] by simp_all
  with assms have p: "0 < p" by (simp add: zero_less_divide_iff)
  define e where "e = bitlen p - bitlen q"
  show ?thesis
  proof (cases "2 powi e \<le> x")
    case True
    then show ?thesis by (simp add: floorLog2_def pq e_def)
  next
    case False
    have "2 ^ nat (bitlen p - 1) \<le> p" using bitlen_bounds [OF p] by simp
    then have "(of_int (2 ^ nat (bitlen p - 1)) :: rat) \<le> of_int p" by (simp only: of_int_le_iff)
    moreover have "1 \<le> bitlen p" using p by (simp add: bitlen_alt_def)
    ultimately have lo: "(2::rat) powi (bitlen p - 1) \<le> of_int p"
      by (simp add: power_int_def)
    have "q < 2 ^ nat (bitlen q)" using bitlen_bounds [OF q] by simp
    then have "(of_int q :: rat) < of_int (2 ^ nat (bitlen q))" by (simp only: of_int_less_iff)
    then have hi: "of_int q \<le> (2::rat) powi (bitlen q)"
      using bitlen_nonneg [of q] by (simp add: power_int_def)
    have "(2::rat) powi (e - 1) = 2 powi (bitlen p - 1) / 2 powi (bitlen q)"
      using power_int_diff [of "2::rat" "bitlen p - 1" "bitlen q"]
      by (simp add: e_def algebra_simps)
    also have "\<dots> \<le> of_int p / of_int q"
      using lo hi q p by (intro frac_le) simp_all
    finally have "(2::rat) powi (e - 1) \<le> x" by (simp only: x)
    moreover have "floorLog2 x = e - 1" using False by (simp add: floorLog2_def pq e_def)
    ultimately show ?thesis by simp
  qed
qed

lemma floorLog2_gt:
  assumes "0 < x"
  shows "x < 2 powi (floorLog2 x + 1)"
proof -
  obtain p q where pq: "quotient_of x = (p, q)" by (cases "quotient_of x")
  then have q: "0 < q" and x: "x = of_int p / of_int q"
    using quotient_of_denom_pos [OF pq] quotient_of_div [OF pq] by simp_all
  with assms have p: "0 < p" by (simp add: zero_less_divide_iff)
  define e where "e = bitlen p - bitlen q"
  show ?thesis
  proof (cases "2 powi e \<le> x")
    case True
    have "p < 2 ^ nat (bitlen p)" using bitlen_bounds [OF p] by simp
    then have "(of_int p :: rat) < of_int (2 ^ nat (bitlen p))" by (simp only: of_int_less_iff)
    then have hi: "of_int p < (2::rat) powi (bitlen p)"
      using bitlen_nonneg [of p] by (simp add: power_int_def)
    have "2 ^ nat (bitlen q - 1) \<le> q" using bitlen_bounds [OF q] by simp
    then have "(of_int (2 ^ nat (bitlen q - 1)) :: rat) \<le> of_int q" by (simp only: of_int_le_iff)
    moreover have "1 \<le> bitlen q" using q by (simp add: bitlen_alt_def)
    ultimately have lo: "(2::rat) powi (bitlen q - 1) \<le> of_int q"
      by (simp add: power_int_def)
    have "of_int p / of_int q < (2::rat) powi (bitlen p) / 2 powi (bitlen q - 1)"
      using lo hi p by (intro frac_less) simp_all
    also have "\<dots> = 2 powi (e + 1)"
      using power_int_diff [of "2::rat" "bitlen p" "bitlen q - 1"]
      by (simp add: e_def algebra_simps)
    finally have "x < 2 powi (e + 1)" by (simp only: x)
    moreover have "floorLog2 x = e" using True by (simp add: floorLog2_def pq e_def)
    ultimately show ?thesis by simp
  next
    case False
    then have "floorLog2 x = e - 1" by (simp add: floorLog2_def pq e_def)
    with False show ?thesis by simp
  qed
qed

lemma floorLog2_less:
  assumes "0 < x" and "x < 2 powi k" 
  shows "floorLog2 x < k"
proof (cases "0 \<le> k")
  case True
  from floorLog2_le [OF assms(1)] assms(2) have "(2::rat) powi floorLog2 x < 2 powi k" by simp
  then show ?thesis using True by (intro power_int_le_imp_less_exp [of "2::rat"]) simp_all
next
  case False
  from floorLog2_le [OF assms(1)] assms(2) have lt: "(2::rat) powi floorLog2 x < 2 powi k" by simp
  show ?thesis
  proof (rule ccontr)
    assume "\<not> floorLog2 x < k"
    then have "k \<le> floorLog2 x" by simp
    then have "(2::rat) powi k \<le> 2 powi floorLog2 x" by (intro power_int_increasing) simp_all
    with lt show False by simp
  qed
qed

lemma toDouble_of_int_less:
  assumes "\<bar>n\<bar> < 2 ^ 53"
  shows "toDouble (of_int n) = Fin (of_int n)"
proof (cases "n = 0")
  case True
  then show ?thesis by (simp add: toDouble_def)
next
  case False
  define x :: rat where "x = of_int n"
  define e where "e = floorLog2 \<bar>x\<bar>"
  define j where "j = max e (- 1022) - 52"
  define u :: rat where "u = 2 powi j"
  have xpos: "0 < \<bar>x\<bar>" using False by (simp add: x_def)
  have "\<bar>x\<bar> < 2 ^ 53" using assms unfolding x_def
    by (metis of_int_abs of_int_less_iff of_int_numeral of_int_power)
  then have "\<bar>x\<bar> < 2 powi 53" by simp
  from floorLog2_less [OF xpos this] have e: "e < 53" by (simp add: e_def)
  then have j: "j \<le> 0" by (simp add: j_def)
  have u: "u = 1 / 2 ^ nat (- j)" "0 < u"
    using j by (simp_all add: u_def power_int_def field_simps)
  have "x / u = of_int (n * 2 ^ nat (- j))" by (simp add: u x_def)
  then have "roundHalfEven (x / u) = n * 2 ^ nat (- j)" by (simp only: roundHalfEven_of_int)
  then have "of_int (roundHalfEven (x / u)) * u = x" by (simp add: u x_def)
  then show ?thesis
    using False e
    by (simp add: toDouble_def Let_def x_def [symmetric] e_def [symmetric] j_def [symmetric]
          u_def [symmetric])
qed

lemma toDouble_of_int:
  assumes "\<bar>n\<bar> \<le> 2 ^ 53"
  shows "toDouble (of_int n) = Fin (of_int n)"
proof -
  from assms consider "\<bar>n\<bar> < 2 ^ 53" | "n = 2 ^ 53" | "n = - (2 ^ 53)" by fastforce
  then show ?thesis
  proof cases
    case 1
    then show ?thesis by (rule toDouble_of_int_less)
  next
    case 2
    have "toDouble 9007199254740992 = Fin 9007199254740992" by code_simp
    with 2 show ?thesis by simp
  next
    case 3
    have "toDouble (- 9007199254740992) = Fin (- 9007199254740992)" by code_simp
    with 3 show ?thesis by simp
  qed
qed

lemma toDouble_floor:
  assumes "0 < x" and "x < 2 ^ 53"
  shows "\<exists>y. toDouble x = Fin y \<and> of_int \<lfloor>x\<rfloor> \<le> y \<and> y \<le> x + 1 / 2"
proof -
  define e where "e = floorLog2 x"
  define j where "j = max e (- 1022) - 52"
  define k where "k = nat (- j)"
  define u :: rat where "u = 2 powi j"
  define q where "q = roundHalfEven (x / u)"
  from assms have "x < 2 powi 53" by simp
  with assms(1) floorLog2_less [of x 53] have e: "e < 53" by (simp add: e_def)
  then have j: "j \<le> 0" by (simp add: j_def)
  have u: "u = 1 / 2 ^ k" "0 < u" "u \<le> 1"
    using j by (simp_all add: u_def k_def power_int_def field_simps)
  have t: "x / u = x * 2 ^ k" by (simp add: u)
  have "\<bar>x\<bar> = x" using assms(1) by simp
  then have "toDouble x =
    (if 1024 \<le> e \<or> (e = 1023 \<and> \<bar>q\<bar> = 2 ^ 53) then (if 0 < x then PosInf else NegInf)
     else Fin (of_int q * u))"
    using assms(1) by (simp only: toDouble_def Let_def e_def j_def u_def q_def) simp
  with e have d: "toDouble x = Fin (of_int q * u)" by simp
  have "of_int q \<le> x / u + 1 / 2" unfolding q_def by (rule roundHalfEven_bounds)
  then have "of_int q * u \<le> (x / u + 1 / 2) * u" using u(2) by (simp only: mult_right_mono)
  also have "\<dots> = x + u / 2" using u(2) by (simp add: field_simps)
  also have "\<dots> \<le> x + 1 / 2" using u(3) by simp
  finally have hi: "of_int q * u \<le> x + 1 / 2" .
  have "of_int (\<lfloor>x\<rfloor> * 2 ^ k) \<le> x * 2 ^ k" by (simp add: mult_right_mono)
  then have "\<lfloor>x\<rfloor> * 2 ^ k \<le> \<lfloor>x / u\<rfloor>" unfolding t by (simp only: le_floor_iff)
  also have "\<dots> \<le> q" unfolding q_def by (rule roundHalfEven_floor)
  finally have "(of_int (\<lfloor>x\<rfloor> * 2 ^ k) :: rat) \<le> of_int q" by (simp only: of_int_le_iff)
  then have "of_int (\<lfloor>x\<rfloor> * 2 ^ k) * u \<le> of_int q * u" using u(2) by (simp only: mult_right_mono)
  then have lo: "of_int \<lfloor>x\<rfloor> \<le> of_int q * u" by (simp add: u)
  from d lo hi show ?thesis by blast
qed

lemma js_sub_ints:
  assumes "\<bar>a - b\<bar> \<le> 2 ^ 53"
  shows "js_sub (Fin (of_int a)) (Fin (of_int b)) = Fin (of_int (a - b))"
  using toDouble_of_int [OF assms] by (simp add: js_sub_def)

lemma js_add_ints:
  assumes "\<bar>a + b\<bar> \<le> 2 ^ 53"
  shows "js_add (Fin (of_int a)) (Fin (of_int b)) = Fin (of_int (a + b))"
  using toDouble_of_int [OF assms] by simp

lemma js_mul_ints:
  assumes "\<bar>a * b\<bar> \<le> 2 ^ 53"
  shows "js_mul (Fin (of_int a)) (Fin (of_int b)) = Fin (of_int (a * b))"
  using toDouble_of_int [OF assms] by simp

section \<open>Properties of path resolution\<close>

lemma foldl_resolve_defined:
  "r \<noteq> JUndefined \<Longrightarrow>
   foldl (\<lambda>result scope. if \<not> isUndefined result then result else lodash_get scope path) r scopes = r"
  by (induction scopes) (simp_all add: isUndefined_def)

lemma foldl_resolve_firstDefined:
  "foldl (\<lambda>result scope. if \<not> isUndefined result then result else lodash_get scope path)
     JUndefined scopes =
   (case firstDefined path scopes of None \<Rightarrow> JUndefined | Some v \<Rightarrow> v)"
proof (induction scopes)
  case Nil
  show ?case by simp
next
  case (Cons scope scopes)
  show ?case
  proof (cases "lodash_get scope path = JUndefined")
    case True
    with Cons show ?thesis by (simp add: isUndefined_def)
  next
    case False
    then show ?thesis
      using foldl_resolve_defined [of "lodash_get scope path" path scopes]
      by (simp add: isUndefined_def)
  qed
qed

lemma firstDefined_not_undefined: "firstDefined path scopes \<noteq> Some JUndefined"
  by (induction scopes) simp_all

lemma firstDefined_skip:
  "list_all (\<lambda>s. lodash_get s path = JUndefined) pre \<Longrightarrow>
   firstDefined path (pre @ rest) = firstDefined path rest"
  by (induction pre) simp_all

lemma resolve_firstDefined:
  "resolve path scopes =
   (case firstDefined path scopes of
      None \<Rightarrow> JStr []
    | Some v \<Rightarrow> (if v = JNull then JStr [] else v))"
  using firstDefined_not_undefined [of path scopes]
  by (auto simp: resolve_def foldl_resolve_firstDefined nullish_def split: option.splits)

text \<open>
  C7, as the specification states it: \<open>resolve\<close> returns the value of the first scope in
  which the path resolves to a defined value. This fails when that value is \<^verbatim>\<open>null\<close>: the
  scope \<^verbatim>\<open>{a: null}\<close> defines \<^verbatim>\<open>a\<close>, and \<open>resolve\<close> returns the empty string, not \<^verbatim>\<open>null\<close>.
\<close>

theorem resolve_first_defined_counterexample:
  "firstDefined ''a'' [JObj [(''a'', JNull)]] = Some JNull
   \<and> resolve ''a'' [JObj [(''a'', JNull)]] = JStr []"
  by (simp add: resolve_def lodash_get_def castPath_def nullish_def isUndefined_def)

text \<open>
  C7, amended: \<open>resolve\<close> returns the value of the first scope in which the path resolves
  to a value other than \<^verbatim>\<open>undefined\<close> (earlier scopes shadow later ones), except that
  \<^verbatim>\<open>null\<close> is returned as the empty string; when the path is \<^verbatim>\<open>undefined\<close> in every scope the
  result is the empty string. The result is never \<^verbatim>\<open>undefined\<close> or \<^verbatim>\<open>null\<close>.
\<close>

theorem resolve_first_defined:
  "resolve path scopes =
     (case firstDefined path scopes of
        None \<Rightarrow> JStr []
      | Some v \<Rightarrow> (if v = JNull then JStr [] else v))
   \<and> (list_all (\<lambda>s. lodash_get s path = JUndefined) scopes \<longrightarrow> resolve path scopes = JStr [])
   \<and> resolve path scopes \<noteq> JUndefined \<and> resolve path scopes \<noteq> JNull"
proof -
  have a: "resolve path scopes =
     (case firstDefined path scopes of
        None \<Rightarrow> JStr []
      | Some v \<Rightarrow> (if v = JNull then JStr [] else v))"
    by (rule resolve_firstDefined)
  have b: "list_all (\<lambda>s. lodash_get s path = JUndefined) scopes \<longrightarrow> resolve path scopes = JStr []"
    using firstDefined_skip [of path scopes "[]"] by (simp add: a)
  have c: "resolve path scopes \<noteq> JUndefined \<and> resolve path scopes \<noteq> JNull"
    using firstDefined_not_undefined [of path scopes] by (auto simp: a split: option.splits)
  from a b c show ?thesis by blast
qed

theorem resolve_first_defined_witness:
  "resolve ''name'' [JObj [(''age'', JNum (Fin 25))],
                     JObj [(''name'', JStr ''Local'')],
                     JObj [(''name'', JStr ''Root'')]] = JStr ''Local''
   \<and> resolve ''name'' [JObj [(''age'', JNum (Fin 25))]] = JStr []"
proof -
  have 1: "firstDefined ''name'' [JObj [(''age'', JNum (Fin 25))],
                     JObj [(''name'', JStr ''Local'')],
                     JObj [(''name'', JStr ''Root'')]] = Some (JStr ''Local'')"
    by (simp add: lodash_get_def castPath_def)
  have 2: "list_all (\<lambda>s. lodash_get s ''name'' = JUndefined) [JObj [(''age'', JNum (Fin 25))]]"
    by (simp add: lodash_get_def castPath_def)
  show ?thesis
    using resolve_first_defined [of "''name''" "[JObj [(''age'', JNum (Fin 25))],
                     JObj [(''name'', JStr ''Local'')],
                     JObj [(''name'', JStr ''Root'')]]"]
      resolve_first_defined [of "''name''" "[JObj [(''age'', JNum (Fin 25))]]"] 1 2
    by simp
qed

text \<open>
  C10: when the first scope that defines the path holds \<^verbatim>\<open>null\<close>, \<open>resolve\<close> returns the
  empty string whatever the later scopes hold, and \<open>resolve\<close> returns \<^verbatim>\<open>null\<close> on no input.
\<close>

theorem resolve_null_shadows:
  assumes "list_all (\<lambda>s. lodash_get s path = JUndefined) pre"
    and "lodash_get scope path = JNull"
  shows "resolve path (pre @ scope # post) = JStr [] \<and> (\<forall>p ss. resolve p ss \<noteq> JNull)"
proof -
  have "firstDefined path (pre @ scope # post) = Some JNull"
    using assms by (simp add: firstDefined_skip)
  then have a: "resolve path (pre @ scope # post) = JStr []"
    by (simp add: resolve_firstDefined)
  have b: "\<forall>p ss. resolve p ss \<noteq> JNull"
  proof (intro allI)
    fix p ss
    show "resolve p ss \<noteq> JNull"
      using firstDefined_not_undefined [of p ss]
      by (auto simp: resolve_firstDefined split: option.splits)
  qed
  from a b show ?thesis by blast
qed

theorem resolve_null_shadows_witness:
  "resolve ''a.b'' ([JObj [(''c'', JNum (Fin 1))]] @ JObj [(''a'', JObj [(''b'', JNull)])]
                     # [JObj [(''a'', JObj [(''b'', JNum (Fin 7))])]]) = JStr []"
proof -
  have 1: "list_all (\<lambda>s. lodash_get s ''a.b'' = JUndefined) [JObj [(''c'', JNum (Fin 1))]]"
    by (simp add: lodash_get_def castPath_def)
  have 2: "lodash_get (JObj [(''a'', JObj [(''b'', JNull)])]) ''a.b'' = JNull"
    by (simp add: lodash_get_def castPath_def)
  show ?thesis
    using resolve_null_shadows [OF 1 2, of "[JObj [(''a'', JObj [(''b'', JNum (Fin 7))])]]"]
    by blast
qed

section \<open>Properties of column addresses\<close>

lemma js_rem_26:
  assumes "0 \<le> a"
  shows "js_rem (Fin (of_int a)) (Fin 26) = Fin (of_int (a mod 26))"
proof -
  have "\<lfloor>(of_int a :: rat) / 26\<rfloor> = a div 26"
    using floor_divide_of_int_eq [of a 26, where ?'a = rat] by simp
  moreover have "a mod 26 = a - 26 * (a div 26)" by (simp add: minus_mult_div_eq_mod)
  ultimately show ?thesis using assms by (simp add: trunc_def)
qed

lemma floor_div_26:
  assumes "0 \<le> k" and "26 * k + 1 \<le> 2 ^ 53"
  shows "Math_floor (js_div (Fin (of_int (26 * k + 1))) (Fin 26)) = Fin (of_int k)"
proof -
  define x :: rat where "x = of_int (26 * k + 1) / 26"
  have x: "x = of_int k + 1 / 26" by (simp add: x_def field_simps)
  have "0 < x" using assms(1) by (simp add: x)
  moreover have "x < 2 ^ 53"
  proof -
    have "(of_int (26 * k + 1) :: rat) \<le> of_int (2 ^ 53)"
      using assms(2) by (simp only: of_int_le_iff)
    then show ?thesis by (simp add: x_def)
  qed
  ultimately obtain y where y: "toDouble x = Fin y" "of_int \<lfloor>x\<rfloor> \<le> y" "y \<le> x + 1 / 2"
    using toDouble_floor by blast
  have "\<lfloor>x\<rfloor> = k" unfolding x by (rule floor_unique) simp_all
  with y have "of_int k \<le> y" "y < of_int k + 1" by (simp_all add: x)
  then have "\<lfloor>y\<rfloor> = k" by (rule floor_unique)
  with y(1) show ?thesis by (simp add: x_def)
qed

lemma String_fromCharCode_int:
  "0 \<le> c \<Longrightarrow> c < 65536 \<Longrightarrow> String_fromCharCode (Fin (of_int c)) = char_of c"
  by (simp add: String_fromCharCode_def trunc_def)

lemma columnNumberToLetter_loop_step:
  assumes "0 < n" and "n \<le> 2 ^ 53"
  shows "columnNumberToLetter_loop (Fin (of_int n)) letter =
         columnNumberToLetter_loop (Fin (of_int ((n - 1) div 26)))
           (char_of (65 + (n - 1) mod 26) # letter)"
proof -
  define m where "m = (n - 1) mod 26"
  define k where "k = (n - 1) div 26"
  have m: "0 \<le> m" "m < 26" by (simp_all add: m_def)
  have k: "0 \<le> k" using assms(1) by (simp add: k_def pos_imp_zdiv_nonneg_iff)
  have n: "n - 1 = 26 * k + m" by (simp add: k_def m_def)
  have 1: "js_sub (Fin (of_int n)) (Fin 1) = Fin (of_int (n - 1))"
    using js_sub_ints [of n 1] assms by simp
  have 2: "js_rem (Fin (of_int (n - 1))) (Fin 26) = Fin (of_int m)"
    using js_rem_26 [of "n - 1"] assms(1) by (simp add: m_def)
  have 3: "js_sub (Fin (of_int n)) (Fin (of_int m)) = Fin (of_int (26 * k + 1))"
    using js_sub_ints [of n m] assms m n by simp
  have 4: "Math_floor (js_div (Fin (of_int (26 * k + 1))) (Fin 26)) = Fin (of_int k)"
    using floor_div_26 [OF k] assms m n by simp
  have 5: "js_add (Fin 65) (Fin (of_int m)) = Fin (of_int (65 + m))"
    using js_add_ints [of 65 m] m by simp
  have 6: "String_fromCharCode (Fin (of_int (65 + m))) = char_of (65 + m)"
    using m by (intro String_fromCharCode_int) simp_all
  show ?thesis
    using assms(1)
    by (subst columnNumberToLetter_loop.simps)
       (simp only: 1 2 3 4 5 6 Let_def js_lt.simps of_int_0_less_iff if_True m_def [symmetric]
          k_def [symmetric])
qed

lemma columnLetterToNumber_loop:
  "0 \<le> n \<Longrightarrow> n \<le> 2 ^ 53 \<Longrightarrow>
   foldl (\<lambda>num c. js_add (js_mul num (Fin 26)) (js_sub (Fin (of_char c)) (Fin 64))) (Fin 0)
     (toUpperCase (columnNumberToLetter_loop (Fin (of_int n)) letter)) =
   foldl (\<lambda>num c. js_add (js_mul num (Fin 26)) (js_sub (Fin (of_char c)) (Fin 64)))
     (Fin (of_int n)) (toUpperCase letter)"
proof (induction "nat n" arbitrary: n letter rule: less_induct)
  case less
  show ?case
  proof (cases "n = 0")
    case True
    then show ?thesis by (subst columnNumberToLetter_loop.simps) simp
  next
    case False
    with less.prems have pos: "0 < n" by simp
    define m where "m = (n - 1) mod 26"
    define k where "k = (n - 1) div 26"
    have m: "0 \<le> m" "m < 26" by (simp_all add: m_def)
    have k: "0 \<le> k" using pos by (simp add: k_def pos_imp_zdiv_nonneg_iff)
    have n: "n - 1 = 26 * k + m" by (simp add: k_def m_def)
    then have kn: "k < n" using m k by linarith
    have up: "toUpperChar (char_of (65 + m)) = char_of (65 + m)"
      using m by (simp add: toUpperChar_def)
    have "(of_char (char_of (65 + m)) :: int) = 65 + m" using m by simp
    then have "(of_int (of_char (char_of (65 + m))) :: rat) = of_int (65 + m)" by (simp only:)
    then have code: "(of_char (char_of (65 + m)) :: rat) = of_int (65 + m)"
      by (simp only: of_int_of_char)
    have a: "js_mul (Fin (of_int k)) (Fin 26) = Fin (of_int (k * 26))"
      using js_mul_ints [of k 26] k kn less.prems n m by simp
    have b: "js_sub (Fin (of_int (65 + m))) (Fin 64) = Fin (of_int (1 + m))"
      using js_sub_ints [of "65 + m" 64] m by simp
    have c: "js_add (Fin (of_int (k * 26))) (Fin (of_int (1 + m))) = Fin (of_int n)"
      using js_add_ints [of "k * 26" "1 + m"] less.prems n m k by (simp add: algebra_simps)
    have "foldl (\<lambda>num c. js_add (js_mul num (Fin 26)) (js_sub (Fin (of_char c)) (Fin 64))) (Fin 0)
            (toUpperCase (columnNumberToLetter_loop (Fin (of_int k)) (char_of (65 + m) # letter))) =
          foldl (\<lambda>num c. js_add (js_mul num (Fin 26)) (js_sub (Fin (of_char c)) (Fin 64)))
            (Fin (of_int k)) (toUpperCase (char_of (65 + m) # letter))"
      using less.hyps [of k] k kn less.prems by simp
    also have "\<dots> = foldl (\<lambda>num c. js_add (js_mul num (Fin 26)) (js_sub (Fin (of_char c)) (Fin 64)))
            (Fin (of_int n)) (toUpperCase letter)"
      by (simp only: toUpperCase_def list.map foldl.simps up code a b c)
    finally show ?thesis
      using columnNumberToLetter_loop_step [OF pos less.prems(2), of letter]
      by (simp add: m_def k_def)
  qed
qed

text \<open>
  C9, as the specification states it: for every positive integer \<open>n\<close> the round trip gives
  \<open>n\<close> again. The positive integer \<open>2^53 + 2 = 9007199254740994\<close> is a double. In the first round
  of \<open>columnNumberToLetter\<close> the difference \<^verbatim>\<open>num - 1\<close> is rounded to \<open>2^53\<close>, the letters are
  \<^verbatim>\<open>BKTXHSOGHKKG\<close>, which denote \<open>2^53 + 1\<close>, and the last addition of \<open>columnLetterToNumber\<close>
  rounds that to \<open>2^53 = 9007199254740992\<close>.
\<close>

theorem column_round_trip_counterexample:
  "columnNumberToLetter (Fin 9007199254740994) = ''BKTXHSOGHKKG''
   \<and> columnLetterToNumber ''BKTXHSOGHKKG'' = Fin 9007199254740992"
  by code_simp

text \<open>
  C9, amended: for every positive integer \<open>n\<close> up to \<open>2^53\<close>, converting \<open>n\<close> to a column
  letter with \<open>columnNumberToLetter\<close> and back with \<open>columnLetterToNumber\<close> yields \<open>n\<close> again.
\<close>

theorem column_round_trip:
  "0 < n \<Longrightarrow> n \<le> 2 ^ 53 \<Longrightarrow>
   columnLetterToNumber (columnNumberToLetter (Fin (of_int n))) = Fin (of_int n)"
  using columnLetterToNumber_loop [of n "[]"]
  by (simp add: columnLetterToNumber_def columnNumberToLetter_def toUpperCase_def)

theorem column_round_trip_witness:
  "columnNumberToLetter (Fin 703) = ''AAA''
   \<and> columnLetterToNumber (columnNumberToLetter (Fin 703)) = Fin 703"
proof -
  have "columnNumberToLetter (Fin 703) = ''AAA''"
    by code_simp
  then show ?thesis using column_round_trip [of 703] by simp
qed

section \<open>Properties of hide offsets\<close>

lemma calculateHideOffset_loop_sum:
  "calculateHideOffset_loop i es j offset =
   offset + sum_list (map he_rowsInserted
      (filter (\<lambda>e. he_insertedAt e < he_insertedAt (es ! i) \<and> he_rowsInserted e > 0) (drop j es)))"
proof (induction i es j offset rule: calculateHideOffset_loop.induct)
  case (1 i es j offset)
  show ?case
  proof (cases "j < length es")
    case True
    then have d: "drop j es = es ! j # drop (j + 1) es"
      by (simp add: Cons_nth_drop_Suc)
    show ?thesis
      using True 1
      by (subst calculateHideOffset_loop.simps) (simp add: d Let_def)
  next
    case False
    then show ?thesis
      by (subst calculateHideOffset_loop.simps) simp
  qed
qed

lemma calculateHideOffset_sum:
  "calculateHideOffset i es = sum_list (map he_rowsInserted (laterAbove i es))"
  by (simp add: calculateHideOffset_def calculateHideOffset_loop_sum laterAbove_def)

lemma finalRow_above:
  "\<forall>e \<in> set later. he_insertedAt e < a \<and> 0 \<le> he_rowsInserted e \<Longrightarrow> a \<le> r \<Longrightarrow>
   finalRow later r =
   r + sum_list (map he_rowsInserted (filter (\<lambda>e. he_insertedAt e < a \<and> he_rowsInserted e > 0) later))"
proof (induction later arbitrary: r)
  case Nil
  show ?case by (simp add: finalRow_def)
next
  case (Cons e later)
  have e: "he_insertedAt e < a" "0 \<le> he_rowsInserted e" using Cons.prems by simp_all
  have "finalRow (e # later) r = finalRow later (r + he_rowsInserted e)"
    using e Cons.prems(2) by (simp add: finalRow_def shiftRow_def)
  also have "\<dots> = r + he_rowsInserted e +
      sum_list (map he_rowsInserted (filter (\<lambda>e. he_insertedAt e < a \<and> he_rowsInserted e > 0) later))"
    using Cons.IH [of "r + he_rowsInserted e"] Cons.prems e by simp
  finally show ?case using e by auto
qed

lemma sorted_later_above:
  "sorted_wrt (>) (map he_insertedAt es) \<Longrightarrow> i < length es \<Longrightarrow>
   \<forall>e \<in> set (drop (i + 1) es). he_insertedAt e < he_insertedAt (es ! i)"
proof -
  assume s: "sorted_wrt (>) (map he_insertedAt es)" and i: "i < length es"
  show ?thesis
  proof
    fix e assume "e \<in> set (drop (i + 1) es)"
    then obtain k where k: "k < length (drop (i + 1) es)" "e = drop (i + 1) es ! k"
      by (auto simp: in_set_conv_nth)
    then have "e = es ! (i + 1 + k)" "i + 1 + k < length es" by simp_all
    with s i have "map he_insertedAt es ! i > map he_insertedAt es ! (i + 1 + k)"
      by (simp add: sorted_wrt_iff_nth_less)
    with \<open>e = es ! (i + 1 + k)\<close> \<open>i + 1 + k < length es\<close> i show "he_insertedAt e < he_insertedAt (es ! i)"
      by simp
  qed
qed

text \<open>
  C3, as the specification states it: the offset of an entry sums the insertion counts of
  the entries above it and strictly before it in processing order. With a table of two
  elements anchored at row 10 (processed first) and a table of three elements anchored at
  row 5 (processed second), the code gives the first entry the offset 3, the count of the
  entry processed after it; the entries before it sum to 0.
\<close>

theorem hide_offset_counterexample:
  "calculateHideOffset 0
     [\<lparr>he_rows = [12, 13], he_insertedAt = 10, he_rowsInserted = 2\<rparr>,
      \<lparr>he_rows = [8, 9], he_insertedAt = 5, he_rowsInserted = 3\<rparr>] = 3
   \<and> specHideOffset 0
     [\<lparr>he_rows = [12, 13], he_insertedAt = 10, he_rowsInserted = 2\<rparr>,
      \<lparr>he_rows = [8, 9], he_insertedAt = 5, he_rowsInserted = 3\<rparr>] = 0"
  by (simp add: calculateHideOffset_sum laterAbove_def specHideOffset_def)

text \<open>
  C3, amended: the offset of an entry is the sum of the insertion counts of every other
  entry whose anchor is above it (smaller anchor row) and strictly after it in processing
  order. When the anchors are on distinct rows and processed bottom-to-top, adding the
  offset to a row at or below the entry's anchor gives the row's position after all later
  insertions.
\<close>

theorem hide_offset_later_above:
  "calculateHideOffset i es = sum_list (map he_rowsInserted (laterAbove i es))
   \<and> (sorted_wrt (>) (map he_insertedAt es) \<and> i < length es
        \<and> (\<forall>e \<in> set es. 0 \<le> he_rowsInserted e) \<and> he_insertedAt (es ! i) \<le> r
      \<longrightarrow> finalRow (drop (i + 1) es) r = r + calculateHideOffset i es)"
proof -
  have a: "calculateHideOffset i es = sum_list (map he_rowsInserted (laterAbove i es))"
    by (rule calculateHideOffset_sum)
  have b: "finalRow (drop (i + 1) es) r = r + calculateHideOffset i es"
    if s: "sorted_wrt (>) (map he_insertedAt es)" and i: "i < length es"
      and n: "\<forall>e \<in> set es. 0 \<le> he_rowsInserted e" and r: "he_insertedAt (es ! i) \<le> r"
  proof -
    have "\<forall>e \<in> set (drop (i + 1) es). he_insertedAt e < he_insertedAt (es ! i) \<and> 0 \<le> he_rowsInserted e"
      using sorted_later_above [OF s i] n by (auto dest: in_set_dropD)
    from finalRow_above [OF this r] show ?thesis
      by (simp add: a laterAbove_def)
  qed
  from a b show ?thesis by blast
qed

theorem hide_offset_later_above_witness:
  "finalRow (drop (0 + 1)
     [\<lparr>he_rows = [12, 13], he_insertedAt = 10, he_rowsInserted = 2\<rparr>,
      \<lparr>he_rows = [8, 9], he_insertedAt = 5, he_rowsInserted = 3\<rparr>]) 12 = 12 + 3"
  using hide_offset_later_above [of 0 "[\<lparr>he_rows = [12, 13], he_insertedAt = 10, he_rowsInserted = 2\<rparr>,
      \<lparr>he_rows = [8, 9], he_insertedAt = 5, he_rowsInserted = 3\<rparr>]" 12]
  by (simp add: laterAbove_def)

section \<open>Properties of formula rendering\<close>

lemma foldl_js_add_ints:
  "\<bar>a\<bar> + sum_list (map abs ks) \<le> 2 ^ 53 \<Longrightarrow>
   foldl js_add (Fin (of_int a)) (map (\<lambda>k. Fin (of_int k)) ks) = Fin (of_int (a + sum_list ks))"
proof (induction ks arbitrary: a)
  case Nil
  show ?case by simp
next
  case (Cons k ks)
  have "\<bar>a + k\<bar> \<le> \<bar>a\<bar> + \<bar>k\<bar>" by (rule abs_triangle_ineq)
  moreover have "0 \<le> sum_list (map abs ks)" by (rule sum_list_nonneg) auto
  ultimately have b: "\<bar>a + k\<bar> \<le> 2 ^ 53" "\<bar>a + k\<bar> + sum_list (map abs ks) \<le> 2 ^ 53"
    using Cons.prems by simp_all
  have "foldl js_add (Fin (of_int a)) (map (\<lambda>k. Fin (of_int k)) (k # ks)) =
        foldl js_add (js_add (Fin (of_int a)) (Fin (of_int k))) (map (\<lambda>k. Fin (of_int k)) ks)"
    by (simp only: list.map foldl.simps)
  also have "\<dots> = foldl js_add (Fin (of_int (a + k))) (map (\<lambda>k. Fin (of_int k)) ks)"
    by (simp only: js_add_ints [OF b(1)])
  also have "\<dots> = Fin (of_int (a + k + sum_list ks))"
    by (rule Cons.IH [OF b(2)])
  finally show ?case by (simp add: add.assoc)
qed

lemma lodash_sum_ints:
  assumes "sum_list (map abs ks) \<le> 2 ^ 53"
  shows "lodash_sum (map (\<lambda>k. Fin (of_int k)) ks) = Fin (of_int (sum_list ks))"
proof (cases ks)
  case Nil
  then show ?thesis by (simp add: lodash_sum_def)
next
  case (Cons k list)
  with assms have "\<bar>k\<bar> + sum_list (map abs list) \<le> 2 ^ 53" by simp
  from foldl_js_add_ints [OF this] Cons show ?thesis by (simp add: lodash_sum_def)
qed

lemma lodash_mean_ints:
  assumes "sum_list (map abs ks) \<le> 2 ^ 53" and "ks \<noteq> []"
  shows "lodash_mean (map (\<lambda>k. Fin (of_int k)) ks) =
         toDouble (of_int (sum_list ks) / of_nat (length ks))"
  using assms by (simp add: lodash_mean_def lodash_sum_ints)

lemma baseExtremum_min_Fin:
  "foldl (\<lambda>computed current.
              (case computed of
                 None \<Rightarrow> (if current \<noteq> NaN then Some current else None)
               | Some c \<Rightarrow> (if js_lt current c then Some current else computed)))
       (Some (Fin a)) (map Fin rs) = Some (Fin (fold min rs a))"
  by (induction rs arbitrary: a) (simp_all add: min_def)

lemma baseExtremum_max_Fin:
  "foldl (\<lambda>computed current.
              (case computed of
                 None \<Rightarrow> (if current \<noteq> NaN then Some current else None)
               | Some c \<Rightarrow> (if js_lt c current then Some current else computed)))
       (Some (Fin a)) (map Fin rs) = Some (Fin (fold max rs a))"
  by (induction rs arbitrary: a) (simp_all add: max_def)

lemma lodash_min_Fin:
  assumes "rs \<noteq> []"
  shows "lodash_min (map Fin rs) = Some (Fin (Min (set rs)))"
proof (cases rs)
  case Nil
  with assms show ?thesis by simp
next
  case (Cons a list)
  then show ?thesis
    using Min.set_eq_fold [of a list]
    by (simp add: lodash_min_def baseExtremum_def baseExtremum_min_Fin)
qed

lemma lodash_max_Fin:
  assumes "rs \<noteq> []"
  shows "lodash_max (map Fin rs) = Some (Fin (Max (set rs)))"
proof (cases rs)
  case Nil
  with assms show ?thesis by simp
next
  case (Cons a list)
  then show ?thesis
    using Max.set_eq_fold [of a list]
    by (simp add: lodash_max_def baseExtremum_def baseExtremum_max_Fin)
qed

text \<open>
  C2, as the specification states it: an unknown formula type gives an \<^verbatim>\<open>#ERROR:\<close> string in
  the table-referencing branch and in the data-fallback branch alike. With a valid table and
  the column \<^verbatim>\<open>C\<close>, the type \<^verbatim>\<open>MEDIAN\<close> gives the formula object \<^verbatim>\<open>MEDIAN(C5:C10)\<close>; without a
  table and with an empty array it gives the number 0.
\<close>

theorem renderFormula_unknown_type_counterexample:
  "renderFormula ''MEDIAN'' (Some ''C'') None None
     (Some \<lparr>ti_startRow = 5, ti_endRow = 10, ti_path = ''items'', ti_fieldColumnMap = []\<rparr>) (JObj [])
     = formulaObject ''MEDIAN(C5:C10)''
   \<and> renderFormula ''MEDIAN'' None (Some ''price'') (Some ''items'') None
       (JObj [(''items'', JArr [])]) = JNum (Fin 0)"
  by code_simp

text \<open>
  C2, amended: for every formula type outside SUM, AVERAGE, COUNT, MIN, MAX,
  \<open>renderFormula\<close> returns the string \<^verbatim>\<open>#ERROR: Unknown formula type: <type>\<close> in the data-fallback
  branch whenever the array holds at least one value coercible to a number; in the
  table-referencing branch the type is not checked, and a given column yields the formula
  object \<^verbatim>\<open><type>(<column><startRow>:<column><endRow>)\<close>.
\<close>

theorem renderFormula_unknown_type:
  assumes "formulaType \<notin> {''SUM'', ''AVERAGE'', ''COUNT'', ''MIN'', ''MAX''}"
  shows "(\<not> validTableInfo tableInfo \<and> ap \<noteq> [] \<and> fn \<noteq> [] \<and> lodash_get data ap = JArr arr
            \<and> filter (\<lambda>v. \<not> isNaN v) (map (coerceField fn) arr) \<noteq> []
          \<longrightarrow> renderFormula formulaType column (Some fn) (Some ap) tableInfo data
                = JStr (''#ERROR: Unknown formula type: '' @ formulaType))
       \<and> (ti_startRow ti > 0 \<and> ti_endRow ti > 0 \<and> c \<noteq> []
          \<longrightarrow> renderFormula formulaType (Some c) fieldName arrayPath (Some ti) data
                = formulaObject (formulaType @ ''('' @ c @ showInt (ti_startRow ti) @ '':''
                                   @ c @ showInt (ti_endRow ti) @ '')''))"
proof -
  have a: "renderFormula formulaType column (Some fn) (Some ap) tableInfo data
                = JStr (''#ERROR: Unknown formula type: '' @ formulaType)"
    if "\<not> validTableInfo tableInfo" "ap \<noteq> []" "fn \<noteq> []" "lodash_get data ap = JArr arr"
       "filter (\<lambda>v. \<not> isNaN v) (map (coerceField fn) arr) \<noteq> []"
  proof -
    from that(5) have "arr \<noteq> []" by auto
    with that assms show ?thesis
      by (simp add: renderFormula_def UNKNOWN_FORMULA_TYPE_def)
  qed
  have b: "renderFormula formulaType (Some c) fieldName arrayPath (Some ti) data
                = formulaObject (formulaType @ ''('' @ c @ showInt (ti_startRow ti) @ '':''
                                   @ c @ showInt (ti_endRow ti) @ '')'')"
    if "ti_startRow ti > 0" "ti_endRow ti > 0" "c \<noteq> []"
    using that by (simp add: renderFormula_def)
  from a b show ?thesis by blast
qed

theorem renderFormula_unknown_type_witness:
  "renderFormula ''MEDIAN'' None (Some ''price'') (Some ''items'') None
     (JObj [(''items'', JArr [JObj [(''price'', JNum (Fin 10))]])])
     = JStr ''#ERROR: Unknown formula type: MEDIAN''
   \<and> renderFormula ''MEDIAN'' (Some ''C'') None None
       (Some \<lparr>ti_startRow = 5, ti_endRow = 10, ti_path = ''items'', ti_fieldColumnMap = []\<rparr>)
       (JObj [(''items'', JArr [JObj [(''price'', JNum (Fin 10))]])])
     = formulaObject (''MEDIAN'' @ ''('' @ ''C'' @ showInt 5 @ '':'' @ ''C'' @ showInt 10 @ '')'')"
proof -
  have t: "''MEDIAN'' \<notin> {''SUM'', ''AVERAGE'', ''COUNT'', ''MIN'', ''MAX''}" by simp
  have g: "lodash_get (JObj [(''items'', JArr [JObj [(''price'', JNum (Fin 10))]])]) ''items''
             = JArr [JObj [(''price'', JNum (Fin 10))]]"
    by (simp add: lodash_get_def castPath_def)
  have f: "filter (\<lambda>v. \<not> isNaN v) (map (coerceField ''price'') [JObj [(''price'', JNum (Fin 10))]]) \<noteq> []"
    by (simp add: coerceField_def lodash_get_def castPath_def isNaN_def)
  note th = renderFormula_unknown_type [OF t, where tableInfo = None and ap = "''items''"
        and fn = "''price''" and data = "JObj [(''items'', JArr [JObj [(''price'', JNum (Fin 10))]])]"
        and arr = "[JObj [(''price'', JNum (Fin 10))]]" and column = None
        and ti = "\<lparr>ti_startRow = 5, ti_endRow = 10, ti_path = ''items'', ti_fieldColumnMap = []\<rparr>"
        and c = "''C''" and fieldName = None and arrayPath = None]
  have 1: "renderFormula ''MEDIAN'' None (Some ''price'') (Some ''items'') None
     (JObj [(''items'', JArr [JObj [(''price'', JNum (Fin 10))]])])
     = JStr ''#ERROR: Unknown formula type: MEDIAN''"
    using th [THEN conjunct1] g f by simp
  have 2: "renderFormula ''MEDIAN'' (Some ''C'') None None
       (Some \<lparr>ti_startRow = 5, ti_endRow = 10, ti_path = ''items'', ti_fieldColumnMap = []\<rparr>)
       (JObj [(''items'', JArr [JObj [(''price'', JNum (Fin 10))]])])
     = formulaObject (''MEDIAN'' @ ''('' @ ''C'' @ showInt 5 @ '':'' @ ''C'' @ showInt 10 @ '')'')"
    using th [THEN conjunct2] by simp
  from 1 2 show ?thesis by blast
qed

text \<open>
  C6: without a valid table context and with both \<open>arrayPath\<close> and \<open>fieldName\<close>,
  \<open>renderFormula\<close> reads \<open>arrayPath\<close> from the root data; anything but a non-empty array gives
  the number 0; otherwise each element's field is coerced (numbers pass through, strings
  that are non-empty after trimming and numeric are converted, everything else is dropped)
  and the values are aggregated, an empty list of values giving 0. The sum is the sum of
  doubles from the left, the average is that sum divided by the count, minimum and maximum
  of finite values are the least and the greatest of them. For integer values whose
  magnitudes add up to at most \<open>2^53\<close> no addition rounds, and the sum is the exact sum. For
  \<^verbatim>\<open>items = [{price: 10}, {price: 20}, {price: 30}]\<close>, \<^verbatim>\<open>SUM items.price\<close> is the number 60; for the
  prices \<^verbatim>\<open>"0.1"\<close> and \<^verbatim>\<open>"0.2"\<close> it is the double \<^verbatim>\<open>0.30000000000000004\<close>.
\<close>

theorem renderFormula_fallback:
  assumes "\<not> validTableInfo tableInfo" and "ap \<noteq> []" and "fn \<noteq> []"
  shows "((\<forall>arr. lodash_get data ap = JArr arr \<longrightarrow> arr = [])
           \<longrightarrow> renderFormula formulaType column (Some fn) (Some ap) tableInfo data = JNum (Fin 0))
       \<and> (lodash_get data ap = JArr arr
            \<and> filter (\<lambda>v. \<not> isNaN v) (map (coerceField fn) arr) = []
           \<longrightarrow> renderFormula formulaType column (Some fn) (Some ap) tableInfo data = JNum (Fin 0))
       \<and> (lodash_get data ap = JArr arr
            \<and> filter (\<lambda>v. \<not> isNaN v) (map (coerceField fn) arr) = v # vs
           \<longrightarrow> renderFormula ''SUM'' column (Some fn) (Some ap) tableInfo data
                 = JNum (foldl js_add v vs)
             \<and> renderFormula ''AVERAGE'' column (Some fn) (Some ap) tableInfo data
                 = JNum (js_div (foldl js_add v vs) (Fin (of_nat (length (v # vs)))))
             \<and> renderFormula ''COUNT'' column (Some fn) (Some ap) tableInfo data
                 = JNum (Fin (of_nat (length (v # vs)))))
       \<and> (lodash_get data ap = JArr arr
            \<and> filter (\<lambda>v. \<not> isNaN v) (map (coerceField fn) arr) = map Fin rs \<and> rs \<noteq> []
           \<longrightarrow> renderFormula ''MIN'' column (Some fn) (Some ap) tableInfo data
                 = JNum (Fin (Min (set rs)))
             \<and> renderFormula ''MAX'' column (Some fn) (Some ap) tableInfo data
                 = JNum (Fin (Max (set rs))))
       \<and> (lodash_get data ap = JArr arr
            \<and> filter (\<lambda>v. \<not> isNaN v) (map (coerceField fn) arr) = map (\<lambda>k. Fin (of_int k)) ks
            \<and> ks \<noteq> [] \<and> sum_list (map abs ks) \<le> 2 ^ 53
           \<longrightarrow> renderFormula ''SUM'' column (Some fn) (Some ap) tableInfo data
                 = JNum (Fin (of_int (sum_list ks)))
             \<and> renderFormula ''AVERAGE'' column (Some fn) (Some ap) tableInfo data
                 = JNum (toDouble (of_int (sum_list ks) / of_nat (length ks))))
       \<and> (\<forall>item. coerceField fn item =
             (case lodash_get item fn of
                JNum n \<Rightarrow> n
              | JStr s \<Rightarrow> (if trim s \<noteq> [] \<and> Number_of_string s \<noteq> NaN
                           then Number_of_string s else NaN)
              | _ \<Rightarrow> NaN))"
proof -
  have a: "renderFormula formulaType column (Some fn) (Some ap) tableInfo data = JNum (Fin 0)"
    if "\<forall>arr. lodash_get data ap = JArr arr \<longrightarrow> arr = []"
    using that assms by (cases "lodash_get data ap") (simp_all add: renderFormula_def)
  have b: "renderFormula formulaType column (Some fn) (Some ap) tableInfo data = JNum (Fin 0)"
    if "lodash_get data ap = JArr arr" "filter (\<lambda>v. \<not> isNaN v) (map (coerceField fn) arr) = []"
    using that assms by (simp add: renderFormula_def)
  have c: "renderFormula ''SUM'' column (Some fn) (Some ap) tableInfo data
                 = JNum (foldl js_add v vs)
             \<and> renderFormula ''AVERAGE'' column (Some fn) (Some ap) tableInfo data
                 = JNum (js_div (foldl js_add v vs) (Fin (of_nat (length (v # vs)))))
             \<and> renderFormula ''COUNT'' column (Some fn) (Some ap) tableInfo data
                 = JNum (Fin (of_nat (length (v # vs))))"
    if g: "lodash_get data ap = JArr arr"
      and f: "filter (\<lambda>v. \<not> isNaN v) (map (coerceField fn) arr) = v # vs"
  proof -
    from f have ne: "arr \<noteq> []" by auto
    show ?thesis
      using assms g f ne by (simp add: renderFormula_def lodash_sum_def lodash_mean_def)
  qed
  have d: "renderFormula ''MIN'' column (Some fn) (Some ap) tableInfo data
                 = JNum (Fin (Min (set rs)))
             \<and> renderFormula ''MAX'' column (Some fn) (Some ap) tableInfo data
                 = JNum (Fin (Max (set rs)))"
    if g: "lodash_get data ap = JArr arr"
      and f: "filter (\<lambda>v. \<not> isNaN v) (map (coerceField fn) arr) = map Fin rs" and r: "rs \<noteq> []"
  proof -
    from f r have ne: "arr \<noteq> []" by auto
    show ?thesis
      using assms g f r ne by (simp add: renderFormula_def lodash_min_Fin lodash_max_Fin)
  qed
  have e: "renderFormula ''SUM'' column (Some fn) (Some ap) tableInfo data
                 = JNum (Fin (of_int (sum_list ks)))
             \<and> renderFormula ''AVERAGE'' column (Some fn) (Some ap) tableInfo data
                 = JNum (toDouble (of_int (sum_list ks) / of_nat (length ks)))"
    if g: "lodash_get data ap = JArr arr"
      and f: "filter (\<lambda>v. \<not> isNaN v) (map (coerceField fn) arr) = map (\<lambda>k. Fin (of_int k)) ks"
      and k: "ks \<noteq> []" and s: "sum_list (map abs ks) \<le> 2 ^ 53"
  proof -
    from f k have ne: "arr \<noteq> []" by auto
    show ?thesis
      using assms g f k ne
      by (simp add: renderFormula_def lodash_sum_ints [OF s] lodash_mean_ints [OF s k])
  qed
  have i: "\<forall>item. coerceField fn item =
             (case lodash_get item fn of
                JNum n \<Rightarrow> n
              | JStr s \<Rightarrow> (if trim s \<noteq> [] \<and> Number_of_string s \<noteq> NaN
                           then Number_of_string s else NaN)
              | _ \<Rightarrow> NaN)"
    by (simp add: coerceField_def isNaN_def split: jsval.splits)
  from a b c d e i show ?thesis by blast
qed

theorem renderFormula_fallback_witness:
  "renderFormula ''SUM'' None (Some ''price'') (Some ''items'') None threeItems = JNum (Fin 60)
   \<and> processWorkbook sampleHost [plainSheet [[JStr ''{{#formula SUM items.price}}'']]] threeItems
       \<lparr>autoParseNumbers = False\<rparr> = Inr [plainSheet [[JNum (Fin 60)]]]
   \<and> renderFormula ''SUM'' None (Some ''price'') (Some ''items'') None
       (JObj [(''items'', JArr [JObj [(''price'', JStr ''0.1'')], JObj [(''price'', JStr ''0.2'')]])])
     = JNum (Fin (1351079888211149 / 4503599627370496))"
proof -
  have rounded: "renderFormula ''SUM'' None (Some ''price'') (Some ''items'') None
       (JObj [(''items'', JArr [JObj [(''price'', JStr ''0.1'')], JObj [(''price'', JStr ''0.2'')]])])
     = JNum (Fin (1351079888211149 / 4503599627370496))"
    by code_simp
  have cell: "processWorkbook sampleHost [plainSheet [[JStr ''{{#formula SUM items.price}}'']]]
       threeItems \<lparr>autoParseNumbers = False\<rparr> = Inr [plainSheet [[JNum (Fin 60)]]]"
    by code_simp
  have g: "lodash_get threeItems ''items'' = JArr [JObj [(''price'', JNum (Fin 10))],
                                         JObj [(''price'', JNum (Fin 20))],
                                         JObj [(''price'', JNum (Fin 30))]]"
    by (simp add: threeItems_def lodash_get_def castPath_def)
  have f: "filter (\<lambda>v. \<not> isNaN v) (map (coerceField ''price'') [JObj [(''price'', JNum (Fin 10))],
                                         JObj [(''price'', JNum (Fin 20))],
                                         JObj [(''price'', JNum (Fin 30))]])
           = map (\<lambda>k. Fin (of_int k)) [10, 20, 30]"
    by (simp add: coerceField_def lodash_get_def castPath_def isNaN_def)
  have s: "sum_list (map abs [10, 20, 30 :: int]) \<le> 2 ^ 53" by simp
  have v: "\<not> validTableInfo None" by simp
  note th = renderFormula_fallback [OF v, where ap = "''items''" and fn = "''price''"
        and data = threeItems and column = None and ks = "[10, 20, 30]"
        and arr = "[JObj [(''price'', JNum (Fin 10))], JObj [(''price'', JNum (Fin 20))],
                    JObj [(''price'', JNum (Fin 30))]]"]
  have "renderFormula ''SUM'' None (Some ''price'') (Some ''items'') None threeItems
          = JNum (Fin (of_int (sum_list [10, 20, 30])))"
    using th [THEN conjunct2, THEN conjunct2, THEN conjunct2, THEN conjunct2, THEN conjunct1]
      g f s by simp
  with cell rounded show ?thesis by simp
qed

section \<open>Properties of value rendering\<close>

lemma dropWhile_self: "xs = [] \<or> \<not> P (hd xs) \<Longrightarrow> dropWhile P xs = xs"
  by (cases xs) auto

lemma hd_dropWhile_rev:
  "rev (dropWhile P (rev u)) \<noteq> [] \<Longrightarrow> hd (rev (dropWhile P (rev u))) = hd u"
proof -
  assume ne: "rev (dropWhile P (rev u)) \<noteq> []"
  have "rev (takeWhile P (rev u) @ dropWhile P (rev u)) = u"
    by (simp only: takeWhile_dropWhile_id rev_rev_ident)
  then have "rev (dropWhile P (rev u)) @ rev (takeWhile P (rev u)) = u"
    by (simp only: rev_append)
  then have "hd u = hd (rev (dropWhile P (rev u)) @ rev (takeWhile P (rev u)))" by simp
  also from ne have "\<dots> = hd (rev (dropWhile P (rev u)))" by (rule hd_append2)
  finally show ?thesis by simp
qed

lemma trim_trim: "trim (trim s) = trim s"
proof -
  define u where "u = dropWhile isSpace s"
  define w where "w = rev (dropWhile isSpace (rev u))"
  have u: "u = [] \<or> \<not> isSpace (hd u)"
    unfolding u_def using hd_dropWhile [of isSpace s] by blast
  have w: "trim s = w" by (simp add: trim_def u_def w_def)
  have front: "dropWhile isSpace w = w"
  proof (cases "w = []")
    case True
    then show ?thesis by simp
  next
    case False
    then have "hd w = hd u" unfolding w_def by (rule hd_dropWhile_rev)
    moreover from False have "u \<noteq> []" by (auto simp: w_def)
    ultimately show ?thesis using u False by (simp add: dropWhile_self)
  qed
  have rear: "dropWhile isSpace (rev w) = rev w"
    by (simp add: w_def)
  show ?thesis
    unfolding w by (simp add: trim_def front rear)
qed

lemma isDigit_chars:
  "isDigit c \<Longrightarrow>
   c \<noteq> CHR ''x'' \<and> c \<noteq> CHR ''X'' \<and> c \<noteq> CHR ''o'' \<and> c \<noteq> CHR ''O'' \<and> c \<noteq> CHR ''b'' \<and> c \<noteq> CHR ''B''
   \<and> c \<noteq> CHR ''+'' \<and> c \<noteq> CHR ''-'' \<and> c \<noteq> CHR ''I'' \<and> c \<noteq> CHR ''.''"
  by (auto simp: isDigit_def)

lemma isoDatePart_not_numeric:
  assumes "isoDatePart t = Some r" and "trim t = t"
  shows "Number_of_string t = NaN"
proof -
  from assms(1) obtain y1 y2 y3 y4 m1 m2 d1 d2 where
    t: "t = y1 # y2 # y3 # y4 # CHR ''-'' # m1 # m2 # CHR ''-'' # d1 # d2 # r"
    and d: "isDigit y1" "isDigit y2" "isDigit y3" "isDigit y4"
    by (auto elim!: isoDatePart.elims split: if_splits)
  have nd: "\<not> isDigit (CHR ''-'')" by (simp add: isDigit_def)
  have tw: "takeWhile isDigit t = [y1, y2, y3, y4]"
    and dw: "dropWhile isDigit t = CHR ''-'' # m1 # m2 # CHR ''-'' # d1 # d2 # r"
    using d nd by (simp_all add: t)
  have nondec: "nonDecimalIntegerLiteral t = None"
    using isDigit_chars [OF d(2)] by (simp add: nonDecimalIntegerLiteral_def t)
  have inf: "t \<noteq> ''Infinity''"
    using isDigit_chars [OF d(1)] by (simp add: t)
  have "strUnsignedDecimalLiteral t = NaN"
    using inf by (simp add: strUnsignedDecimalLiteral_def tw dw exponentPart_def Let_def)
  moreover have "strDecimalLiteral t = strUnsignedDecimalLiteral t"
    using isDigit_chars [OF d(1)] by (simp add: strDecimalLiteral_def t)
  ultimately show ?thesis
    using nondec assms(2) by (simp add: Number_of_string_def stringMV_def t)
qed

lemma numeric_not_isoDate:
  "Number_of_string (trim s) \<noteq> NaN \<Longrightarrow> \<not> isoDateMatch (trim s)"
  using isoDatePart_not_numeric [of "trim s"] trim_trim [of s]
  by (auto simp: isoDateMatch_def split: option.splits)

text \<open>
  C8, as the specification states it: with \<open>autoParseNumbers\<close> a string that parses fully as
  a number is returned as a number numerically equal to it. The string \<^verbatim>\<open>9007199254740993\<close>
  denotes \<open>2^53 + 1\<close>, which no double holds: \<^verbatim>\<open>Number\<close> rounds it, and the cell gets the number
  \<open>9007199254740992\<close>.
\<close>

theorem renderValue_numeric_string_counterexample:
  "stringMV ''9007199254740993'' = Fin 9007199254740993
   \<and> renderValue sampleHost ''id'' [JObj [(''id'', JStr ''9007199254740993'')]]
       \<lparr>autoParseNumbers = True\<rparr> = Inr (JNum (Fin 9007199254740992))"
proof -
  have t: "trim ''9007199254740993'' = ''9007199254740993''"
    by (simp add: trim_def isSpace_def)
  have m: "stringMV ''9007199254740993'' = Fin 9007199254740993"
    by (simp add: stringMV_def t nonDecimalIntegerLiteral_def strDecimalLiteral_def
          strUnsignedDecimalLiteral_def exponentPart_def scale10_def isDigit_def digitsVal_def
          digitVal_def)
  have d: "toDouble 9007199254740993 = Fin 9007199254740992"
    by code_simp
  have n: "Number_of_string ''9007199254740993'' = Fin 9007199254740992"
    by (simp add: Number_of_string_def m d)
  have r: "resolve ''id'' [JObj [(''id'', JStr ''9007199254740993'')]] = JStr ''9007199254740993''"
    by (simp add: resolve_def lodash_get_def castPath_def nullish_def isUndefined_def)
  have "renderValue sampleHost ''id'' [JObj [(''id'', JStr ''9007199254740993'')]]
       \<lparr>autoParseNumbers = True\<rparr> = Inr (JNum (Fin 9007199254740992))"
    by (simp add: renderValue_def r t n isNaN_def)
  with m show ?thesis by simp
qed

text \<open>
  C8, amended: when the resolved value is a numeric string (non-empty after trimming, and
  \<^verbatim>\<open>Number\<close> of it is not \<open>NaN\<close>), \<open>renderValue\<close> without \<open>autoParseNumbers\<close> returns the
  original string unchanged, leading zeros included; with \<open>autoParseNumbers\<close> it returns
  the number \<^verbatim>\<open>Number(trimmed)\<close>, which is the double nearest to the value the string denotes.
  That number is numerically equal to the string's value whenever the value is an integer of
  magnitude at most \<open>2^53\<close>.
\<close>

theorem renderValue_numeric_string:
  assumes "resolve path scopes = JStr s"
    and "trim s \<noteq> []"
    and "Number_of_string (trim s) \<noteq> NaN"
  shows "renderValue h path scopes \<lparr>autoParseNumbers = False\<rparr> = Inr (JStr s)
       \<and> renderValue h path scopes \<lparr>autoParseNumbers = True\<rparr>
           = Inr (JNum (Number_of_string (trim s)))
       \<and> (\<forall>r. stringMV (trim s) = Fin r \<longrightarrow> Number_of_string (trim s) = toDouble r)
       \<and> (\<forall>k. stringMV (trim s) = Fin (of_int k) \<and> \<bar>k\<bar> \<le> 2 ^ 53 \<longrightarrow>
             renderValue h path scopes \<lparr>autoParseNumbers = True\<rparr> = Inr (JNum (Fin (of_int k))))"
proof -
  have a: "renderValue h path scopes \<lparr>autoParseNumbers = False\<rparr> = Inr (JStr s)"
    using assms numeric_not_isoDate [OF assms(3)] by (simp add: renderValue_def isNaN_def)
  have b: "renderValue h path scopes \<lparr>autoParseNumbers = True\<rparr>
           = Inr (JNum (Number_of_string (trim s)))"
    using assms by (simp add: renderValue_def isNaN_def)
  have c: "\<forall>r. stringMV (trim s) = Fin r \<longrightarrow> Number_of_string (trim s) = toDouble r"
    by (simp add: Number_of_string_def)
  have d: "\<forall>k. stringMV (trim s) = Fin (of_int k) \<and> \<bar>k\<bar> \<le> 2 ^ 53 \<longrightarrow>
             renderValue h path scopes \<lparr>autoParseNumbers = True\<rparr> = Inr (JNum (Fin (of_int k)))"
    using b by (auto simp: Number_of_string_def toDouble_of_int)
  from a b c d show ?thesis by blast
qed

theorem renderValue_numeric_string_witness:
  "renderValue sampleHost ''zip'' [JObj [(''zip'', JStr ''00501'')]] \<lparr>autoParseNumbers = False\<rparr>
     = Inr (JStr ''00501'')
   \<and> renderValue sampleHost ''zip'' [JObj [(''zip'', JStr ''00501'')]] \<lparr>autoParseNumbers = True\<rparr>
     = Inr (JNum (Fin 501))"
proof -
  have r: "resolve ''zip'' [JObj [(''zip'', JStr ''00501'')]] = JStr ''00501''"
    by (simp add: resolve_def lodash_get_def castPath_def nullish_def isUndefined_def)
  have t: "trim ''00501'' = ''00501''"
    by (simp add: trim_def isSpace_def)
  have m: "stringMV ''00501'' = Fin (of_int 501)"
    by code_simp
  have n: "Number_of_string ''00501'' \<noteq> NaN"
    by code_simp
  have k: "\<bar>501 :: int\<bar> \<le> 2 ^ 53" by simp
  note th = renderValue_numeric_string [OF r, of sampleHost]
  from th [THEN conjunct1] t n
  have 1: "renderValue sampleHost ''zip'' [JObj [(''zip'', JStr ''00501'')]]
             \<lparr>autoParseNumbers = False\<rparr> = Inr (JStr ''00501'')" by simp
  from th [THEN conjunct2, THEN conjunct2, THEN conjunct2] t n m k
  have 2: "renderValue sampleHost ''zip'' [JObj [(''zip'', JStr ''00501'')]]
             \<lparr>autoParseNumbers = True\<rparr> = Inr (JNum (Fin (of_int 501)))" by simp
  from 1 2 show ?thesis by simp
qed

section \<open>Properties of table expansion\<close>

lemma length_padTo: "length (padTo n x xs) = max n (length xs)"
  by (simp add: padTo_def)

lemma padTo_long: "n \<le> length xs \<Longrightarrow> padTo n x xs = xs"
  by (simp add: padTo_def)

lemma length_take_padTo: "length (take n (padTo n x xs)) = n"
  by (simp add: length_padTo)

lemma applyMergePatternsToRow_rows:
  "ws_rows (applyMergePatternsToRow ws n ps) = ws_rows ws
   \<and> ws_images (applyMergePatternsToRow ws n ps) = ws_images ws
   \<and> ws_media (applyMergePatternsToRow ws n ps) = ws_media ws"
  unfolding applyMergePatternsToRow_def
  by (induction ps arbitrary: ws) (simp_all add: applyMergePattern_def Let_def)

lemma getRow_insertRow_new: "1 \<le> pos \<Longrightarrow> getRow (insertRow ws pos) pos = blankRow"
  by (simp add: getRow_def insertRow_def nth_append length_padTo)

lemma rows_setRow_insertRow:
  assumes "1 \<le> pos"
  shows "ws_rows (setRow (insertRow ws pos) pos r) =
         take (pos - 1) (padTo (pos - 1) blankRow (ws_rows ws)) @ [r] @ drop (pos - 1) (ws_rows ws)"
proof -
  let ?P = "take (pos - 1) (padTo (pos - 1) blankRow (ws_rows ws))"
  let ?D = "drop (pos - 1) (ws_rows ws)"
  have lp: "length ?P = pos - 1" by (rule length_take_padTo)
  have rows: "ws_rows (insertRow ws pos) = ?P @ [blankRow] @ ?D" by (simp add: insertRow_def)
  have "pos \<le> length (?P @ [blankRow] @ ?D)" using assms lp by simp
  then have "padTo pos blankRow (?P @ [blankRow] @ ?D) = ?P @ [blankRow] @ ?D"
    by (rule padTo_long)
  moreover have "(?P @ [blankRow] @ ?D)[pos - 1 := r] = ?P @ [r] @ ?D"
    using lp by (simp add: list_update_append)
  ultimately show ?thesis by (simp add: setRow_def rows)
qed

text \<open>The row that an element of the array gives: the template applied to a blank row.\<close>

lemma renderTable_loop_step:
  assumes "1 \<le> a"
    and "applyRowTemplate h blankRow T (item # S) options = Inr newRow"
  shows "\<exists>ws2. renderTable_loop h options a T M S index (item # items) ws =
               renderTable_loop h options a T M S (index + 1) items ws2
           \<and> ws_rows ws2 =
               take (a + index - 1) (padTo (a + index - 1) blankRow (ws_rows ws)) @ [newRow]
               @ drop (a + index - 1) (ws_rows ws)
           \<and> ws_images ws2 = ws_images ws \<and> ws_media ws2 = ws_media ws"
proof -
  let ?pos = "a + index"
  have pos: "1 \<le> ?pos" using assms(1) by simp
  define ws2 where
    "ws2 = applyMergePatternsToRow (setRow (insertRow ws ?pos) ?pos newRow) ?pos M"
  have "ws_rows ws2 = take (?pos - 1) (padTo (?pos - 1) blankRow (ws_rows ws)) @ [newRow]
               @ drop (?pos - 1) (ws_rows ws)"
    unfolding ws2_def using rows_setRow_insertRow [OF pos]
    by (simp add: applyMergePatternsToRow_rows)
  moreover have "ws_images ws2 = ws_images ws" "ws_media ws2 = ws_media ws"
    unfolding ws2_def by (simp_all add: applyMergePatternsToRow_rows setRow_def insertRow_def)
  moreover have "renderTable_loop h options a T M S index (item # items) ws =
              renderTable_loop h options a T M S (index + 1) items ws2"
    using assms(2) getRow_insertRow_new [OF pos] by (simp add: ws2_def Let_def)
  ultimately show ?thesis by blast
qed

lemma renderTable_loop_rows:
  assumes "1 \<le> a"
    and "\<forall>i \<in> set (item # items). \<exists>r. applyRowTemplate h blankRow T (i # S) options = Inr r"
  shows "\<exists>ws'. renderTable_loop h options a T M S index (item # items) ws = Inr ws'
           \<and> ws_rows ws' =
               take (a + index - 1) (padTo (a + index - 1) blankRow (ws_rows ws))
               @ map (\<lambda>i. projr (applyRowTemplate h blankRow T (i # S) options)) (item # items)
               @ drop (a + index - 1) (ws_rows ws)
           \<and> ws_images ws' = ws_images ws \<and> ws_media ws' = ws_media ws"
  using assms(2)
proof (induction items arbitrary: item index ws)
  case Nil
  then obtain newRow where
    nr: "applyRowTemplate h blankRow T (item # S) options = Inr newRow" by auto
  from renderTable_loop_step [OF assms(1) nr, of M index "[]" ws] show ?case
    using nr by auto
next
  case (Cons item2 items)
  let ?pos = "a + index"
  let ?P = "take (?pos - 1) (padTo (?pos - 1) blankRow (ws_rows ws))"
  let ?D = "drop (?pos - 1) (ws_rows ws)"
  let ?f = "\<lambda>i. projr (applyRowTemplate h blankRow T (i # S) options)"
  have pos: "1 \<le> ?pos" using assms(1) by simp
  from Cons.prems obtain newRow where
    nr: "applyRowTemplate h blankRow T (item # S) options = Inr newRow" by auto
  from renderTable_loop_step [OF assms(1) nr, of M index "item2 # items" ws] obtain ws2 where
    step: "renderTable_loop h options a T M S index (item # item2 # items) ws =
           renderTable_loop h options a T M S (index + 1) (item2 # items) ws2"
    and rows2: "ws_rows ws2 = ?P @ [newRow] @ ?D"
    and img2: "ws_images ws2 = ws_images ws" "ws_media ws2 = ws_media ws"
    by blast
  from Cons.prems
  have "\<forall>i \<in> set (item2 # items). \<exists>r. applyRowTemplate h blankRow T (i # S) options = Inr r"
    by simp
  from Cons.IH [OF this, of "index + 1" ws2] obtain ws' where
    r: "renderTable_loop h options a T M S (index + 1) (item2 # items) ws2 = Inr ws'"
    and rows': "ws_rows ws' =
               take (a + (index + 1) - 1) (padTo (a + (index + 1) - 1) blankRow (ws_rows ws2))
               @ map ?f (item2 # items) @ drop (a + (index + 1) - 1) (ws_rows ws2)"
    and img': "ws_images ws' = ws_images ws2" "ws_media ws' = ws_media ws2"
    by blast
  have lp: "length ?P = ?pos - 1" by (rule length_take_padTo)
  have idx: "a + (index + 1) - 1 = ?pos" using assms(1) by simp
  have len2: "?pos \<le> length (ws_rows ws2)" using lp pos by (simp add: rows2)
  have one: "?pos - (?pos - 1) = 1" using pos by simp
  have "padTo ?pos blankRow (ws_rows ws2) = ws_rows ws2" by (rule padTo_long [OF len2])
  then have "take ?pos (padTo ?pos blankRow (ws_rows ws2)) = take ?pos (?P @ [newRow] @ ?D)"
    by (simp only: rows2)
  also have "\<dots> = ?P @ [newRow]"
    by (simp only: take_append lp one) simp
  finally have tk: "take ?pos (padTo ?pos blankRow (ws_rows ws2)) = ?P @ [newRow]" .
  have "drop ?pos (ws_rows ws2) = drop ?pos (?P @ [newRow] @ ?D)" by (simp only: rows2)
  also have "\<dots> = ?D"
    by (simp only: drop_append lp one) simp
  finally have dr: "drop ?pos (ws_rows ws2) = ?D" .
  have "ws_rows ws' = ?P @ map ?f (item # item2 # items) @ ?D"
    using rows' nr by (simp add: idx tk dr)
  with r step img' img2 show ?case by simp
qed

lemma spliced_length:
  "length (take k (padTo k x R) @ Mid @ drop k R) = max k (length R) + length Mid"
  by (simp add: length_padTo)

lemma spliced_mid:
  "i < length Mid \<Longrightarrow> (take k (padTo k x R) @ Mid @ drop k R) ! (k + i) = Mid ! i"
  using length_take_padTo [of k x R] by (simp add: nth_append)

lemma spliced_before:
  assumes "j < k"
  shows "(take k (padTo k x R) @ Mid @ drop k R) ! j = (if j < length R then R ! j else x)"
proof -
  have "(take k (padTo k x R) @ Mid @ drop k R) ! j = take k (padTo k x R) ! j"
    using assms length_take_padTo [of k x R] by (simp add: nth_append)
  also have "\<dots> = padTo k x R ! j" using assms by simp
  also have "\<dots> = (if j < length R then R ! j else x)"
    using assms by (simp add: padTo_def nth_append)
  finally show ?thesis .
qed

lemma spliced_after:
  assumes "k \<le> j" and "j < length R"
  shows "(take k (padTo k x R) @ Mid @ drop k R) ! (j + length Mid) = R ! j"
proof -
  have "(take k (padTo k x R) @ (Mid @ drop k R)) ! (j + length Mid)
          = (Mid @ drop k R) ! (j + length Mid - k)"
    using assms length_take_padTo [of k x R] by (simp add: nth_append)
  also have "j + length Mid - k = length Mid + (j - k)" using assms by simp
  also have "(Mid @ drop k R) ! (length Mid + (j - k)) = drop k R ! (j - k)"
    by (rule nth_append_length_plus)
  also have "\<dots> = R ! j" using assms by simp
  finally show ?thesis by simp
qed

lemma getRow_spliced:
  assumes rows: "ws_rows ws' =
      take (a - 1) (padTo (a - 1) blankRow (ws_rows ws)) @ Mid @ drop (a - 1) (ws_rows ws)"
    and a: "1 \<le> a"
  shows "length (ws_rows ws') = max (a - 1) (length (ws_rows ws)) + length Mid"
    and "\<forall>i < length Mid. getRow ws' (a + i) = Mid ! i"
    and "\<forall>n. 1 \<le> n \<and> n < a \<longrightarrow> getRow ws' n = getRow ws n"
    and "\<forall>n \<ge> a. getRow ws' (n + length Mid) = getRow ws n"
proof -
  show len: "length (ws_rows ws') = max (a - 1) (length (ws_rows ws)) + length Mid"
    by (simp only: rows spliced_length)
  show "\<forall>i < length Mid. getRow ws' (a + i) = Mid ! i"
  proof (intro allI impI)
    fix i assume i: "i < length Mid"
    have "a + i - 1 = (a - 1) + i" using a by simp
    moreover have "a + i \<le> length (ws_rows ws')" using i a len by arith
    ultimately show "getRow ws' (a + i) = Mid ! i"
      using a i spliced_mid [OF i, of "a - 1" blankRow "ws_rows ws"]
      by (simp add: getRow_def rows)
  qed
  show "\<forall>n. 1 \<le> n \<and> n < a \<longrightarrow> getRow ws' n = getRow ws n"
  proof (intro allI impI)
    fix n assume n: "1 \<le> n \<and> n < a"
    then have j: "n - 1 < a - 1" by arith
    have "n \<le> length (ws_rows ws')" using n len by arith
    then have "getRow ws' n = ws_rows ws' ! (n - 1)" using n by (simp add: getRow_def)
    also have "\<dots> = (if n - 1 < length (ws_rows ws) then ws_rows ws ! (n - 1) else blankRow)"
      by (simp only: rows spliced_before [OF j])
    also have "\<dots> = getRow ws n" using n by (auto simp: getRow_def)
    finally show "getRow ws' n = getRow ws n" .
  qed
  show "\<forall>n \<ge> a. getRow ws' (n + length Mid) = getRow ws n"
  proof (intro allI impI)
    fix n assume n: "a \<le> n"
    show "getRow ws' (n + length Mid) = getRow ws n"
    proof (cases "n \<le> length (ws_rows ws)")
      case True
      then have j: "a - 1 \<le> n - 1" "n - 1 < length (ws_rows ws)" using n a by simp_all
      have "n + length Mid \<le> length (ws_rows ws')" using True len by arith
      then have "getRow ws' (n + length Mid) = ws_rows ws' ! (n + length Mid - 1)"
        using n a by (simp add: getRow_def)
      also have "n + length Mid - 1 = (n - 1) + length Mid" using n a by simp
      also have "ws_rows ws' ! ((n - 1) + length Mid) = ws_rows ws ! (n - 1)"
        by (simp only: rows spliced_after [OF j])
      also have "\<dots> = getRow ws n" using True n a by (simp add: getRow_def)
      finally show ?thesis .
    next
      case False
      then have "\<not> n + length Mid \<le> length (ws_rows ws')" using n len by arith
      with False show ?thesis by (simp add: getRow_def)
    qed
  qed
qed

text \<open>
  C5: for a non-empty array of \<open>N\<close> elements at the anchor's path, \<open>renderTable\<close> inserts
  exactly \<open>N\<close> rows; row \<open>anchorRow + i\<close> is the template row applied to a blank row with
  element \<open>i\<close> in front of the scope stack; the rows above the anchor stay, the rows from
  the anchor on (the anchor and template rows first) move down by \<open>N\<close>; the table info
  reports the range from \<open>anchorRow\<close> to \<open>anchorRow + N - 1\<close> and the rows to hide are
  \<open>anchorRow + N\<close> and \<open>anchorRow + N + 1\<close>. The expansion is stated for the runs in which
  reading the template row and rendering its cells raise no exception.
\<close>

theorem renderTable_expands:
  assumes "1 \<le> a"
    and "resolve arrayPath (scopes @ [rootData]) = JArr arr"
    and "arr \<noteq> []"
    and "extractRowTemplate ws (a + 1) = Inr (templates, mergePatterns, fcm)"
    and "\<forall>item \<in> set arr.
           \<exists>r. applyRowTemplate h blankRow templates (item # scopes @ [rootData]) options = Inr r"
  shows "\<exists>ws'. renderTable h ws a arrayPath scopes rootData options =
             Inr (ws', \<lparr>tr_tableInfo =
                          Some \<lparr>ti_startRow = int a, ti_endRow = int a + int (length arr) - 1,
                                ti_path = arrayPath, ti_fieldColumnMap = fcm\<rparr>,
                        tr_rowsToHide = [a + length arr, a + length arr + 1]\<rparr>)
           \<and> length (ws_rows ws') = max (a - 1) (length (ws_rows ws)) + length arr
           \<and> (\<forall>i < length arr.
                 applyRowTemplate h blankRow templates (arr ! i # scopes @ [rootData]) options =
                 Inr (getRow ws' (a + i)))
           \<and> (\<forall>n. 1 \<le> n \<and> n < a \<longrightarrow> getRow ws' n = getRow ws n)
           \<and> (\<forall>n \<ge> a. getRow ws' (n + length arr) = getRow ws n)"
proof -
  let ?S = "scopes @ [rootData]"
  let ?f = "\<lambda>i. projr (applyRowTemplate h blankRow templates (i # ?S) options)"
  from assms(3) obtain item items where arr: "arr = item # items" by (cases arr) auto
  from renderTable_loop_rows [OF assms(1), of item items h templates ?S options mergePatterns 0 ws]
    assms(5)
  obtain ws1 where
    loop: "renderTable_loop h options a templates mergePatterns ?S 0 arr ws = Inr ws1"
    and rows1: "ws_rows ws1 = take (a - 1) (padTo (a - 1) blankRow (ws_rows ws)) @ map ?f arr
                               @ drop (a - 1) (ws_rows ws)"
    by (auto simp: arr)
  define ws' where "ws' = adjustImageAnchors ws1 a (length arr)"
  have rows': "ws_rows ws' = take (a - 1) (padTo (a - 1) blankRow (ws_rows ws)) @ map ?f arr
                               @ drop (a - 1) (ws_rows ws)"
    by (simp add: ws'_def adjustImageAnchors_def rows1)
  have res: "renderTable h ws a arrayPath scopes rootData options =
             Inr (ws', \<lparr>tr_tableInfo =
                          Some \<lparr>ti_startRow = int a, ti_endRow = int a + int (length arr) - 1,
                                ti_path = arrayPath, ti_fieldColumnMap = fcm\<rparr>,
                        tr_rowsToHide = [a + length arr, a + length arr + 1]\<rparr>)"
    using assms(2,3,4) loop by (simp add: renderTable_def ws'_def Let_def)
  note g = getRow_spliced [OF rows' assms(1)]
  have mid: "\<forall>i < length arr.
               applyRowTemplate h blankRow templates (arr ! i # ?S) options =
               Inr (getRow ws' (a + i))"
  proof (intro allI impI)
    fix i assume i: "i < length arr"
    then have "arr ! i \<in> set arr" by simp
    with assms(5) obtain r where
      r: "applyRowTemplate h blankRow templates (arr ! i # ?S) options = Inr r" by blast
    from g(2) i have "getRow ws' (a + i) = ?f (arr ! i)" by simp
    with r show "applyRowTemplate h blankRow templates (arr ! i # ?S) options =
                 Inr (getRow ws' (a + i))" by simp
  qed
  from res g(1) mid g(3) g(4) show ?thesis by (intro exI [of _ ws']) simp
qed

theorem renderTable_expands_witness:
  "\<exists>ws'. renderTable sampleHost exampleSheet 2 ''items'' [] exampleData
             \<lparr>autoParseNumbers = False\<rparr> =
           Inr (ws', \<lparr>tr_tableInfo =
                        Some \<lparr>ti_startRow = 2, ti_endRow = 3, ti_path = ''items'',
                              ti_fieldColumnMap = [(''amount'', ''B''), (''name'', ''A'')]\<rparr>,
                      tr_rowsToHide = [4, 5]\<rparr>)
         \<and> length (ws_rows ws') = 6
         \<and> getRow ws' 2 = plainRow [JStr ''A'', JNum (Fin 1)]
         \<and> getRow ws' 3 = plainRow [JStr ''B'', JNum (Fin 2)]
         \<and> getRow ws' 1 = getRow exampleSheet 1
         \<and> getRow ws' 4 = getRow exampleSheet 2
         \<and> getRow ws' 5 = getRow exampleSheet 3"
proof -
  let ?A = "JObj [(''name'', JStr ''A''), (''amount'', JNum (Fin 1))]"
  let ?B = "JObj [(''name'', JStr ''B''), (''amount'', JNum (Fin 2))]"
  let ?T = "[\<lparr>t_value = JStr ''{{name}}'', t_style = JObj [], t_numFmt = None,
               t_isMerged = False, t_mergeInfo = None\<rparr>,
             \<lparr>t_value = JStr ''{{amount}}'', t_style = JObj [], t_numFmt = None,
               t_isMerged = False, t_mergeInfo = None\<rparr>]"
  have a: "(1::nat) \<le> 2" by simp
  have r: "resolve ''items'' ([] @ [exampleData]) = JArr [?A, ?B]"
    by (simp add: exampleData_def resolve_def lodash_get_def castPath_def nullish_def
        isUndefined_def)
  have ne: "[?A, ?B] \<noteq> []" by simp
  have t: "extractRowTemplate exampleSheet (2 + 1) = Inr (?T, [], [(''amount'', ''B''), (''name'', ''A'')])"
    by code_simp
  have rA: "applyRowTemplate sampleHost blankRow ?T (?A # [] @ [exampleData])
              \<lparr>autoParseNumbers = False\<rparr> = Inr (plainRow [JStr ''A'', JNum (Fin 1)])"
    by code_simp
  have rB: "applyRowTemplate sampleHost blankRow ?T (?B # [] @ [exampleData])
              \<lparr>autoParseNumbers = False\<rparr> = Inr (plainRow [JStr ''B'', JNum (Fin 2)])"
    by code_simp
  have all: "\<forall>item \<in> set [?A, ?B].
           \<exists>r. applyRowTemplate sampleHost blankRow ?T (item # [] @ [exampleData])
                 \<lparr>autoParseNumbers = False\<rparr> = Inr r"
    using rA rB by simp
  from renderTable_expands [OF a r ne t all] obtain ws' where
    res: "renderTable sampleHost exampleSheet 2 ''items'' [] exampleData
             \<lparr>autoParseNumbers = False\<rparr> =
           Inr (ws', \<lparr>tr_tableInfo =
                        Some \<lparr>ti_startRow = int 2, ti_endRow = int 2 + int (length [?A, ?B]) - 1,
                              ti_path = ''items'',
                              ti_fieldColumnMap = [(''amount'', ''B''), (''name'', ''A'')]\<rparr>,
                      tr_rowsToHide = [2 + length [?A, ?B], 2 + length [?A, ?B] + 1]\<rparr>)"
    and len: "length (ws_rows ws') = max (2 - 1) (length (ws_rows exampleSheet)) + length [?A, ?B]"
    and mid: "\<forall>i < length [?A, ?B].
                 applyRowTemplate sampleHost blankRow ?T ([?A, ?B] ! i # [] @ [exampleData])
                   \<lparr>autoParseNumbers = False\<rparr> = Inr (getRow ws' (2 + i))"
    and before: "\<forall>n. 1 \<le> n \<and> n < 2 \<longrightarrow> getRow ws' n = getRow exampleSheet n"
    and after: "\<forall>n \<ge> 2. getRow ws' (n + length [?A, ?B]) = getRow exampleSheet n"
    by blast
  have g2: "getRow ws' 2 = plainRow [JStr ''A'', JNum (Fin 1)]"
    using mid [rule_format, of 0] rA by simp
  have g3: "getRow ws' 3 = plainRow [JStr ''B'', JNum (Fin 2)]"
    using mid [rule_format, of 1] rB by simp
  have g1: "getRow ws' 1 = getRow exampleSheet 1"
    using before [rule_format, of 1] by simp
  have g4: "getRow ws' 4 = getRow exampleSheet 2"
    using after [rule_format, of 2] by simp
  have g5: "getRow ws' 5 = getRow exampleSheet 3"
    using after [rule_format, of 3] by simp
  have l: "length (ws_rows ws') = 6"
    using len by (simp add: exampleSheet_def plainSheet_def)
  from res l g2 g3 g1 g4 g5 show ?thesis by (intro exI [of _ ws']) simp
qed

section \<open>Properties of formula targeting\<close>

lemma stripPrefixCI_length: "stripPrefixCI p s = Some r \<Longrightarrow> length p \<le> length s"
  by (induction p s rule: stripPrefixCI.induct) (auto split: if_splits)

lemma matchFormulaType_nonempty:
  "matchFormulaType tys s = Some (ty, r) \<Longrightarrow> [] \<notin> set tys \<Longrightarrow> ty \<noteq> []"
proof (induction tys)
  case Nil
  then show ?case by simp
next
  case (Cons t tys)
  show ?case
  proof (cases "stripPrefixCI t s")
    case None
    with Cons show ?thesis by simp
  next
    case (Some r')
    with Cons.prems have ty: "ty = take (length t) s" by simp
    from Some have "length t \<le> length s" by (rule stripPrefixCI_length)
    moreover from Cons.prems have "t \<noteq> []" by auto
    ultimately show ?thesis using ty by (cases s) auto
  qed
qed

lemma matchFormulaBody_nonempty:
  assumes "matchFormulaBody e = Some (ty, target)"
  shows "ty \<noteq> [] \<and> target \<noteq> []"
proof -
  from assms obtain r1 where r1: "stripPrefixCI ''#formula'' e = Some r1"
    by (auto simp: matchFormulaBody_def split: option.splits)
  let ?m = "matchFormulaType [''SUM'', ''AVERAGE'', ''COUNT'', ''MIN'', ''MAX'']
              (dropWhile isSpace r1)"
  from assms r1 obtain ty' r3 where m: "?m = Some (ty', r3)"
    by (cases ?m) (auto simp: matchFormulaBody_def split: if_splits)
  from assms r1 m have eq: "ty = ty'" and t: "target \<noteq> []"
    by (auto simp only: matchFormulaBody_def Let_def option.case prod.case
        split: if_splits)
  from matchFormulaType_nonempty [OF m] have "ty' \<noteq> []" by simp
  with eq t show ?thesis by simp
qed

lemma matchFormula_nonempty:
  "matchFormula t = Some (ty, target) \<Longrightarrow> ty \<noteq> [] \<and> target \<noteq> []"
  using matchFormulaBody_nonempty
  by (auto simp: matchFormula_def split: option.splits)

lemma toUpperCase_nonempty: "s \<noteq> [] \<Longrightarrow> toUpperCase s \<noteq> []"
  by (simp add: toUpperCase_def)

lemma detectPlaceholder_formula:
  assumes "detectPlaceholder v = Some ph" and "ph_type ph = PFormula"
  shows "truthyStr (ph_formulaType ph)
       \<and> ((truthyStr (ph_column ph) \<and> ph_arrayPath ph = None \<and> ph_fieldName ph = None)
          \<or> (ph_column ph = None \<and> (\<exists>ap. ph_arrayPath ph = Some ap)
              \<and> (ph_arrayPath ph = Some [] \<longrightarrow> truthyStr (ph_fieldName ph))))"
proof -
  from assms obtain s where v: "v = JStr s"
    by (cases v) (auto simp: detectPlaceholder_def)
  from assms obtain ty target where
    mt: "matchTable (trim s) = None"
    and mf: "matchFormula (trim s) = Some (ty, target)"
    by (auto simp: v detectPlaceholder_def Let_def split: option.splits if_splits)
  from matchFormula_nonempty [OF mf] have ne: "ty \<noteq> []" "target \<noteq> []" by simp_all
  show ?thesis
  proof (cases "matchColumnLetter target \<and> length target \<le> 3")
    case True
    with assms mt mf ne show ?thesis
      by (auto simp: v detectPlaceholder_def Let_def toUpperCase_nonempty)
  next
    case False
    show ?thesis
    proof (cases "0 < lastIndexOf (CHR ''.'') target")
      case True
      then have "take (nat (lastIndexOf (CHR ''.'') target)) target \<noteq> []"
        using ne by simp
      with True False assms mt mf ne show ?thesis
        by (auto simp: v detectPlaceholder_def Let_def toUpperCase_nonempty)
    next
      case nodot: False
      with False assms mt mf ne show ?thesis
        by (auto simp: v detectPlaceholder_def Let_def toUpperCase_nonempty)
    qed
  qed
qed









section \<open>Exceptions in the final pass\<close>

lemma finalPassCells_completes:
  "(\<exists>cs'. finalPassCells h data options M L cs = Inr cs') \<longleftrightarrow>
   (\<forall>c \<in> set cs. c_value c \<noteq> JNull \<longrightarrow> (\<exists>v. finalPassCell h data options M L (c_value c) = Inr v))"
proof (induction cs)
  case Nil
  show ?case by simp
next
  case (Cons c cs)
  show ?case
  proof (cases "c_value c = JNull")
    case True
    with Cons show ?thesis by (auto split: sum.splits)
  next
    case False
    show ?thesis
    proof (cases "finalPassCell h data options M L (c_value c)")
      case (Inl e)
      with False show ?thesis by auto
    next
      case (Inr v)
      with False Cons show ?thesis by (auto split: sum.splits)
    qed
  qed
qed

lemma finalPassRows_completes:
  "(\<exists>rs'. finalPassRows h data options M L rs = Inr rs') \<longleftrightarrow>
   (\<forall>r \<in> set rs. \<forall>c \<in> set (r_cells r).
      c_value c \<noteq> JNull \<longrightarrow> (\<exists>v. finalPassCell h data options M L (c_value c) = Inr v))"
proof (induction rs)
  case Nil
  show ?case by simp
next
  case (Cons r rs)
  note cells = finalPassCells_completes [of h data options M L "r_cells r"]
  show ?case
  proof (cases "finalPassCells h data options M L (r_cells r)")
    case (Inl e)
    then have "\<not> (\<exists>cs'. finalPassCells h data options M L (r_cells r) = Inr cs')" by simp
    with cells have "\<not> (\<forall>c \<in> set (r_cells r).
      c_value c \<noteq> JNull \<longrightarrow> (\<exists>v. finalPassCell h data options M L (c_value c) = Inr v))"
      by blast
    moreover from Inl have "\<not> (\<exists>rs'. finalPassRows h data options M L (r # rs) = Inr rs')"
      by simp
    ultimately show ?thesis by auto
  next
    case (Inr cs')
    then have "\<exists>cs'. finalPassCells h data options M L (r_cells r) = Inr cs'" by simp
    with cells have ok: "\<forall>c \<in> set (r_cells r).
      c_value c \<noteq> JNull \<longrightarrow> (\<exists>v. finalPassCell h data options M L (c_value c) = Inr v)"
      by blast
    have "(\<exists>rs'. finalPassRows h data options M L (r # rs) = Inr rs') \<longleftrightarrow>
          (\<exists>rs'. finalPassRows h data options M L rs = Inr rs')"
      using Inr by (auto split: sum.splits)
    with Cons ok show ?thesis by auto
  qed
qed

text \<open>
  C1, as the specification states it: an exception in one cell's computation is caught and
  the render never aborts. A sheet with the cell \<^verbatim>\<open>{{id}}\<close> and the data \<^verbatim>\<open>{id: 10n}\<close>: the value
  is a \<^verbatim>\<open>BigInt\<close>, \<open>renderValue\<close> reaches \<^verbatim>\<open>JSON.stringify\<close>, which throws, and nothing catches:
  \<open>processWorkbook\<close> ends with the exception and the cell beside it is never rendered.
\<close>

theorem render_aborts_counterexample:
  "processWorkbook sampleHost [plainSheet [[JStr ''{{id}}'', JStr ''{{name}}'']]]
     (JObj [(''id'', JBigInt 10), (''name'', JStr ''n'')]) \<lparr>autoParseNumbers = False\<rparr>
   = Inl (TypeError ''Do not know how to serialize a BigInt'')"
  by code_simp

text \<open>
  C1, amended: in the final pass a formula cell raises no exception, and the failures of
  formula targeting (field not found, no column, no table or path) are rendered as
  in-cell strings that start with \<^verbatim>\<open>#ERROR:\<close>; an exception raised in the computation of any
  other cell is not caught: on a sheet without merged cells the pass completes exactly
  when no cell with a value raises.
\<close>

theorem final_pass_errors:
  "(detectPlaceholder v = Some ph \<and> ph_type ph = PFormula \<longrightarrow>
      (\<exists>r. finalPassCell h data options M L v = Inr r))
   \<and> (validTableInfo (Some ti) \<and> fn \<noteq> [] \<and> \<not> truthyStr (map_of (ti_fieldColumnMap ti) fn) \<longrightarrow>
        renderFormula ft None (Some fn) ap (Some ti) data
          = JStr (''#ERROR: '' @ FIELD_NOT_FOUND fn))
   \<and> (validTableInfo (Some ti) \<and> \<not> truthyStr col \<and> \<not> truthyStr fld \<longrightarrow>
        renderFormula ft col fld ap (Some ti) data = JStr (''#ERROR: '' @ NO_COLUMN_SPECIFIED))
   \<and> (\<not> validTableInfo tio \<and> (\<not> truthyStr ap \<or> \<not> truthyStr fld) \<longrightarrow>
        renderFormula ft col fld ap tio data = JStr (''#ERROR: '' @ NO_TABLE_OR_PATH))
   \<and> (ws_merges ws = [] \<longrightarrow>
        ((\<exists>ws'. finalPass h data options M L ws = Inr ws') \<longleftrightarrow>
           (\<forall>r \<in> set (ws_rows ws). \<forall>c \<in> set (r_cells r).
              c_value c \<noteq> JNull \<longrightarrow>
                (\<exists>x. finalPassCell h data options M L (c_value c) = Inr x))))"
proof -
  have 1: "\<exists>r. finalPassCell h data options M L v = Inr r"
    if "detectPlaceholder v = Some ph" "ph_type ph = PFormula"
    using that detectPlaceholder_formula [OF that] by (simp add: finalPassCell_def)
  have 2: "renderFormula ft None (Some fn) ap (Some ti) data
          = JStr (''#ERROR: '' @ FIELD_NOT_FOUND fn)"
    if "validTableInfo (Some ti)" "fn \<noteq> []" "\<not> truthyStr (map_of (ti_fieldColumnMap ti) fn)"
    using that by (simp add: renderFormula_def)
  have 3: "renderFormula ft col fld ap (Some ti) data = JStr (''#ERROR: '' @ NO_COLUMN_SPECIFIED)"
    if "validTableInfo (Some ti)" "\<not> truthyStr col" "\<not> truthyStr fld"
    using that by (simp add: renderFormula_def)
  have 4: "renderFormula ft col fld ap tio data = JStr (''#ERROR: '' @ NO_TABLE_OR_PATH)"
    if "\<not> validTableInfo tio" "\<not> truthyStr ap \<or> \<not> truthyStr fld"
    using that by (auto simp: renderFormula_def)
  have 5: "(\<exists>ws'. finalPass h data options M L ws = Inr ws') \<longleftrightarrow>
        (\<forall>r \<in> set (ws_rows ws). \<forall>c \<in> set (r_cells r).
           c_value c \<noteq> JNull \<longrightarrow> (\<exists>x. finalPassCell h data options M L (c_value c) = Inr x))"
  proof -
    have "(\<exists>ws'. finalPass h data options M L ws = Inr ws') \<longleftrightarrow>
          (\<exists>rs'. finalPassRows h data options M L (ws_rows ws) = Inr rs')"
      by (auto simp: finalPass_def split: sum.splits)
    then show ?thesis
      by (simp only: finalPassRows_completes)
  qed
  from 1 2 3 4 5 show ?thesis by blast
qed

theorem final_pass_errors_witness:
  "(\<exists>r. finalPassCell sampleHost exampleData \<lparr>autoParseNumbers = False\<rparr> [] None
          (JStr ''{{#formula SUM amount}}'') = Inr r)
   \<and> finalPassCell sampleHost exampleData \<lparr>autoParseNumbers = False\<rparr> [] None
          (JStr ''{{#formula SUM amount}}'')
       = Inr (JStr ''#ERROR: No table or array path found for formula'')
   \<and> (\<exists>ws'. finalPass sampleHost exampleData \<lparr>autoParseNumbers = False\<rparr> [] None
          (plainSheet [[JStr ''{{#formula SUM amount}}'']]) = Inr ws')"
proof -
  let ?ph = "\<lparr>ph_type = PFormula, ph_path = ''amount'', ph_separator = None,
              ph_formulaType = Some ''SUM'', ph_column = None,
              ph_arrayPath = Some [], ph_fieldName = Some ''amount''\<rparr>"
  have d: "detectPlaceholder (JStr ''{{#formula SUM amount}}'') = Some ?ph"
    by code_simp
  have t: "ph_type ?ph = PFormula" by simp
  have "\<exists>r. finalPassCell sampleHost exampleData \<lparr>autoParseNumbers = False\<rparr> [] None
          (JStr ''{{#formula SUM amount}}'') = Inr r"
    using final_pass_errors [THEN conjunct1, of "JStr ''{{#formula SUM amount}}''" ?ph] d t
    by blast
  then have cells: "\<forall>r \<in> set (ws_rows (plainSheet [[JStr ''{{#formula SUM amount}}'']])).
      \<forall>c \<in> set (r_cells r). c_value c \<noteq> JNull \<longrightarrow>
        (\<exists>x. finalPassCell sampleHost exampleData \<lparr>autoParseNumbers = False\<rparr> [] None
               (c_value c) = Inr x)"
    by (simp add: plainSheet_def plainRow_def)
  have merges: "ws_merges (plainSheet [[JStr ''{{#formula SUM amount}}'']]) = []"
    by (simp add: plainSheet_def)
  have pass: "\<exists>ws'. finalPass sampleHost exampleData \<lparr>autoParseNumbers = False\<rparr> [] None
          (plainSheet [[JStr ''{{#formula SUM amount}}'']]) = Inr ws'"
    using final_pass_errors [where ws = "plainSheet [[JStr ''{{#formula SUM amount}}'']]"
        and h = sampleHost and data = exampleData and options = "\<lparr>autoParseNumbers = False\<rparr>"
        and M = "[]" and L = None,
        THEN conjunct2, THEN conjunct2, THEN conjunct2, THEN conjunct2] merges cells
    by blast
  have cell: "\<exists>r. finalPassCell sampleHost exampleData \<lparr>autoParseNumbers = False\<rparr> [] None
          (JStr ''{{#formula SUM amount}}'') = Inr r"
    using final_pass_errors [THEN conjunct1, of "JStr ''{{#formula SUM amount}}''" ?ph] d t
    by blast
  have "finalPassCell sampleHost exampleData \<lparr>autoParseNumbers = False\<rparr> [] None
          (JStr ''{{#formula SUM amount}}'')
       = Inr (JStr ''#ERROR: No table or array path found for formula'')"
    by code_simp
  with cell pass show ?thesis by blast
qed

end
